(* ===== verification/Prelude.thy ===== *)
theory Prelude
  imports Main "HOL-Library.Word" "HOL-Library.Char_ord" "HOL-Library.List_Lexorder"
begin

text \<open>
  Shared vocabulary of the development: how a C++ call fails, the parts of \<open>std::string\<close>,
  \<open>std::set\<close> and \<open>std::map\<close> that the library uses, decimal printing, network byte
  order, and the lemmas about them that the component theories rely on.

  \<^item> \<open>failure\<close> and \<open>result\<close>: a call returns \<open>Inr v\<close>, or \<open>Inl\<close> of why it did not return
    normally: a thrown exception, \<open>SHAREDDATALAYER_ABORT\<close>, or undefined behaviour (an
    unchecked access out of range).
  \<^item> strings are byte lists (\<open>string\<close>); positions are \<open>nat\<close> and \<open>npos\<close> is \<open>None\<close>.
  \<^item> \<open>std::set\<close> and \<open>std::map\<close> iterate in key order, so they are lists kept strictly
    increasing (\<open>key_sorted\<close>); the order of strings is byte-wise lexicographic, as
    \<open>std::string::operator<\<close> is.
\<close>

named_theorems str_simps \<open>rewrite rules for the std::string primitives\<close>

named_theorems byte_simps \<open>rewrite rules for bytes and network byte order\<close>

section \<open>How a call fails\<close>

text \<open>The exception classes the library throws, with the constructor arguments that
  determine their text. \<open>SdlException\<close> is the base class thrown with a message.\<close>

datatype exn =
    SdlException string
  | EmptyNamespace
  | InvalidNamespace string
  | BackendError string
  | NotConnected string
  | OperationInterrupted string
  | RejectedByBackend string
  | RejectedBySdl string
  | InvalidPort string
  | EmptyPort
  | EmptyHost
  | InvalidDbType string
  | CommandNameAlreadyRegistered string
  | UnknownCommandName string
  | CategoryOffsetAlreadyRegistered string int
  | StdRangeError string
  | StdOutOfRange
  | StdInvalidArgument string
  | StdBadFunctionCall
  | StdSystemError string int

datatype failure = Throw exn | Abort string | Undefined

type_synonym 'a result = "failure + 'a"

definition rbind :: "'a result \<Rightarrow> ('a \<Rightarrow> 'b result) \<Rightarrow> 'b result" where
  "rbind r f = (case r of Inl e \<Rightarrow> Inl e | Inr x \<Rightarrow> f x)"

lemma rbind_simps [simp]:
  "rbind (Inl e) f = Inl e" "rbind (Inr x) f = f x"
  by (simp_all add: rbind_def)

lemma rbind_Inr_iff: "rbind r f = Inr y \<longleftrightarrow> (\<exists>x. r = Inr x \<and> f x = Inr y)"
  by (cases r) simp_all

lemma rbind_Inl_iff: "rbind r f = Inl e \<longleftrightarrow> r = Inl e \<or> (\<exists>x. r = Inr x \<and> f x = Inl e)"
  by (cases r) simp_all

lemma rbind_assoc: "rbind (rbind r f) g = rbind r (\<lambda>x. rbind (f x) g)"
  by (cases r) simp_all

lemma rbind_cong [fundef_cong]:
  "r = r' \<Longrightarrow> (\<And>x. r' = Inr x \<Longrightarrow> f x = g x) \<Longrightarrow> rbind r f = rbind r' g"
  by (cases r') simp_all

text \<open>A range-based loop whose body may throw.\<close>

fun for_each :: "('a \<Rightarrow> 's \<Rightarrow> 's result) \<Rightarrow> 'a list \<Rightarrow> 's \<Rightarrow> 's result" where
  "for_each body [] s = Inr s"
| "for_each body (x # xs) s = rbind (body x s) (for_each body xs)"

lemma for_each_append:
  "for_each body (xs @ ys) s = rbind (for_each body xs s) (for_each body ys)"
proof (induction xs arbitrary: s)
  case (Cons x xs)
  then show ?case by (cases "body x s") simp_all
qed simp

lemma for_each_invariant:
  assumes "for_each body xs s = Inr t" and "P s"
    and "\<And>x u v. x \<in> set xs \<Longrightarrow> P u \<Longrightarrow> body x u = Inr v \<Longrightarrow> P v"
  shows "P t"
  using assms
proof (induction xs arbitrary: s)
  case (Cons x xs)
  from Cons.prems(1) obtain u where u: "body x s = Inr u" "for_each body xs u = Inr t"
    by (auto simp: rbind_Inr_iff)
  have "P u" using Cons.prems(2,3) u(1) by (metis list.set_intros(1))
  with u(2) show ?case using Cons.IH Cons.prems(3) by (metis list.set_intros(2))
qed simp

text \<open>A loop whose body never fails is a fold.\<close>

lemma for_each_total:
  "(\<And>x u. x \<in> set xs \<Longrightarrow> body x u = Inr (g x u)) \<Longrightarrow> for_each body xs s = Inr (fold g xs s)"
  by (induction xs arbitrary: s) simp_all

lemma for_each_map: "for_each body (map f xs) s = for_each (\<lambda>x. body (f x)) xs s"
proof (induction xs arbitrary: s)
  case (Cons x xs)
  then show ?case by (cases "body (f x) s") simp_all
qed simp

text \<open>\<open>vector::at\<close> throws; \<open>vector::operator[]\<close> out of range is undefined.\<close>

definition vec_at :: "'a list \<Rightarrow> nat \<Rightarrow> 'a result" where
  "vec_at xs i = (if i < length xs then Inr (xs ! i) else Inl (Throw StdOutOfRange))"

definition vec_index :: "'a list \<Rightarrow> nat \<Rightarrow> 'a result" where
  "vec_index xs i = (if i < length xs then Inr (xs ! i) else Inl Undefined)"

section \<open>std::string\<close>

fun index_of :: "(char \<Rightarrow> bool) \<Rightarrow> string \<Rightarrow> nat option" where
  "index_of p [] = None"
| "index_of p (x # xs) = (if p x then Some 0 else map_option Suc (index_of p xs))"

definition str_find :: "char \<Rightarrow> nat \<Rightarrow> string \<Rightarrow> nat option" where
  "str_find c base s = map_option ((+) base) (index_of ((=) c) (drop base s))"

definition str_find_first_of :: "string \<Rightarrow> nat \<Rightarrow> string \<Rightarrow> nat option" where
  "str_find_first_of cs base s = map_option ((+) base) (index_of (\<lambda>x. x \<in> set cs) (drop base s))"

definition str_rfind :: "char \<Rightarrow> string \<Rightarrow> nat option" where
  "str_rfind c s = map_option (\<lambda>i. length s - Suc i) (index_of ((=) c) (rev s))"

definition substr :: "nat \<Rightarrow> nat \<Rightarrow> string \<Rightarrow> string" where
  "substr pos n s = take n (drop pos s)"

definition substr_from :: "nat \<Rightarrow> string \<Rightarrow> string" where
  "substr_from pos s = drop pos s"

definition str_insert :: "nat \<Rightarrow> string \<Rightarrow> string \<Rightarrow> string" where
  "str_insert pos t s = take pos s @ t @ drop pos s"

text \<open>What a C function sees of a \<open>std::string\<close> passed with \<open>c_str()\<close>.\<close>

definition c_str :: "string \<Rightarrow> string" where
  "c_str s = takeWhile (\<lambda>c. c \<noteq> CHR 0x00) s"

lemma c_str_id: "CHR 0x00 \<notin> set s \<Longrightarrow> c_str s = s"
  by (auto simp: c_str_def takeWhile_eq_all_conv)

lemma set_c_str: "set (c_str s) \<subseteq> set s"
  by (auto simp: c_str_def dest: set_takeWhileD)

lemma index_of_None_iff: "index_of p s = None \<longleftrightarrow> (\<forall>x\<in>set s. \<not> p x)"
  by (induction s) auto

lemma index_of_absent: "c \<notin> set s \<Longrightarrow> index_of ((=) c) s = None"
  by (auto simp: index_of_None_iff)

lemma index_of_Some_iff:
  "index_of p s = Some i \<longleftrightarrow> i < length s \<and> p (s ! i) \<and> (\<forall>x\<in>set (take i s). \<not> p x)"
proof (induction s arbitrary: i)
  case (Cons x xs)
  then show ?case by (cases i) auto
qed simp

lemma index_of_append:
  "index_of p (s @ t) =
     (case index_of p s of Some i \<Rightarrow> Some i | None \<Rightarrow> map_option ((+) (length s)) (index_of p t))"
proof (induction s)
  case (Cons x xs)
  then show ?case
    by (cases "index_of p xs"; cases "index_of p t") auto
qed (cases "index_of p t"; simp)

lemma index_of_less: "index_of p s = Some i \<Longrightarrow> i < length s"
  by (simp add: index_of_Some_iff)

lemma str_find_append_sep [str_simps]:
  "c \<notin> set s \<Longrightarrow> str_find c 0 (s @ c # t) = Some (length s)"
  by (simp add: str_find_def index_of_append index_of_absent)

lemma str_find_absent [str_simps]: "c \<notin> set s \<Longrightarrow> str_find c 0 s = None"
  by (auto simp: str_find_def index_of_None_iff)

lemma str_rfind_append_sep [str_simps]:
  "c \<notin> set t \<Longrightarrow> str_rfind c (s @ c # t) = Some (length s)"
  by (simp add: str_rfind_def index_of_append index_of_absent)

lemma str_rfind_None_iff [str_simps]: "str_rfind c s = None \<longleftrightarrow> c \<notin> set s"
  by (auto simp: str_rfind_def index_of_None_iff)

lemma str_rfind_SomeD:
  assumes "str_rfind c s = Some i"
  shows "i < length s \<and> s ! i = c \<and> c \<notin> set (drop (Suc i) s)"
proof -
  from assms obtain j where j: "index_of ((=) c) (rev s) = Some j" "i = length s - Suc j"
    by (auto simp: str_rfind_def)
  have "\<forall>x\<in>set (take j (rev s)). c \<noteq> x" and less: "j < length s" and "c = rev s ! j"
    using j(1) by (auto simp: index_of_Some_iff)
  moreover have "Suc i = length s - j" using less j(2) by simp
  ultimately show ?thesis using j(2) by (auto simp: rev_nth take_rev)
qed

lemma str_rfind_split:
  assumes "str_rfind c s = Some i"
  shows "s = take i s @ c # drop (Suc i) s"
  using str_rfind_SomeD [OF assms] by (metis id_take_nth_drop)

lemma find_first_of_None_iff [str_simps]:
  "str_find_first_of cs 0 s = None \<longleftrightarrow> set s \<inter> set cs = {}"
  by (auto simp: str_find_first_of_def index_of_None_iff)

section \<open>Decimal printing\<close>

definition digit_char :: "nat \<Rightarrow> char" where
  "digit_char d = ''0123456789'' ! d"

fun show_nat :: "nat \<Rightarrow> string" where
  "show_nat n = (if n < 10 then [digit_char n] else show_nat (n div 10) @ [digit_char (n mod 10)])"

declare show_nat.simps [simp del]

lemma show_nat_code [code]:
  "show_nat n = (if n < 10 then [digit_char n] else show_nat (n div 10) @ [digit_char (n mod 10)])"
  by (rule show_nat.simps)

definition show_int :: "int \<Rightarrow> string" where
  "show_int i = (if i < 0 then CHR ''-'' # show_nat (nat (- i)) else show_nat (nat i))"

definition show_bool :: "bool \<Rightarrow> string" where
  "show_bool b = (if b then ''true'' else ''false'')"

text \<open>Reading the digits back: used to state that printing loses nothing.\<close>

definition read_nat :: "string \<Rightarrow> nat" where
  "read_nat s = foldl (\<lambda>n c. 10 * n + (of_char c - 48)) 0 s"

lemma less_10_cases:
  "(d::nat) < 10 \<Longrightarrow> d \<in> {0, 1, 2, 3, 4, 5, 6, 7, 8, 9}"
  by auto

lemma digit_char_of: "d < 10 \<Longrightarrow> of_char (digit_char d) = (48 + d :: nat)"
  by (drule less_10_cases) (auto simp: digit_char_def)

lemma read_show_nat: "read_nat (show_nat n) = n"
proof (induction n rule: show_nat.induct)
  case (1 n)
  show ?case
  proof (cases "n < 10")
    case True
    then show ?thesis
      by (subst show_nat.simps) (simp add: read_nat_def digit_char_of)
  next
    case False
    have "read_nat (show_nat n) = 10 * read_nat (show_nat (n div 10)) + n mod 10"
      using False by (subst show_nat.simps) (simp add: read_nat_def digit_char_of)
    with 1 False show ?thesis by simp
  qed
qed

lemma show_nat_inject [simp]: "show_nat m = show_nat n \<longleftrightarrow> m = n"
  by (metis read_show_nat)

lemma digit_char_cases: "d < 10 \<Longrightarrow> digit_char d \<in> set ''0123456789''"
  unfolding digit_char_def by (rule nth_mem) simp

lemma show_nat_digits: "set (show_nat n) \<subseteq> set ''0123456789''"
proof (induction n rule: show_nat.induct)
  case (1 n)
  show ?case
  proof (cases "n < 10")
    case True
    then show ?thesis using digit_char_cases by (subst show_nat.simps) simp
  next
    case False
    have "digit_char (n mod 10) \<in> set ''0123456789''" by (rule digit_char_cases) simp
    with 1 False show ?thesis by (subst show_nat.simps) simp
  qed
qed

lemma show_nat_not_Nil [simp]: "show_nat n \<noteq> []"
  by (subst show_nat.simps) simp

section \<open>Bytes and network byte order\<close>

type_synonym byte = "8 word"

definition char_of_byte :: "byte \<Rightarrow> char" where
  "char_of_byte b = char_of (unat b)"

definition byte_of_char :: "char \<Rightarrow> byte" where
  "byte_of_char c = word_of_nat (of_char c)"

lemma byte_of_char_of_byte [byte_simps]: "byte_of_char (char_of_byte b) = b"
proof -
  have "unat b < 2 ^ LENGTH(8)" by (rule unsigned_less)
  then show ?thesis by (simp add: byte_of_char_def char_of_byte_def)
qed

lemma char_of_byte_of_char [byte_simps]: "char_of_byte (byte_of_char c) = c"
proof -
  have "of_char c < (256 :: nat)" by simp
  then show ?thesis
    by (simp add: byte_of_char_def char_of_byte_def unat_of_nat)
qed

text \<open>\<open>htons\<close>/\<open>ntohs\<close> on the little-endian hosts the library is packaged for: both swap the
  two bytes.\<close>

definition htons :: "16 word \<Rightarrow> 16 word" where
  "htons x = or (push_bit 8 x) (drop_bit 8 x)"

definition ntohs :: "16 word \<Rightarrow> 16 word" where
  "ntohs x = or (push_bit 8 x) (drop_bit 8 x)"

lemma ntohs_htons [byte_simps]: "ntohs (htons x) = x"
  by (rule bit_word_eqI) (auto simp: ntohs_def htons_def bit_simps)

lemma htons_ntohs [byte_simps]: "htons (ntohs x) = x"
  by (rule bit_word_eqI) (auto simp: ntohs_def htons_def bit_simps)

lemma htons_inject [byte_simps]: "htons x = htons y \<longleftrightarrow> x = y"
  by (metis ntohs_htons)

section \<open>std::set and std::map\<close>

abbreviation key_sorted :: "'a::linorder list \<Rightarrow> bool" where
  "key_sorted xs \<equiv> sorted_wrt (<) xs"

fun set_insert :: "'a::linorder \<Rightarrow> 'a list \<Rightarrow> 'a list" where
  "set_insert x [] = [x]"
| "set_insert x (y # ys) =
     (if x < y then x # y # ys else if x = y then y # ys else y # set_insert x ys)"

text \<open>\<open>std::map::insert\<close> keeps an entry that is already there; \<open>operator[]\<close> overwrites it.\<close>

fun map_insert :: "'k::linorder \<Rightarrow> 'v \<Rightarrow> ('k \<times> 'v) list \<Rightarrow> ('k \<times> 'v) list" where
  "map_insert k v [] = [(k, v)]"
| "map_insert k v ((l, w) # m) =
     (if k < l then (k, v) # (l, w) # m else if k = l then (l, w) # m
      else (l, w) # map_insert k v m)"

fun map_put :: "'k::linorder \<Rightarrow> 'v \<Rightarrow> ('k \<times> 'v) list \<Rightarrow> ('k \<times> 'v) list" where
  "map_put k v [] = [(k, v)]"
| "map_put k v ((l, w) # m) =
     (if k < l then (k, v) # (l, w) # m else if k = l then (k, v) # m
      else (l, w) # map_put k v m)"

definition map_erase :: "'k \<Rightarrow> ('k \<times> 'v) list \<Rightarrow> ('k \<times> 'v) list" where
  "map_erase k m = filter (\<lambda>(l, w). l \<noteq> k) m"

lemma set_set_insert [simp]: "set (set_insert x xs) = insert x (set xs)"
  by (induction xs) auto

lemma key_sorted_set_insert [simp]: "key_sorted xs \<Longrightarrow> key_sorted (set_insert x xs)"
  by (induction xs) auto

lemma dom_map_insert [simp]: "fst ` set (map_insert k v m) = insert k (fst ` set m)"
  by (induction k v m rule: map_insert.induct) (simp_all add: insert_commute)

lemma key_sorted_map_insert [simp]:
  "key_sorted (map fst m) \<Longrightarrow> key_sorted (map fst (map_insert k v m))"
proof (induction k v m rule: map_insert.induct)
  case (2 k v l w m)
  have "\<forall>x\<in>set (map fst (map_insert k v m)). l < x" if "l < k"
    using 2(2) that by simp
  with 2 show ?case by auto
qed simp

lemma dom_map_put [simp]: "fst ` set (map_put k v m) = insert k (fst ` set m)"
  by (induction k v m rule: map_put.induct) (simp_all add: insert_commute)

lemma map_of_map_put: "map_of (map_put k v m) = (map_of m)(k \<mapsto> v)"
  by (induction m) (auto simp: fun_eq_iff)

lemma map_of_map_insert:
  "k \<notin> fst ` set m \<Longrightarrow> map_of (map_insert k v m) = (map_of m)(k \<mapsto> v)"
  by (induction k v m rule: map_insert.induct) (auto simp: fun_eq_iff)

lemma map_of_map_erase: "map_of (map_erase k m) = (map_of m)(k := None)"
  by (induction m) (auto simp: map_erase_def fun_eq_iff)

text \<open>Two strictly increasing lists with the same elements are the same list: a \<open>std::set\<close>
  is determined by its elements.\<close>

lemma key_sorted_unique: "key_sorted xs \<Longrightarrow> key_sorted ys \<Longrightarrow> set xs = set ys \<Longrightarrow> xs = ys"
  by (rule strict_sorted_equal)

lemma key_sorted_distinct: "key_sorted (xs :: 'a::linorder list) \<Longrightarrow> distinct xs"
  by (simp add: strict_sorted_iff)

lemma map_determined:
  assumes "key_sorted (map fst xs)" "key_sorted (map fst ys)" "map_of xs = map_of ys"
  shows "xs = ys"
proof -
  have "set (map fst xs) = set (map fst ys)" using assms(3) by (simp add: dom_map_of_conv_image_fst [symmetric])
  then have "map fst xs = map fst ys" using assms(1,2) by (intro key_sorted_unique)
  moreover have "distinct (map fst xs)" using assms(1) by (rule key_sorted_distinct)
  ultimately show ?thesis using assms(3)
  proof (induction xs arbitrary: ys)
    case (Cons x xs)
    then obtain y ys' where ys: "ys = y # ys'" by (cases ys) auto
    obtain k v w where x: "x = (k, v)" and y: "y = (k, w)" and e: "map fst xs = map fst ys'"
      using Cons.prems(1) by (cases x; cases y) (simp add: ys)
    have k: "map_of xs k = None" "map_of ys' k = None"
      using Cons.prems(2) arg_cong [OF e, of set] by (simp_all add: x map_of_eq_None_iff)
    have "map_of xs l = map_of ys' l" for l
      using fun_cong [OF Cons.prems(3), of l] k by (cases "l = k") (simp_all add: x y ys)
    then have "xs = ys'" using Cons.IH [OF e] Cons.prems(2) by (simp add: ext)
    moreover have "v = w" using fun_cong [OF Cons.prems(3), of k] by (simp add: x y ys)
    ultimately show ?case by (simp add: x y ys)
  qed simp
qed

lemma sorted_map_determined:
  assumes "key_sorted (map fst xs)" "key_sorted (map fst ys)" "set xs = set ys"
  shows "xs = ys"
proof (rule map_determined [OF assms(1,2)])
  have "distinct (map fst xs)" "distinct (map fst ys)" using assms(1,2) by (simp_all only: key_sorted_distinct)
  then have "map_of xs k = Some v \<longleftrightarrow> map_of ys k = Some v" for k v using assms(3) by (simp add: map_of_eq_Some_iff)
  then show "map_of xs = map_of ys" by (metis ext not_None_eq)
qed

lemma set_map_insert: "k \<notin> fst ` set m \<Longrightarrow> set (map_insert k v m) = insert (k, v) (set m)"
  by (induction k v m rule: map_insert.induct) auto

end
