(* ===== verification/Namespaces.thy ===== *)
theory Namespaces
  imports Prelude
begin

text \<open>
  Namespace identifiers: \<open>src/namespacevalidator.cpp\<close>, and the text of the exception classes
  (\<open>src/*namespace.cpp\<close>, \<open>src/hostandport.cpp\<close>, \<open>src/databaseconfiguration.cpp\<close>,
  \<open>src/cli/commandmap.cpp\<close>). The main fact is which strings are accepted: a namespace is
  wrapped in braces and separated from the key by a comma when a key is sent to the backend,
  so those three characters are refused.
\<close>

type_synonym namespace = string

definition SEPARATOR :: char where
  "SEPARATOR = CHR '',''"

definition getDisallowedCharactersInNamespace :: string where
  "getDisallowedCharactersInNamespace = [SEPARATOR, CHR ''{'', CHR ''}'']"

definition isValidNamespaceSyntax :: "namespace \<Rightarrow> bool" where
  "isValidNamespaceSyntax ns \<longleftrightarrow> str_find_first_of getDisallowedCharactersInNamespace 0 ns = None"

definition validateNamespace :: "namespace \<Rightarrow> unit result" where
  "validateNamespace ns =
     (if ns = [] then Inl (Throw EmptyNamespace)
      else if \<not> isValidNamespaceSyntax ns then Inl (Throw (InvalidNamespace ns))
      else Inr ())"

definition isValidNamespace :: "namespace \<Rightarrow> bool" where
  "isValidNamespace ns \<longleftrightarrow> ns \<noteq> [] \<and> isValidNamespaceSyntax ns"

lemma isValidNamespaceSyntax_iff:
  "isValidNamespaceSyntax ns \<longleftrightarrow> CHR '','' \<notin> set ns \<and> CHR ''{'' \<notin> set ns \<and> CHR ''}'' \<notin> set ns"
  by (auto simp: isValidNamespaceSyntax_def getDisallowedCharactersInNamespace_def SEPARATOR_def
      str_simps)

lemma isValidNamespace_iff:
  "isValidNamespace ns \<longleftrightarrow>
     ns \<noteq> [] \<and> CHR '','' \<notin> set ns \<and> CHR ''{'' \<notin> set ns \<and> CHR ''}'' \<notin> set ns"
  by (simp add: isValidNamespace_def isValidNamespaceSyntax_iff)

text \<open>The throwing validator and the boolean one agree.\<close>

lemma validateNamespace_iff: "validateNamespace ns = Inr () \<longleftrightarrow> isValidNamespace ns"
  by (simp add: validateNamespace_def isValidNamespace_def)

section \<open>Exception texts\<close>

abbreviation dquote :: string where "dquote \<equiv> [CHR 0x22]"

abbreviation squote :: string where "squote \<equiv> [CHR 0x27]"

definition buildErrorMessage :: "namespace \<Rightarrow> string" where
  "buildErrorMessage ns =
     ''namespace string: '' @ dquote @ ns @ dquote @ '' is invalid. Disallowed characters: '' @
     getDisallowedCharactersInNamespace"

definition buildInvalidPortError :: "string \<Rightarrow> string" where
  "buildInvalidPortError port = ''invalid port: '' @ port"

definition buildInvalidDbTypeError :: "string \<Rightarrow> string" where
  "buildInvalidDbTypeError type =
     ''invalid database type: '' @ squote @ type @ squote @ ''. '' @
     ''Allowed types are: '' @ squote @ ''redis-standalone'' @ squote @ '', '' @
     squote @ ''redis-cluster'' @ squote @ '', '' @ squote @ ''redis-sentinel'' @ squote @
     '' or '' @ squote @ ''sdl-cluster'' @ squote"

definition buildCommandNameAlreadyRegisteredError :: "string \<Rightarrow> string" where
  "buildCommandNameAlreadyRegisteredError commandName =
     ''command name '' @ dquote @ commandName @ dquote @ '' already registered''"

definition buildUnknownCommandNameError :: "string \<Rightarrow> string" where
  "buildUnknownCommandNameError commandName =
     ''unknown command: '' @ dquote @ commandName @ dquote"

definition buildCategoryOffsetAlreadyRegisteredError :: "string \<Rightarrow> int \<Rightarrow> string" where
  "buildCategoryOffsetAlreadyRegisteredError commandName offset =
     commandName @ '': Offset '' @ show_int offset @ '' already registered''"

text \<open>\<open>std::exception::what\<close> of the library's exception classes. For the exceptions of the
  standard library only the message given by the library is kept.\<close>

fun what :: "exn \<Rightarrow> string" where
  "what (SdlException m) = m"
| "what EmptyNamespace = ''empty namespace string given''"
| "what (InvalidNamespace ns) = buildErrorMessage ns"
| "what (BackendError m) = m"
| "what (NotConnected m) = m"
| "what (OperationInterrupted m) = m"
| "what (RejectedByBackend m) = m"
| "what (RejectedBySdl m) = m"
| "what (InvalidPort port) = buildInvalidPortError port"
| "what EmptyPort = ''empty port''"
| "what EmptyHost = ''empty host''"
| "what (InvalidDbType type) = buildInvalidDbTypeError type"
| "what (CommandNameAlreadyRegistered n) = buildCommandNameAlreadyRegisteredError n"
| "what (UnknownCommandName n) = buildUnknownCommandNameError n"
| "what (CategoryOffsetAlreadyRegistered n off) = buildCategoryOffsetAlreadyRegisteredError n off"
| "what (StdRangeError m) = m"
| "what StdOutOfRange = ''out_of_range''"
| "what (StdInvalidArgument m) = m"
| "what StdBadFunctionCall = ''bad_function_call''"
| "what (StdSystemError m _) = m"

text \<open>The classes derived from \<open>shareddatalayer::Exception\<close>.\<close>

fun is_sdl_exception :: "exn \<Rightarrow> bool" where
  "is_sdl_exception (StdRangeError _) = False"
| "is_sdl_exception StdOutOfRange = False"
| "is_sdl_exception (StdInvalidArgument _) = False"
| "is_sdl_exception StdBadFunctionCall = False"
| "is_sdl_exception (StdSystemError _ _) = False"
| "is_sdl_exception _ = True"

end
