(* ===== verification/Contents_Builder.thy ===== *)
theory Contents_Builder
  imports Namespaces
begin

text \<open>
  \<open>ContentsBuilder\<close> (\<open>src/redis/contentsbuilder.cpp\<close>) and \<open>Contents\<close>
  (\<open>include/private/redis/contents.hpp\<close>): how a command is turned into the argument vector and
  the size vector that hiredis sends. The key of \<open>ns\<close> and \<open>key\<close> in the database is
  \<open>{ns}\<close>, the separator, and \<open>key\<close>.

  Keys are a \<open>std::set\<close> and a data map is a \<open>std::map\<close>: lists in iteration order. Data are
  vectors of bytes.

  The locales \<open>key_space\<close> and \<open>key_codec\<close> say what the storage needs from the encoding of keys:
  different namespaces never meet in one database key, and the key is recovered from it.
\<close>

type_synonym key = string
type_synonym data = "byte list"
type_synonym keys = "key list"
type_synonym dataMap = "(key \<times> data) list"

record contents =
  stack :: "string list"
  sizes :: "nat list"

definition contents_eq :: "contents \<Rightarrow> contents \<Rightarrow> bool" where
  "contents_eq a b = (stack a = stack b \<and> sizes a = sizes b)"

definition contents_neq :: "contents \<Rightarrow> contents \<Rightarrow> bool" where
  "contents_neq a b = (\<not> contents_eq a b)"

definition empty_contents :: contents where
  "empty_contents = \<lparr>stack = [], sizes = []\<rparr>"

text \<open>The builder's only state is its separator, the first argument of the operations that use
  it.\<close>

definition addString :: "string \<Rightarrow> contents \<Rightarrow> contents" where
  "addString string c = c\<lparr>stack := stack c @ [string], sizes := sizes c @ [length string]\<rparr>"

definition key_content :: "char \<Rightarrow> namespace \<Rightarrow> key \<Rightarrow> string" where
  "key_content sep ns key = ''{'' @ ns @ ''}'' @ [sep] @ key"

definition addKey :: "char \<Rightarrow> namespace \<Rightarrow> key \<Rightarrow> contents \<Rightarrow> contents" where
  "addKey sep ns key c =
     (let content = key_content sep ns key
      in c\<lparr>stack := stack c @ [content], sizes := sizes c @ [length content]\<rparr>)"

definition addData :: "data \<Rightarrow> contents \<Rightarrow> contents" where
  "addData data c =
     c\<lparr>stack := stack c @ [map char_of_byte data], sizes := sizes c @ [length data]\<rparr>"

definition addDataMap :: "char \<Rightarrow> namespace \<Rightarrow> dataMap \<Rightarrow> contents \<Rightarrow> contents" where
  "addDataMap sep ns dataMap c =
     fold (\<lambda>(key, data) c. addData data (addKey sep ns key c)) dataMap c"

definition addKeys :: "char \<Rightarrow> namespace \<Rightarrow> keys \<Rightarrow> contents \<Rightarrow> contents" where
  "addKeys sep ns keys c = fold (addKey sep ns) keys c"

text \<open>The overloads of \<open>build\<close>.\<close>

definition build1 :: "string \<Rightarrow> contents" where
  "build1 s = addString s empty_contents"

definition build2 :: "string \<Rightarrow> string \<Rightarrow> contents" where
  "build2 s s2 = addString s2 (addString s empty_contents)"

definition build3 :: "string \<Rightarrow> string \<Rightarrow> string \<Rightarrow> contents" where
  "build3 s s2 s3 = addString s3 (addString s2 (addString s empty_contents))"

definition build_map :: "char \<Rightarrow> string \<Rightarrow> namespace \<Rightarrow> dataMap \<Rightarrow> contents" where
  "build_map sep s ns dataMap = addDataMap sep ns dataMap (addString s empty_contents)"

definition build_map_pub ::
  "char \<Rightarrow> string \<Rightarrow> namespace \<Rightarrow> dataMap \<Rightarrow> string \<Rightarrow> string \<Rightarrow> contents" where
  "build_map_pub sep s ns dataMap s2 s3 =
     addString s3 (addString s2 (addDataMap sep ns dataMap (addString s empty_contents)))"

definition build_key_data :: "char \<Rightarrow> string \<Rightarrow> namespace \<Rightarrow> key \<Rightarrow> data \<Rightarrow> contents" where
  "build_key_data sep s ns key data = addData data (addKey sep ns key (addString s empty_contents))"

definition build_key_data_pub ::
  "char \<Rightarrow> string \<Rightarrow> namespace \<Rightarrow> key \<Rightarrow> data \<Rightarrow> string \<Rightarrow> string \<Rightarrow> contents" where
  "build_key_data_pub sep s ns key data s2 s3 =
     addString s3 (addString s2 (addData data (addKey sep ns key (addString s empty_contents))))"

definition build_key_data2 ::
  "char \<Rightarrow> string \<Rightarrow> namespace \<Rightarrow> key \<Rightarrow> data \<Rightarrow> data \<Rightarrow> contents" where
  "build_key_data2 sep s ns key data data2 =
     addData data2 (addData data (addKey sep ns key (addString s empty_contents)))"

definition build_key_data2_pub ::
  "char \<Rightarrow> string \<Rightarrow> namespace \<Rightarrow> key \<Rightarrow> data \<Rightarrow> data \<Rightarrow> string \<Rightarrow> string \<Rightarrow> contents" where
  "build_key_data2_pub sep s ns key data data2 s2 s3 =
     addString s3 (addString s2
       (addData data2 (addData data (addKey sep ns key (addString s empty_contents)))))"

definition build_keys :: "char \<Rightarrow> string \<Rightarrow> namespace \<Rightarrow> keys \<Rightarrow> contents" where
  "build_keys sep s ns keys = addKeys sep ns keys (addString s empty_contents)"

definition build_keys_pub ::
  "char \<Rightarrow> string \<Rightarrow> namespace \<Rightarrow> keys \<Rightarrow> string \<Rightarrow> string \<Rightarrow> contents" where
  "build_keys_pub sep s ns keys s2 s3 =
     addString s3 (addString s2 (addKeys sep ns keys (addString s empty_contents)))"

section \<open>The argument vectors\<close>

named_theorems build_defs \<open>the overloads of build\<close>

declare build1_def [build_defs] build2_def [build_defs] build3_def [build_defs]
  build_map_def [build_defs] build_map_pub_def [build_defs] build_key_data_def [build_defs]
  build_key_data_pub_def [build_defs] build_key_data2_def [build_defs]
  build_key_data2_pub_def [build_defs] build_keys_def [build_defs] build_keys_pub_def [build_defs]

abbreviation data_string :: "data \<Rightarrow> string" where
  "data_string d \<equiv> map char_of_byte d"

lemma stack_add [simp]:
  "stack (addString s c) = stack c @ [s]"
  "stack (addKey sep ns key c) = stack c @ [key_content sep ns key]"
  "stack (addData d c) = stack c @ [data_string d]"
  by (simp_all add: addString_def addKey_def addData_def Let_def)

lemma stack_addKeys [simp]: "stack (addKeys sep ns ks c) = stack c @ map (key_content sep ns) ks"
  unfolding addKeys_def by (induction ks arbitrary: c) simp_all

lemma stack_addDataMap [simp]:
  "stack (addDataMap sep ns m c) =
     stack c @ concat (map (\<lambda>(k, d). [key_content sep ns k, data_string d]) m)"
  unfolding addDataMap_def by (induction m arbitrary: c) auto

lemma stack_empty [simp]: "stack empty_contents = []" "sizes empty_contents = []"
  by (simp_all add: empty_contents_def)

text \<open>What hiredis relies on: one size for each argument, and the size is the argument's.\<close>

definition sized :: "contents \<Rightarrow> bool" where
  "sized c = (sizes c = map length (stack c))"

lemma sized_empty [simp]: "sized empty_contents"
  by (simp add: sized_def)

lemma sized_add [simp]:
  "sized (addString s c) = sized c"
  "sized (addKey sep ns key c) = sized c"
  "sized (addData d c) = sized c"
  by (simp_all add: sized_def addString_def addKey_def addData_def Let_def)

lemma sized_addKeys [simp]: "sized (addKeys sep ns ks c) = sized c"
  unfolding addKeys_def by (induction ks arbitrary: c) simp_all

lemma sized_addDataMap [simp]: "sized (addDataMap sep ns m c) = sized c"
  unfolding addDataMap_def by (induction m arbitrary: c) (simp_all add: split_beta)

text \<open>C23: every argument vector the builder makes has exactly one size per argument, equal to
  the length of that argument, whichever overload of \<open>build\<close> made it.\<close>

theorem built_contents_sized:
  "sized (build1 s) \<and> sized (build2 s s2) \<and> sized (build3 s s2 s3) \<and>
   sized (build_map sep s ns m) \<and> sized (build_map_pub sep s ns m s2 s3) \<and>
   sized (build_key_data sep s ns k d) \<and> sized (build_key_data_pub sep s ns k d s2 s3) \<and>
   sized (build_key_data2 sep s ns k d d2) \<and> sized (build_key_data2_pub sep s ns k d d2 s2 s3) \<and>
   sized (build_keys sep s ns ks) \<and> sized (build_keys_pub sep s ns ks s2 s3)"
  by (simp add: build_defs)

text \<open>The arguments of each overload, in order.\<close>

lemma stack_build:
  "stack (build1 s) = [s]"
  "stack (build2 s s2) = [s, s2]"
  "stack (build3 s s2 s3) = [s, s2, s3]"
  "stack (build_map sep s ns m) = s # concat (map (\<lambda>(k, d). [key_content sep ns k, data_string d]) m)"
  "stack (build_map_pub sep s ns m s2 s3) =
     s # concat (map (\<lambda>(k, d). [key_content sep ns k, data_string d]) m) @ [s2, s3]"
  "stack (build_key_data sep s ns k d) = [s, key_content sep ns k, data_string d]"
  "stack (build_key_data_pub sep s ns k d s2 s3) = [s, key_content sep ns k, data_string d, s2, s3]"
  "stack (build_key_data2 sep s ns k d d2) = [s, key_content sep ns k, data_string d, data_string d2]"
  "stack (build_key_data2_pub sep s ns k d d2 s2 s3) =
     [s, key_content sep ns k, data_string d, data_string d2, s2, s3]"
  "stack (build_keys sep s ns ks) = s # map (key_content sep ns) ks"
  "stack (build_keys_pub sep s ns ks s2 s3) = s # map (key_content sep ns) ks @ [s2, s3]"
  by (simp_all add: build_defs)

lemma contents_eq_iff: "sized a \<Longrightarrow> sized b \<Longrightarrow> contents_eq a b \<longleftrightarrow> stack a = stack b"
  by (auto simp: contents_eq_def sized_def)

lemma data_string_inject [simp]: "data_string d = data_string e \<longleftrightarrow> d = e"
proof
  assume "data_string d = data_string e"
  then have "map byte_of_char (data_string d) = map byte_of_char (data_string e)" by simp
  then show "d = e" by (simp add: o_def byte_simps)
qed simp

section \<open>Name spaces in the database\<close>

text \<open>A database maps keys to data. What a namespace holds is seen through the encoding of its
  keys; a write puts encoded keys, a removal drops them.\<close>

type_synonym store = "string \<Rightarrow> string option"

definition view :: "(namespace \<Rightarrow> key \<Rightarrow> string) \<Rightarrow> store \<Rightarrow> namespace \<Rightarrow> key \<Rightarrow> string option" where
  "view enc db ns k = db (enc ns k)"

definition put_all :: "(namespace \<Rightarrow> key \<Rightarrow> string) \<Rightarrow> namespace \<Rightarrow> dataMap \<Rightarrow> store \<Rightarrow> store" where
  "put_all enc ns m db = fold (\<lambda>(k, d) db. db(enc ns k \<mapsto> data_string d)) m db"

definition del_all :: "(namespace \<Rightarrow> key \<Rightarrow> string) \<Rightarrow> namespace \<Rightarrow> keys \<Rightarrow> store \<Rightarrow> store" where
  "del_all enc ns ks db = fold (\<lambda>k db. db(enc ns k := None)) ks db"

locale key_space =
  fixes valid :: "namespace \<Rightarrow> bool" and enc :: "namespace \<Rightarrow> key \<Rightarrow> string"
  assumes enc_inject:
    "valid ns \<Longrightarrow> valid ns' \<Longrightarrow> enc ns k = enc ns' k' \<longleftrightarrow> ns = ns' \<and> k = k'"
begin

lemma view_put_all:
  assumes "valid ns" "distinct (map fst m)"
  shows "view enc (put_all enc ns m db) ns k =
    (case map_of m k of Some d \<Rightarrow> Some (data_string d) | None \<Rightarrow> view enc db ns k)"
  using assms(2)
proof (induction m arbitrary: db)
  case (Cons kd m)
  obtain l d where kd: "kd = (l, d)" by (cases kd)
  have step: "put_all enc ns (kd # m) db = put_all enc ns m (db(enc ns l \<mapsto> data_string d))"
    by (simp add: put_all_def kd)
  show ?case
  proof (cases "k = l")
    case True
    then have "map_of m k = None" using Cons.prems kd by (simp add: map_of_eq_None_iff)
    with True show ?thesis using Cons by (simp only: step) (simp add: kd view_def)
  next
    case False
    then have "view enc (db(enc ns l \<mapsto> data_string d)) ns k = view enc db ns k"
      using assms(1) by (simp add: view_def enc_inject)
    with False show ?thesis using Cons by (cases "map_of m k") (simp_all only: step, simp_all add: kd)
  qed
qed (simp add: put_all_def)

lemma view_put_other:
  assumes "valid ns" "valid ns'" "ns \<noteq> ns'"
  shows "view enc (put_all enc ns m db) ns' k = view enc db ns' k"
proof (induction m arbitrary: db)
  case (Cons kd m)
  then show ?case using assms by (cases kd) (simp add: put_all_def view_def enc_inject)
qed (simp add: put_all_def)

lemma view_del_all:
  assumes "valid ns"
  shows "view enc (del_all enc ns ks db) ns k = (if k \<in> set ks then None else view enc db ns k)"
proof (induction ks arbitrary: db)
  case (Cons l ks)
  then show ?case using assms by (auto simp: del_all_def view_def enc_inject)
qed (simp add: del_all_def)

lemma view_del_other:
  assumes "valid ns" "valid ns'" "ns \<noteq> ns'"
  shows "view enc (del_all enc ns ks db) ns' k = view enc db ns' k"
proof (induction ks arbitrary: db)
  case (Cons l ks)
  then show ?case using assms by (simp add: del_all_def view_def enc_inject)
qed (simp add: del_all_def)

end

locale key_codec = key_space +
  fixes dec :: "string \<Rightarrow> key"
  assumes dec_enc: "valid ns \<Longrightarrow> dec (enc ns k) = k"
begin

lemma dec_enc_list: "valid ns \<Longrightarrow> map (\<lambda>k. dec (enc ns k)) ks = ks"
  by (simp add: dec_enc)

end

text \<open>In a valid namespace there is no separator, so the first one of a database key ends the
  namespace part, and the braces around it cannot be confused.\<close>

lemma valid_namespace_chars: "isValidNamespace ns \<Longrightarrow> set ns \<inter> {CHR '','', CHR ''{'', CHR ''}''} = {}"
  by (auto simp: isValidNamespace_def isValidNamespaceSyntax_def find_first_of_None_iff
      getDisallowedCharactersInNamespace_def SEPARATOR_def)

lemma append_sep_inject:
  "x \<notin> set s \<Longrightarrow> x \<notin> set t \<Longrightarrow> s @ x # u = t @ x # v \<longleftrightarrow> s = t \<and> u = v"
proof (induction s arbitrary: t)
  case Nil
  then show ?case by (cases t) auto
next
  case (Cons y s)
  then show ?case by (cases t) auto
qed

lemma key_content_inject:
  assumes "isValidNamespace ns" "isValidNamespace ns'"
  shows "key_content SEPARATOR ns k = key_content SEPARATOR ns' k' \<longleftrightarrow> ns = ns' \<and> k = k'"
  using valid_namespace_chars [OF assms(1)] valid_namespace_chars [OF assms(2)]
  by (simp add: key_content_def append_sep_inject)

interpretation sdl_keys: key_space isValidNamespace "key_content SEPARATOR"
  by unfold_locales (rule key_content_inject)

end
