(* ===== verification/Sdl_Errors.thy ===== *)
theory Sdl_Errors
  imports Namespaces
begin

text \<open>
  The error model (\<open>src/error.cpp\<close>, \<open>src/errorqueries.cpp\<close>, the error category of
  \<open>src/redis/asyncredisstorage.cpp\<close>, and \<open>throwExceptionForErrorCode\<close> of
  \<open>src/syncstorageimpl.cpp\<close>).

  A \<open>std::error_code\<close> is a value with a category. The two categories of implementation
  specific codes map to \<open>InternalError\<close> through \<open>default_error_condition\<close>; clients compare
  codes with \<open>shareddatalayer::Error\<close>, whose category overrides \<open>equivalent\<close>. The comparison
  \<open>error_code == error_condition\<close> is that of the standard library: either category may declare
  the two equivalent. Log output is left out.
\<close>

section \<open>Categories, codes and conditions\<close>

datatype error_category =
    SystemCategory
  | GenericCategory
  | InternalErrorCategory
  | SharedDataLayerErrorCategory
  | AsyncRedisCommandDispatcherErrorCategory
  | AsyncRedisStorageErrorCategory
  | ForeignCategory string

record error_code =
  ec_value :: int
  ec_category :: error_category

record error_condition =
  cond_value :: int
  cond_category :: error_category

datatype internalError =
    IE_SUCCESS
  | IE_SDL_NOT_READY
  | IE_SDL_NOT_CONNECTED_TO_BACKEND
  | IE_SDL_ERROR_CODE_LOGIC_ERROR
  | IE_SDL_RECEIVED_INVALID_PARAMETER
  | IE_BACKEND_CONNECTION_LOST
  | IE_BACKEND_NOT_READY
  | IE_BACKEND_REJECTED_REQUEST
  | IE_BACKEND_ERROR

datatype dispatcherErrorCode =
    DEC_SUCCESS
  | DEC_UNKNOWN_ERROR
  | DEC_CONNECTION_LOST
  | DEC_PROTOCOL_ERROR
  | DEC_OUT_OF_MEMORY
  | DEC_DATASET_LOADING
  | DEC_NOT_CONNECTED
  | DEC_IO_ERROR
  | DEC_WRITING_TO_SLAVE
  | DEC_END_MARKER

datatype storageErrorCode =
    SEC_SUCCESS
  | SEC_REDIS_NOT_YET_DISCOVERED
  | SEC_INVALID_NAMESPACE
  | SEC_END_MARKER

datatype sdlError =
    Error_SUCCESS
  | Error_NOT_CONNECTED
  | Error_OPERATION_INTERRUPTED
  | Error_BACKEND_FAILURE
  | Error_REJECTED_BY_BACKEND
  | Error_REJECTED_BY_SDL

text \<open>The enumerators in declaration order; the underlying value is the position.\<close>

definition internalErrors :: "internalError list" where
  "internalErrors = [IE_SUCCESS, IE_SDL_NOT_READY, IE_SDL_NOT_CONNECTED_TO_BACKEND,
     IE_SDL_ERROR_CODE_LOGIC_ERROR, IE_SDL_RECEIVED_INVALID_PARAMETER, IE_BACKEND_CONNECTION_LOST,
     IE_BACKEND_NOT_READY, IE_BACKEND_REJECTED_REQUEST, IE_BACKEND_ERROR]"

definition dispatcherErrorCodes :: "dispatcherErrorCode list" where
  "dispatcherErrorCodes = [DEC_SUCCESS, DEC_UNKNOWN_ERROR, DEC_CONNECTION_LOST, DEC_PROTOCOL_ERROR,
     DEC_OUT_OF_MEMORY, DEC_DATASET_LOADING, DEC_NOT_CONNECTED, DEC_IO_ERROR, DEC_WRITING_TO_SLAVE,
     DEC_END_MARKER]"

definition storageErrorCodes :: "storageErrorCode list" where
  "storageErrorCodes = [SEC_SUCCESS, SEC_REDIS_NOT_YET_DISCOVERED, SEC_INVALID_NAMESPACE, SEC_END_MARKER]"

definition sdlErrors :: "sdlError list" where
  "sdlErrors = [Error_SUCCESS, Error_NOT_CONNECTED, Error_OPERATION_INTERRUPTED,
     Error_BACKEND_FAILURE, Error_REJECTED_BY_BACKEND, Error_REJECTED_BY_SDL]"

fun position :: "'a list \<Rightarrow> 'a \<Rightarrow> nat" where
  "position [] x = 0"
| "position (y # ys) x = (if x = y then 0 else Suc (position ys x))"

text \<open>\<open>static_cast\<close> of an enumerator to \<open>int\<close>, and of an \<open>int\<close> to the enumerator a \<open>switch\<close>
  selects; \<open>None\<close> is the \<open>default\<close> label.\<close>

definition enum_value :: "'a list \<Rightarrow> 'a \<Rightarrow> int" where
  "enum_value xs x = int (position xs x)"

definition enum_case :: "'a list \<Rightarrow> int \<Rightarrow> 'a option" where
  "enum_case xs v = (if 0 \<le> v \<and> nat v < length xs then Some (xs ! nat v) else None)"

lemma position_less: "x \<in> set xs \<Longrightarrow> position xs x < length xs"
  by (induction xs) auto

lemma nth_position: "x \<in> set xs \<Longrightarrow> xs ! position xs x = x"
  by (induction xs) auto

lemma position_nth: "distinct xs \<Longrightarrow> i < length xs \<Longrightarrow> position xs (xs ! i) = i"
proof (induction xs arbitrary: i)
  case (Cons x xs)
  then show ?case by (cases i) (auto simp: nth_mem)
qed simp

lemma enum_case_value [simp]: "x \<in> set xs \<Longrightarrow> enum_case xs (enum_value xs x) = Some x"
  by (simp add: enum_case_def enum_value_def position_less nth_position)

lemma enum_value_case: "distinct xs \<Longrightarrow> enum_case xs v = Some x \<Longrightarrow> enum_value xs x = v"
  by (auto simp: enum_case_def enum_value_def position_nth split: if_splits)

lemma enum_value_inject:
  "x \<in> set xs \<Longrightarrow> y \<in> set xs \<Longrightarrow> enum_value xs x = enum_value xs y \<longleftrightarrow> x = y"
  by (metis enum_case_value option.inject)

lemma set_internalErrors [simp]: "ie \<in> set internalErrors"
  by (cases ie) (simp_all add: internalErrors_def)

lemma set_sdlErrors [simp]: "e \<in> set sdlErrors"
  by (cases e) (simp_all add: sdlErrors_def)

lemma set_dispatcherErrorCodes [simp]: "c \<in> set dispatcherErrorCodes"
  by (cases c) (simp_all add: dispatcherErrorCodes_def)

lemma set_storageErrorCodes [simp]: "c \<in> set storageErrorCodes"
  by (cases c) (simp_all add: storageErrorCodes_def)

section \<open>Construction and increment\<close>

definition no_error :: error_code where
  "no_error = \<lparr>ec_value = 0, ec_category = SystemCategory\<rparr>"

text \<open>\<open>error_code::operator bool\<close>.\<close>

definition ec_bool :: "error_code \<Rightarrow> bool" where
  "ec_bool ec = (ec_value ec \<noteq> 0)"

definition make_error_code_dispatcher :: "dispatcherErrorCode \<Rightarrow> error_code" where
  "make_error_code_dispatcher c =
     \<lparr>ec_value = enum_value dispatcherErrorCodes c, ec_category = AsyncRedisCommandDispatcherErrorCategory\<rparr>"

definition make_error_code_storage :: "storageErrorCode \<Rightarrow> error_code" where
  "make_error_code_storage c =
     \<lparr>ec_value = enum_value storageErrorCodes c, ec_category = AsyncRedisStorageErrorCategory\<rparr>"

definition make_error_condition_internal :: "internalError \<Rightarrow> error_condition" where
  "make_error_condition_internal e =
     \<lparr>cond_value = enum_value internalErrors e, cond_category = InternalErrorCategory\<rparr>"

definition make_error_condition :: "sdlError \<Rightarrow> error_condition" where
  "make_error_condition e =
     \<lparr>cond_value = enum_value sdlErrors e, cond_category = SharedDataLayerErrorCategory\<rparr>"

definition dispatcher_code_incr :: "dispatcherErrorCode \<Rightarrow> dispatcherErrorCode result" where
  "dispatcher_code_incr c =
     (if c = DEC_END_MARKER then Inl (Throw StdOutOfRange)
      else Inr (dispatcherErrorCodes ! Suc (position dispatcherErrorCodes c)))"

definition storage_code_incr :: "storageErrorCode \<Rightarrow> storageErrorCode result" where
  "storage_code_incr c =
     (if c = SEC_END_MARKER then Inl (Throw StdOutOfRange)
      else Inr (storageErrorCodes ! Suc (position storageErrorCodes c)))"

section \<open>Names and messages\<close>

text \<open>The names and the text of code 0 of the categories that are not the library's are the
  argument \<open>std_message\<close>; \<open>std::error_code().message()\<close> is \<open>std_message SystemCategory 0\<close>.\<close>

fun category_name :: "error_category \<Rightarrow> string" where
  "category_name SystemCategory = ''system''"
| "category_name GenericCategory = ''generic''"
| "category_name InternalErrorCategory = ''SDL-internal-errorcodes''"
| "category_name SharedDataLayerErrorCategory = ''shareddatalayer-errorcodes''"
| "category_name AsyncRedisCommandDispatcherErrorCategory = ''asyncrediscommanddispatcher''"
| "category_name AsyncRedisStorageErrorCategory = ''asyncredisstorage''"
| "category_name (ForeignCategory n) = n"

type_synonym std_messages = "error_category \<Rightarrow> int \<Rightarrow> string"

definition dispatcher_message :: "std_messages \<Rightarrow> int \<Rightarrow> string" where
  "dispatcher_message std_message condition =
     (case enum_case dispatcherErrorCodes condition of
        Some DEC_SUCCESS \<Rightarrow> std_message SystemCategory 0
      | Some DEC_CONNECTION_LOST \<Rightarrow> ''redis connection lost''
      | Some DEC_PROTOCOL_ERROR \<Rightarrow> ''redis protocol error''
      | Some DEC_OUT_OF_MEMORY \<Rightarrow> ''redis out of memory''
      | Some DEC_DATASET_LOADING \<Rightarrow> ''redis dataset still being loaded into memory''
      | Some DEC_NOT_CONNECTED \<Rightarrow> ''not connected to redis, SDL operation not started''
      | Some DEC_UNKNOWN_ERROR \<Rightarrow> ''redis error''
      | Some DEC_IO_ERROR \<Rightarrow> ''redis I/O error''
      | Some DEC_WRITING_TO_SLAVE \<Rightarrow> ''writing to slave''
      | Some DEC_END_MARKER \<Rightarrow> ''unsupported error code for message()''
      | None \<Rightarrow> ''description missing for AsyncRedisCommandDispatcherErrorCategory error: '' @ show_int condition)"

definition storage_message :: "std_messages \<Rightarrow> int \<Rightarrow> string" where
  "storage_message std_message condition =
     (case enum_case storageErrorCodes condition of
        Some SEC_SUCCESS \<Rightarrow> std_message SystemCategory 0
      | Some SEC_REDIS_NOT_YET_DISCOVERED \<Rightarrow> ''connection to the underlying data storage not yet available''
      | Some SEC_INVALID_NAMESPACE \<Rightarrow> ''invalid namespace identifier passed to SDL API''
      | Some SEC_END_MARKER \<Rightarrow> ''unsupported error code for message()''
      | None \<Rightarrow> ''description missing for AsyncRedisStorageErrorCategory error: '' @ show_int condition)"

definition sdl_message :: "std_messages \<Rightarrow> int \<Rightarrow> string" where
  "sdl_message std_message condition =
     (case enum_case sdlErrors condition of
        Some Error_SUCCESS \<Rightarrow> std_message SystemCategory 0
      | Some Error_NOT_CONNECTED \<Rightarrow> ''shareddatalayer not connected to backend data storage''
      | Some Error_OPERATION_INTERRUPTED \<Rightarrow>
          ''shareddatalayer sent the request to backend data storage but did not receive reply''
      | Some Error_BACKEND_FAILURE \<Rightarrow> ''backend data storage failed to process the request''
      | Some Error_REJECTED_BY_BACKEND \<Rightarrow> ''backend data storage rejected the request''
      | Some Error_REJECTED_BY_SDL \<Rightarrow> ''SDL rejected the request''
      | None \<Rightarrow> ''description missing for SharedDataLayerErrorCategory error: '' @ show_int condition)"

definition internal_message :: "int \<Rightarrow> string" where
  "internal_message condition = ''Only for SDL internal usage.''"

definition ec_message :: "std_messages \<Rightarrow> error_code \<Rightarrow> string" where
  "ec_message std_message ec =
     (case ec_category ec of
        AsyncRedisCommandDispatcherErrorCategory \<Rightarrow> dispatcher_message std_message (ec_value ec)
      | AsyncRedisStorageErrorCategory \<Rightarrow> storage_message std_message (ec_value ec)
      | SharedDataLayerErrorCategory \<Rightarrow> sdl_message std_message (ec_value ec)
      | InternalErrorCategory \<Rightarrow> internal_message (ec_value ec)
      | cat \<Rightarrow> std_message cat (ec_value ec))"

section \<open>Comparing codes with conditions\<close>

definition dispatcher_default_error_condition :: "int \<Rightarrow> error_condition" where
  "dispatcher_default_error_condition condition = make_error_condition_internal
     (case enum_case dispatcherErrorCodes condition of
        Some DEC_SUCCESS \<Rightarrow> IE_SUCCESS
      | Some DEC_CONNECTION_LOST \<Rightarrow> IE_BACKEND_CONNECTION_LOST
      | Some DEC_PROTOCOL_ERROR \<Rightarrow> IE_BACKEND_REJECTED_REQUEST
      | Some DEC_OUT_OF_MEMORY \<Rightarrow> IE_BACKEND_ERROR
      | Some DEC_DATASET_LOADING \<Rightarrow> IE_BACKEND_NOT_READY
      | Some DEC_NOT_CONNECTED \<Rightarrow> IE_SDL_NOT_CONNECTED_TO_BACKEND
      | Some DEC_UNKNOWN_ERROR \<Rightarrow> IE_BACKEND_ERROR
      | Some DEC_IO_ERROR \<Rightarrow> IE_BACKEND_ERROR
      | Some DEC_WRITING_TO_SLAVE \<Rightarrow> IE_BACKEND_ERROR
      | Some DEC_END_MARKER \<Rightarrow> IE_SDL_ERROR_CODE_LOGIC_ERROR
      | None \<Rightarrow> IE_SDL_ERROR_CODE_LOGIC_ERROR)"

definition storage_default_error_condition :: "int \<Rightarrow> error_condition" where
  "storage_default_error_condition condition = make_error_condition_internal
     (case enum_case storageErrorCodes condition of
        Some SEC_SUCCESS \<Rightarrow> IE_SUCCESS
      | Some SEC_REDIS_NOT_YET_DISCOVERED \<Rightarrow> IE_SDL_NOT_READY
      | Some SEC_INVALID_NAMESPACE \<Rightarrow> IE_SDL_RECEIVED_INVALID_PARAMETER
      | Some SEC_END_MARKER \<Rightarrow> IE_SDL_ERROR_CODE_LOGIC_ERROR
      | None \<Rightarrow> IE_SDL_ERROR_CODE_LOGIC_ERROR)"

text \<open>\<open>std::error_category::default_error_condition\<close> and its overriders. The system category
  gives the generic condition of an errno value.\<close>

fun default_error_condition :: "error_category \<Rightarrow> int \<Rightarrow> error_condition" where
  "default_error_condition AsyncRedisCommandDispatcherErrorCategory v = dispatcher_default_error_condition v"
| "default_error_condition AsyncRedisStorageErrorCategory v = storage_default_error_condition v"
| "default_error_condition SystemCategory v =
     (if 0 \<le> v \<and> v < 134 then \<lparr>cond_value = v, cond_category = GenericCategory\<rparr>
      else \<lparr>cond_value = v, cond_category = SystemCategory\<rparr>)"
| "default_error_condition cat v = \<lparr>cond_value = v, cond_category = cat\<rparr>"

text \<open>\<open>error_code == InternalError\<close>: that category does not override \<open>equivalent\<close>.\<close>

definition ec_eq_internal :: "error_code \<Rightarrow> internalError \<Rightarrow> bool" where
  "ec_eq_internal ec ie =
     (default_error_condition (ec_category ec) (ec_value ec) = make_error_condition_internal ie \<or>
      ec_category ec = InternalErrorCategory \<and> ec_value ec = enum_value internalErrors ie)"

text \<open>\<open>SharedDataLayerErrorCategory::equivalent\<close>.\<close>

definition equivalent :: "error_code \<Rightarrow> int \<Rightarrow> bool" where
  "equivalent ec condition =
     (case enum_case sdlErrors condition of
        Some Error_SUCCESS \<Rightarrow> ec_eq_internal ec IE_SUCCESS \<or> ec = no_error
      | Some Error_NOT_CONNECTED \<Rightarrow> ec_eq_internal ec IE_SDL_NOT_CONNECTED_TO_BACKEND \<or>
          ec_eq_internal ec IE_BACKEND_NOT_READY \<or> ec_eq_internal ec IE_SDL_NOT_READY
      | Some Error_OPERATION_INTERRUPTED \<Rightarrow> ec_eq_internal ec IE_BACKEND_CONNECTION_LOST
      | Some Error_BACKEND_FAILURE \<Rightarrow> ec_eq_internal ec IE_BACKEND_ERROR \<or>
          ec_eq_internal ec IE_SDL_ERROR_CODE_LOGIC_ERROR
      | Some Error_REJECTED_BY_BACKEND \<Rightarrow> ec_eq_internal ec IE_BACKEND_REJECTED_REQUEST
      | Some Error_REJECTED_BY_SDL \<Rightarrow> ec_eq_internal ec IE_SDL_RECEIVED_INVALID_PARAMETER
      | None \<Rightarrow> False)"

text \<open>\<open>error_code == shareddatalayer::Error\<close>.\<close>

definition ec_eq_error :: "error_code \<Rightarrow> sdlError \<Rightarrow> bool" where
  "ec_eq_error ec e =
     (default_error_condition (ec_category ec) (ec_value ec) = make_error_condition e \<or>
      equivalent ec (cond_value (make_error_condition e)))"

definition throwExceptionForErrorCode :: "std_messages \<Rightarrow> error_code \<Rightarrow> failure" where
  "throwExceptionForErrorCode std_message ec = Throw
     (if ec_eq_error ec Error_BACKEND_FAILURE then BackendError (ec_message std_message ec)
      else if ec_eq_error ec Error_NOT_CONNECTED then NotConnected (ec_message std_message ec)
      else if ec_eq_error ec Error_OPERATION_INTERRUPTED then OperationInterrupted (ec_message std_message ec)
      else if ec_eq_error ec Error_REJECTED_BY_BACKEND then RejectedByBackend (ec_message std_message ec)
      else if ec = make_error_code_storage SEC_INVALID_NAMESPACE then InvalidNamespace (ec_message std_message ec)
      else if ec_eq_error ec Error_REJECTED_BY_SDL then RejectedBySdl (ec_message std_message ec)
      else StdRangeError (''No corresponding SDL exception found for error code: '' @
             category_name (ec_category ec) @ '' '' @ show_int (ec_value ec)))"

section \<open>From implementation codes to client errors\<close>

text \<open>The client error of each internal error.\<close>

fun client_error :: "internalError \<Rightarrow> sdlError" where
  "client_error IE_SUCCESS = Error_SUCCESS"
| "client_error IE_SDL_NOT_READY = Error_NOT_CONNECTED"
| "client_error IE_SDL_NOT_CONNECTED_TO_BACKEND = Error_NOT_CONNECTED"
| "client_error IE_SDL_ERROR_CODE_LOGIC_ERROR = Error_BACKEND_FAILURE"
| "client_error IE_SDL_RECEIVED_INVALID_PARAMETER = Error_REJECTED_BY_SDL"
| "client_error IE_BACKEND_CONNECTION_LOST = Error_OPERATION_INTERRUPTED"
| "client_error IE_BACKEND_NOT_READY = Error_NOT_CONNECTED"
| "client_error IE_BACKEND_REJECTED_REQUEST = Error_REJECTED_BY_BACKEND"
| "client_error IE_BACKEND_ERROR = Error_BACKEND_FAILURE"

lemma client_error_success [simp]: "client_error ie = Error_SUCCESS \<longleftrightarrow> ie = IE_SUCCESS"
  by (cases ie) simp_all

lemma make_internal_inject [simp]:
  "make_error_condition_internal a = make_error_condition_internal b \<longleftrightarrow> a = b"
  by (simp add: make_error_condition_internal_def enum_value_inject)

lemma make_internal_neq [simp]: "make_error_condition_internal a \<noteq> make_error_condition b"
  by (simp add: make_error_condition_internal_def make_error_condition_def)

lemma cond_value_sdl [simp]: "cond_value (make_error_condition e) = enum_value sdlErrors e"
  by (simp add: make_error_condition_def)

text \<open>The contract of an implementation specific category: every value has an internal error,
  and only 0 means success. What follows from it holds for each such category.\<close>

locale implementation_errors =
  fixes cat :: error_category and internal :: "int \<Rightarrow> internalError"
  assumes not_condition: "cat \<noteq> InternalErrorCategory" "cat \<noteq> SystemCategory"
    and default: "default_error_condition cat v = make_error_condition_internal (internal v)"
    and success: "internal v = IE_SUCCESS \<longleftrightarrow> v = 0"
begin

lemma eq_internal:
  "ec_eq_internal \<lparr>ec_value = v, ec_category = cat\<rparr> ie \<longleftrightarrow> internal v = ie"
  using not_condition by (simp add: ec_eq_internal_def default)

lemma eq_error:
  "ec_eq_error \<lparr>ec_value = v, ec_category = cat\<rparr> e \<longleftrightarrow> client_error (internal v) = e"
  using not_condition
  by (cases e; cases "internal v")
     (simp_all add: ec_eq_error_def equivalent_def default eq_internal no_error_def)

lemma one_client_error: "\<exists>!e. ec_eq_error \<lparr>ec_value = v, ec_category = cat\<rparr> e"
  by (auto simp: eq_error)

lemma success_iff: "ec_eq_error \<lparr>ec_value = v, ec_category = cat\<rparr> Error_SUCCESS \<longleftrightarrow> v = 0"
  by (simp add: eq_error success)

lemma throws_sdl_exception:
  assumes "v \<noteq> 0"
  shows "\<exists>e. throwExceptionForErrorCode std_message \<lparr>ec_value = v, ec_category = cat\<rparr> = Throw e \<and>
    is_sdl_exception e"
  using assms success [of v]
  by (cases "internal v") (simp_all add: throwExceptionForErrorCode_def eq_error)

end

definition dispatcher_internal :: "int \<Rightarrow> internalError" where
  "dispatcher_internal v = (case enum_case internalErrors (cond_value (dispatcher_default_error_condition v)) of
     Some ie \<Rightarrow> ie | None \<Rightarrow> IE_SUCCESS)"

definition storage_internal :: "int \<Rightarrow> internalError" where
  "storage_internal v = (case enum_case internalErrors (cond_value (storage_default_error_condition v)) of
     Some ie \<Rightarrow> ie | None \<Rightarrow> IE_SUCCESS)"

lemma enum_case_first: "distinct (x # xs) \<Longrightarrow> enum_case (x # xs) v = Some x \<longleftrightarrow> v = 0"
proof
  assume "distinct (x # xs)" "enum_case (x # xs) v = Some x"
  then have "enum_value (x # xs) x = v" by (rule enum_value_case)
  then show "v = 0" by (simp add: enum_value_def)
qed (simp add: enum_case_def)

lemma enum_case_zero:
  "enum_case dispatcherErrorCodes v = Some DEC_SUCCESS \<longleftrightarrow> v = 0"
  "enum_case storageErrorCodes v = Some SEC_SUCCESS \<longleftrightarrow> v = 0"
  unfolding dispatcherErrorCodes_def storageErrorCodes_def by (rule enum_case_first, simp)+

lemma cond_value_internal [simp]:
  "cond_value (make_error_condition_internal ie) = enum_value internalErrors ie"
  by (simp add: make_error_condition_internal_def)

lemma dispatcher_internal_cond:
  "dispatcher_default_error_condition v = make_error_condition_internal (dispatcher_internal v)"
  by (simp add: dispatcher_internal_def dispatcher_default_error_condition_def)

lemma storage_internal_cond:
  "storage_default_error_condition v = make_error_condition_internal (storage_internal v)"
  by (simp add: storage_internal_def storage_default_error_condition_def)

lemma dispatcher_internal_success: "dispatcher_internal v = IE_SUCCESS \<longleftrightarrow> v = 0"
  using enum_case_zero(1) [of v]
  by (auto simp: dispatcher_internal_def dispatcher_default_error_condition_def
      split: option.splits dispatcherErrorCode.splits)

lemma storage_internal_success: "storage_internal v = IE_SUCCESS \<longleftrightarrow> v = 0"
  using enum_case_zero(2) [of v]
  by (auto simp: storage_internal_def storage_default_error_condition_def
      split: option.splits storageErrorCode.splits)

interpretation dispatcher_errors:
  implementation_errors AsyncRedisCommandDispatcherErrorCategory dispatcher_internal
  by unfold_locales (simp_all add: dispatcher_internal_cond dispatcher_internal_success)

interpretation storage_errors:
  implementation_errors AsyncRedisStorageErrorCategory storage_internal
  by unfold_locales (simp_all add: storage_internal_cond storage_internal_success)

lemma dispatcher_internal_code:
  "dispatcher_internal (enum_value dispatcherErrorCodes c) =
     (case c of
        DEC_SUCCESS \<Rightarrow> IE_SUCCESS
      | DEC_CONNECTION_LOST \<Rightarrow> IE_BACKEND_CONNECTION_LOST
      | DEC_PROTOCOL_ERROR \<Rightarrow> IE_BACKEND_REJECTED_REQUEST
      | DEC_DATASET_LOADING \<Rightarrow> IE_BACKEND_NOT_READY
      | DEC_NOT_CONNECTED \<Rightarrow> IE_SDL_NOT_CONNECTED_TO_BACKEND
      | DEC_END_MARKER \<Rightarrow> IE_SDL_ERROR_CODE_LOGIC_ERROR
      | _ \<Rightarrow> IE_BACKEND_ERROR)"
  by (cases c) (simp_all add: dispatcher_internal_def dispatcher_default_error_condition_def)

lemma storage_internal_code:
  "storage_internal (enum_value storageErrorCodes c) =
     (case c of
        SEC_SUCCESS \<Rightarrow> IE_SUCCESS
      | SEC_REDIS_NOT_YET_DISCOVERED \<Rightarrow> IE_SDL_NOT_READY
      | SEC_INVALID_NAMESPACE \<Rightarrow> IE_SDL_RECEIVED_INVALID_PARAMETER
      | SEC_END_MARKER \<Rightarrow> IE_SDL_ERROR_CODE_LOGIC_ERROR)"
  by (cases c) (simp_all add: storage_internal_def storage_default_error_condition_def)

lemma ec_eq_error_dispatcher:
  "ec_eq_error (make_error_code_dispatcher c) e \<longleftrightarrow>
     client_error (dispatcher_internal (enum_value dispatcherErrorCodes c)) = e"
  by (simp add: make_error_code_dispatcher_def dispatcher_errors.eq_error)

lemma ec_eq_error_storage:
  "ec_eq_error (make_error_code_storage c) e \<longleftrightarrow>
     client_error (storage_internal (enum_value storageErrorCodes c)) = e"
  by (simp add: make_error_code_storage_def storage_errors.eq_error)

lemma ec_bool_no_error [simp]: "\<not> ec_bool no_error"
  by (simp add: ec_bool_def no_error_def)

lemma ec_bool_storage [simp]: "ec_bool (make_error_code_storage c) \<longleftrightarrow> c \<noteq> SEC_SUCCESS"
  by (cases c) (simp_all add: ec_bool_def make_error_code_storage_def enum_value_def storageErrorCodes_def)

lemma ec_bool_dispatcher [simp]: "ec_bool (make_error_code_dispatcher c) \<longleftrightarrow> c \<noteq> DEC_SUCCESS"
  by (cases c) (simp_all add: ec_bool_def make_error_code_dispatcher_def enum_value_def dispatcherErrorCodes_def)

text \<open>C12: the error mapping is total and unambiguous. Whatever value a code of one of the two
  implementation categories has (declared, the end marker or out of range), exactly one
  \<open>shareddatalayer::Error\<close> compares equal to it, and that is \<open>SUCCESS\<close> exactly for the value 0.\<close>

theorem every_code_has_one_client_error:
  "(\<exists>!e. ec_eq_error \<lparr>ec_value = v, ec_category = AsyncRedisCommandDispatcherErrorCategory\<rparr> e) \<and>
   (\<exists>!e. ec_eq_error \<lparr>ec_value = v, ec_category = AsyncRedisStorageErrorCategory\<rparr> e) \<and>
   (ec_eq_error \<lparr>ec_value = v, ec_category = AsyncRedisCommandDispatcherErrorCategory\<rparr> Error_SUCCESS \<longleftrightarrow> v = 0) \<and>
   (ec_eq_error \<lparr>ec_value = v, ec_category = AsyncRedisStorageErrorCategory\<rparr> Error_SUCCESS \<longleftrightarrow> v = 0)"
  by (intro conjI dispatcher_errors.one_client_error storage_errors.one_client_error
      dispatcher_errors.success_iff storage_errors.success_iff)

lemma show_int_0: "show_int 0 = ''0''"
  by code_simp

lemma throw_dispatcher_code:
  "throwExceptionForErrorCode std_message (make_error_code_dispatcher c) = Throw
     (case c of
        DEC_SUCCESS \<Rightarrow> StdRangeError ''No corresponding SDL exception found for error code: asyncrediscommanddispatcher 0''
      | DEC_UNKNOWN_ERROR \<Rightarrow> BackendError ''redis error''
      | DEC_CONNECTION_LOST \<Rightarrow> OperationInterrupted ''redis connection lost''
      | DEC_PROTOCOL_ERROR \<Rightarrow> RejectedByBackend ''redis protocol error''
      | DEC_OUT_OF_MEMORY \<Rightarrow> BackendError ''redis out of memory''
      | DEC_DATASET_LOADING \<Rightarrow> NotConnected ''redis dataset still being loaded into memory''
      | DEC_NOT_CONNECTED \<Rightarrow> NotConnected ''not connected to redis, SDL operation not started''
      | DEC_IO_ERROR \<Rightarrow> BackendError ''redis I/O error''
      | DEC_WRITING_TO_SLAVE \<Rightarrow> BackendError ''writing to slave''
      | DEC_END_MARKER \<Rightarrow> BackendError ''unsupported error code for message()'')"
proof -
  have msg: "ec_message std_message (make_error_code_dispatcher c) =
      dispatcher_message std_message (enum_value dispatcherErrorCodes c)"
    by (simp add: ec_message_def make_error_code_dispatcher_def)
  have cat: "make_error_code_dispatcher c \<noteq> make_error_code_storage d" for d
    by (simp add: make_error_code_dispatcher_def make_error_code_storage_def)
  show ?thesis unfolding throwExceptionForErrorCode_def ec_eq_error_dispatcher dispatcher_internal_code msg
    using cat by (cases c) (simp_all add: show_int_0 dispatcher_message_def make_error_code_dispatcher_def enum_value_def
        dispatcherErrorCodes_def enum_case_def)
qed

lemma throw_storage_code:
  "throwExceptionForErrorCode std_message (make_error_code_storage c) = Throw
     (case c of
        SEC_SUCCESS \<Rightarrow> StdRangeError ''No corresponding SDL exception found for error code: asyncredisstorage 0''
      | SEC_REDIS_NOT_YET_DISCOVERED \<Rightarrow> NotConnected ''connection to the underlying data storage not yet available''
      | SEC_INVALID_NAMESPACE \<Rightarrow> InvalidNamespace ''invalid namespace identifier passed to SDL API''
      | SEC_END_MARKER \<Rightarrow> BackendError ''unsupported error code for message()'')"
proof -
  have msg: "ec_message std_message (make_error_code_storage c) = storage_message std_message (enum_value storageErrorCodes c)"
    by (simp add: ec_message_def make_error_code_storage_def)
  show ?thesis unfolding throwExceptionForErrorCode_def ec_eq_error_storage storage_internal_code msg
    by (cases c) (simp_all add: show_int_0 storage_message_def make_error_code_storage_def enum_value_def
        storageErrorCodes_def enum_case_def)
qed

text \<open>Values that are no enumerator.\<close>

lemma throw_unknown_value:
  "v < 0 \<or> 10 \<le> v \<Longrightarrow>
     throwExceptionForErrorCode std_message \<lparr>ec_value = v, ec_category = AsyncRedisCommandDispatcherErrorCategory\<rparr> =
       Throw (BackendError (''description missing for AsyncRedisCommandDispatcherErrorCategory error: '' @ show_int v))"
  "v < 0 \<or> 4 \<le> v \<Longrightarrow>
     throwExceptionForErrorCode std_message \<lparr>ec_value = v, ec_category = AsyncRedisStorageErrorCategory\<rparr> =
       Throw (BackendError (''description missing for AsyncRedisStorageErrorCategory error: '' @ show_int v))"
proof -
  assume "v < 0 \<or> 10 \<le> v"
  then have none: "enum_case dispatcherErrorCodes v = None" by (auto simp: enum_case_def dispatcherErrorCodes_def)
  then have "dispatcher_internal v = IE_SDL_ERROR_CODE_LOGIC_ERROR"
    by (simp add: dispatcher_internal_def dispatcher_default_error_condition_def)
  then show "throwExceptionForErrorCode std_message \<lparr>ec_value = v, ec_category = AsyncRedisCommandDispatcherErrorCategory\<rparr> =
      Throw (BackendError (''description missing for AsyncRedisCommandDispatcherErrorCategory error: '' @ show_int v))"
    using none by (simp add: throwExceptionForErrorCode_def dispatcher_errors.eq_error ec_message_def dispatcher_message_def)
next
  assume "v < 0 \<or> 4 \<le> v"
  then have none: "enum_case storageErrorCodes v = None" by (auto simp: enum_case_def storageErrorCodes_def)
  then have "storage_internal v = IE_SDL_ERROR_CODE_LOGIC_ERROR"
    by (simp add: storage_internal_def storage_default_error_condition_def)
  then show "throwExceptionForErrorCode std_message \<lparr>ec_value = v, ec_category = AsyncRedisStorageErrorCategory\<rparr> =
      Throw (BackendError (''description missing for AsyncRedisStorageErrorCategory error: '' @ show_int v))"
    using none by (simp add: throwExceptionForErrorCode_def storage_errors.eq_error ec_message_def storage_message_def)
qed

text \<open>C26: the exceptions of the synchronous API. For every enumerator of the two categories of the
  library, the exception that \<open>throwExceptionForErrorCode\<close> throws and its message. The success codes,
  which the callers do not pass, fall through to \<open>std::range_error\<close>; a value that is no enumerator
  gives \<open>BackendError\<close>. \<open>InvalidNamespace\<close> carries the message of the code and not the namespace.\<close>

theorem thrown_exceptions:
  "throwExceptionForErrorCode std_message (make_error_code_dispatcher c) = Throw
     (case c of
        DEC_SUCCESS \<Rightarrow> StdRangeError ''No corresponding SDL exception found for error code: asyncrediscommanddispatcher 0''
      | DEC_UNKNOWN_ERROR \<Rightarrow> BackendError ''redis error''
      | DEC_CONNECTION_LOST \<Rightarrow> OperationInterrupted ''redis connection lost''
      | DEC_PROTOCOL_ERROR \<Rightarrow> RejectedByBackend ''redis protocol error''
      | DEC_OUT_OF_MEMORY \<Rightarrow> BackendError ''redis out of memory''
      | DEC_DATASET_LOADING \<Rightarrow> NotConnected ''redis dataset still being loaded into memory''
      | DEC_NOT_CONNECTED \<Rightarrow> NotConnected ''not connected to redis, SDL operation not started''
      | DEC_IO_ERROR \<Rightarrow> BackendError ''redis I/O error''
      | DEC_WRITING_TO_SLAVE \<Rightarrow> BackendError ''writing to slave''
      | DEC_END_MARKER \<Rightarrow> BackendError ''unsupported error code for message()'') \<and>
   throwExceptionForErrorCode std_message (make_error_code_storage d) = Throw
     (case d of
        SEC_SUCCESS \<Rightarrow> StdRangeError ''No corresponding SDL exception found for error code: asyncredisstorage 0''
      | SEC_REDIS_NOT_YET_DISCOVERED \<Rightarrow> NotConnected ''connection to the underlying data storage not yet available''
      | SEC_INVALID_NAMESPACE \<Rightarrow> InvalidNamespace ''invalid namespace identifier passed to SDL API''
      | SEC_END_MARKER \<Rightarrow> BackendError ''unsupported error code for message()'') \<and>
   (v < 0 \<or> 10 \<le> v \<longrightarrow>
     throwExceptionForErrorCode std_message \<lparr>ec_value = v, ec_category = AsyncRedisCommandDispatcherErrorCategory\<rparr> =
       Throw (BackendError (''description missing for AsyncRedisCommandDispatcherErrorCategory error: '' @ show_int v))) \<and>
   (v < 0 \<or> 4 \<le> v \<longrightarrow>
     throwExceptionForErrorCode std_message \<lparr>ec_value = v, ec_category = AsyncRedisStorageErrorCategory\<rparr> =
       Throw (BackendError (''description missing for AsyncRedisStorageErrorCategory error: '' @ show_int v)))"
  by (intro conjI impI throw_dispatcher_code throw_storage_code throw_unknown_value) simp_all

theorem thrown_exceptions_witness:
  "throwExceptionForErrorCode (\<lambda>_ _. []) \<lparr>ec_value = 10, ec_category = AsyncRedisStorageErrorCategory\<rparr> =
     Throw (BackendError (''description missing for AsyncRedisStorageErrorCategory error: '' @ show_int 10)) \<and>
   throwExceptionForErrorCode (\<lambda>_ _. []) \<lparr>ec_value = 10, ec_category = AsyncRedisCommandDispatcherErrorCategory\<rparr> =
     Throw (BackendError (''description missing for AsyncRedisCommandDispatcherErrorCategory error: '' @ show_int 10)) \<and>
   throwExceptionForErrorCode (\<lambda>_ _. []) (make_error_code_dispatcher DEC_NOT_CONNECTED) =
     Throw (NotConnected ''not connected to redis, SDL operation not started'')"
  using thrown_exceptions [of "\<lambda>_ _. []" DEC_NOT_CONNECTED SEC_SUCCESS 10] by simp

text \<open>The increment used to loop over an enumeration adds one to the underlying value and
  throws at the end marker, so a loop from \<open>SUCCESS\<close> meets every enumerator once.\<close>

fun enum_loop :: "('a \<Rightarrow> 'a result) \<Rightarrow> 'a \<Rightarrow> 'a \<Rightarrow> nat \<Rightarrow> 'a list result" where
  "enum_loop incr c stop 0 = Inr []"
| "enum_loop incr c stop (Suc n) =
     (if c = stop then Inr [] else rbind (incr c) (\<lambda>d. rbind (enum_loop incr d stop n) (\<lambda>ds. Inr (c # ds))))"

lemma dispatcher_code_incr_value:
  "c \<noteq> DEC_END_MARKER \<Longrightarrow> \<exists>d. dispatcher_code_incr c = Inr d \<and>
     enum_value dispatcherErrorCodes d = enum_value dispatcherErrorCodes c + 1"
  by (cases c) (simp_all add: dispatcher_code_incr_def enum_value_def dispatcherErrorCodes_def)

lemma storage_code_incr_value:
  "c \<noteq> SEC_END_MARKER \<Longrightarrow> \<exists>d. storage_code_incr c = Inr d \<and>
     enum_value storageErrorCodes d = enum_value storageErrorCodes c + 1"
  by (cases c) (simp_all add: storage_code_incr_def enum_value_def storageErrorCodes_def)

lemma enum_loops_meet_all:
  "enum_loop dispatcher_code_incr DEC_SUCCESS DEC_END_MARKER 10 = Inr (butlast dispatcherErrorCodes)"
  "enum_loop storage_code_incr SEC_SUCCESS SEC_END_MARKER 4 = Inr (butlast storageErrorCodes)"
  by (simp_all add: numeral_eq_Suc dispatcher_code_incr_def dispatcherErrorCodes_def
      storage_code_incr_def storageErrorCodes_def)

end
