(* ===== verification/Host_And_Port.thy ===== *)
theory Host_And_Port
  imports Namespaces "HOL-Library.Product_Lexorder" "HOL-Library.Multiset"
begin

text \<open>
  \<open>HostAndPort\<close> (\<open>src/hostandport.cpp\<close>): parsing of a server address with an optional port, its
  printed form, and its order; and the comparison of \<open>DatabaseInfo\<close>
  (\<open>include/private/redis/databaseinfo.hpp\<close>) that sorts addresses with that order.

  Ports are 16-bit words in network byte order, as in the code. The C library's service
  database and address parser and boost's number parser are the fields of \<open>net_lib\<close>, an
  argument of every definition that calls them; \<open>net_lib_ok\<close> states what the round trip below
  relies on of them.
\<close>

record net_lib =
  lexical_cast_u16 :: "string \<Rightarrow> 16 word option"
  getservbyname :: "string \<Rightarrow> 16 word option"
  inet_pton6 :: "string \<Rightarrow> bool"

record hostAndPort =
  host :: string
  port :: "16 word"
  literalIPv6 :: bool

section \<open>Parsing\<close>

definition stringToPort :: "'l net_lib_scheme \<Rightarrow> string \<Rightarrow> 16 word result" where
  "stringToPort lib p =
     (if p = [] then Inl (Throw EmptyPort)
      else case lexical_cast_u16 lib p of
        Some n \<Rightarrow> Inr (htons n)
      | None \<Rightarrow>
          (case getservbyname lib (c_str p) of
             None \<Rightarrow> Inl (Throw (InvalidPort p))
           | Some s_port \<Rightarrow> Inr s_port))"

definition isInBrackets :: "string \<Rightarrow> bool" where
  "isInBrackets s \<longleftrightarrow> s \<noteq> [] \<and> hd s = CHR ''['' \<and> last s = CHR '']''"

definition removeBrackets :: "string \<Rightarrow> string" where
  "removeBrackets s = substr 1 (length s - 2) s"

definition isLiteralIPv6 :: "'l net_lib_scheme \<Rightarrow> string \<Rightarrow> bool" where
  "isLiteralIPv6 lib s = inet_pton6 lib (c_str s)"

definition parse :: "'l net_lib_scheme \<Rightarrow> string \<Rightarrow> 16 word \<Rightarrow> hostAndPort result" where
  "parse lib s defaultPort =
     rbind
       (case str_rfind CHR '':'' s of
          None \<Rightarrow> Inr \<lparr>host = s, port = defaultPort, literalIPv6 = False\<rparr>
        | Some pos \<Rightarrow>
            if isLiteralIPv6 lib s
            then Inr \<lparr>host = s, port = defaultPort, literalIPv6 = True\<rparr>
            else
              (let h = substr 0 pos s;
                   h' = (if isInBrackets h then removeBrackets h else h);
                   lit = isLiteralIPv6 lib h'
               in rbind (stringToPort lib (substr (pos + 1) (length s - pos - 1) s))
                    (\<lambda>p. Inr \<lparr>host = h', port = p, literalIPv6 = lit\<rparr>)))
       (\<lambda>hp. if host hp = [] then Inl (Throw EmptyHost) else Inr hp)"

definition HostAndPort :: "'l net_lib_scheme \<Rightarrow> string \<Rightarrow> 16 word \<Rightarrow> hostAndPort result" where
  "HostAndPort lib addressAndOptionalPort defaultPort =
     (if isInBrackets addressAndOptionalPort
      then parse lib (removeBrackets addressAndOptionalPort) defaultPort
      else parse lib addressAndOptionalPort defaultPort)"

definition getHost :: "hostAndPort \<Rightarrow> string" where
  "getHost hp = host hp"

definition getPort :: "hostAndPort \<Rightarrow> 16 word" where
  "getPort hp = port hp"

definition getString :: "hostAndPort \<Rightarrow> string" where
  "getString hp =
     (if literalIPv6 hp
      then ''['' @ host hp @ '']:'' @ show_nat (unat (ntohs (port hp)))
      else host hp @ '':'' @ show_nat (unat (ntohs (port hp))))"

text \<open>Comparison: \<open>operator==\<close>, \<open>operator!=\<close> and \<open>operator<\<close>. They ignore \<open>literalIPv6\<close>.\<close>

definition hp_eq :: "hostAndPort \<Rightarrow> hostAndPort \<Rightarrow> bool" where
  "hp_eq a b \<longleftrightarrow> getPort a = getPort b \<and> getHost a = getHost b"

definition hp_neq :: "hostAndPort \<Rightarrow> hostAndPort \<Rightarrow> bool" where
  "hp_neq a b \<longleftrightarrow> \<not> hp_eq b a"

definition hp_less :: "hostAndPort \<Rightarrow> hostAndPort \<Rightarrow> bool" where
  "hp_less a b \<longleftrightarrow>
     (if getHost a = getHost b then getPort a < getPort b else getHost a < getHost b)"

text \<open>\<open>operator<<\<close> prints the port as stored, that is, in network byte order.\<close>

definition hp_print :: "hostAndPort \<Rightarrow> string" where
  "hp_print hp = getHost hp @ '':'' @ show_nat (unat (getPort hp))"

section \<open>Parsing facts\<close>

lemma isInBrackets_iff: "isInBrackets s \<longleftrightarrow> (\<exists>t. s = CHR ''['' # t @ [CHR '']''])"
proof
  assume "isInBrackets s"
  then obtain r where s: "s = CHR ''['' # r" "last s = CHR '']''"
    by (cases s) (auto simp: isInBrackets_def)
  then have "r \<noteq> []" by auto
  with s show "\<exists>t. s = CHR ''['' # t @ [CHR '']'']" by (metis append_butlast_last_id last_ConsR)
qed (auto simp: isInBrackets_def)

lemma removeBrackets_wrap [simp]: "removeBrackets (CHR ''['' # t @ [CHR '']'']) = t"
  by (simp add: removeBrackets_def substr_def)

lemma removeBrackets_changes: "isInBrackets s \<Longrightarrow> removeBrackets s \<noteq> s"
proof -
  assume "isInBrackets s"
  then obtain t where "s = CHR ''['' # t @ [CHR '']'']" by (auto simp: isInBrackets_iff)
  then have "length (removeBrackets s) < length s" by simp
  then show ?thesis by auto
qed

lemma isInBrackets_last: "isInBrackets s \<Longrightarrow> last s = CHR '']''"
  by (simp add: isInBrackets_def)

lemma last_show_nat: "last (s @ show_nat n) \<noteq> CHR '']''"
proof -
  have "last (show_nat n) \<in> set (show_nat n)" by (rule last_in_set) simp
  then have "last (show_nat n) \<in> set ''0123456789''" by (rule subsetD [OF show_nat_digits])
  then show ?thesis by auto
qed

lemma colon_not_in_show_nat: "CHR '':'' \<notin> set (show_nat n)"
  using show_nat_digits [of n] by auto

lemma nul_not_in_show_nat: "CHR 0x00 \<notin> set (show_nat n)"
  using show_nat_digits [of n] by auto

text \<open>A constructed address always has a host.\<close>

lemma parse_host_nonempty: "parse lib s d = Inr hp \<Longrightarrow> host hp \<noteq> []"
  by (auto simp: parse_def rbind_Inr_iff split: if_splits)

lemma HostAndPort_host_nonempty: "HostAndPort lib s d = Inr hp \<Longrightarrow> host hp \<noteq> []"
  by (auto simp: HostAndPort_def split: if_splits dest: parse_host_nonempty)

lemma HostAndPort_not_bracketed: "\<not> isInBrackets s \<Longrightarrow> HostAndPort lib s d = parse lib s d"
  by (simp add: HostAndPort_def)

lemma parse_at_last_colon:
  assumes "CHR '':'' \<notin> set p" and "\<not> isLiteralIPv6 lib (h @ CHR '':'' # p)"
  shows "parse lib (h @ CHR '':'' # p) d =
     rbind (stringToPort lib p)
       (\<lambda>q. let h' = (if isInBrackets h then removeBrackets h else h)
            in if h' = [] then Inl (Throw EmptyHost)
               else Inr \<lparr>host = h', port = q, literalIPv6 = isLiteralIPv6 lib h'\<rparr>)"
  using assms
  by (cases "stringToPort lib p") (simp_all add: parse_def str_simps substr_def Let_def)

text \<open>What the printed form relies on: \<open>lexical_cast\<close> reads back decimal numbers, and
  \<open>inet_pton\<close> accepts only strings of hexadecimal digits, dots and at least two colons.\<close>

definition net_lib_ok :: "'l net_lib_scheme \<Rightarrow> bool" where
  "net_lib_ok lib \<longleftrightarrow>
     (\<forall>n. lexical_cast_u16 lib (show_nat (unat n)) = Some n) \<and>
     (\<forall>s. inet_pton6 lib s \<longrightarrow>
        set s \<subseteq> set ''0123456789abcdefABCDEF:.'' \<and> 2 \<le> length (filter ((=) CHR '':'') s))"

lemma net_lib_okD:
  assumes "net_lib_ok lib"
  shows "lexical_cast_u16 lib (show_nat (unat n)) = Some n"
    and "inet_pton6 lib s \<Longrightarrow> set s \<subseteq> set ''0123456789abcdefABCDEF:.''"
    and "inet_pton6 lib s \<Longrightarrow> 2 \<le> length (filter ((=) CHR '':'') s)"
  using assms by (simp_all add: net_lib_ok_def)

lemma stringToPort_show:
  "net_lib_ok lib \<Longrightarrow> stringToPort lib (show_nat (unat (ntohs q))) = Inr q"
  by (simp add: stringToPort_def net_lib_okD(1) byte_simps)

lemma isLiteralIPv6_colons:
  assumes "net_lib_ok lib" and "isLiteralIPv6 lib s"
  shows "2 \<le> length (filter ((=) CHR '':'') s)"
proof -
  have "2 \<le> length (filter ((=) CHR '':'') (c_str s))"
    using assms by (simp add: isLiteralIPv6_def net_lib_okD(3))
  also have "filter ((=) CHR '':'') s =
      filter ((=) CHR '':'') (c_str s) @ filter ((=) CHR '':'') (dropWhile (\<lambda>c. c \<noteq> CHR 0x00) s)"
    unfolding c_str_def by (metis filter_append takeWhile_dropWhile_id)
  then have "length (filter ((=) CHR '':'') (c_str s)) \<le> length (filter ((=) CHR '':'') s)"
    by simp
  finally show ?thesis .
qed

lemma bracketed_not_literal: "net_lib_ok lib \<Longrightarrow> \<not> isLiteralIPv6 lib (CHR ''['' # t)"
  using net_lib_okD(2) [of lib "c_str (CHR ''['' # t)"]
  by (auto simp: isLiteralIPv6_def c_str_def)

lemma parse_literalIPv6:
  "parse lib s d = Inr hp \<Longrightarrow> literalIPv6 hp \<Longrightarrow> isLiteralIPv6 lib (host hp)"
  by (auto simp: parse_def rbind_Inr_iff Let_def split: if_splits option.splits)

lemma HostAndPort_literalIPv6:
  "HostAndPort lib s d = Inr hp \<Longrightarrow> literalIPv6 hp \<Longrightarrow> isLiteralIPv6 lib (host hp)"
  by (auto simp: HostAndPort_def split: if_splits dest: parse_literalIPv6)

lemma getString_not_bracketed: "\<not> isInBrackets (getString hp)"
  using last_show_nat by (auto simp: getString_def dest!: isInBrackets_last)

lemma literal_has_colon:
  assumes "net_lib_ok lib" "isLiteralIPv6 lib s"
  shows "CHR '':'' \<in> set s"
proof (rule ccontr)
  assume "CHR '':'' \<notin> set s"
  then have "filter ((=) CHR '':'') s = []" by (auto simp: filter_empty_conv)
  with isLiteralIPv6_colons [OF assms] show False by simp
qed

lemma HostAndPort_flag:
  assumes "net_lib_ok lib" "HostAndPort lib s d = Inr hp"
  shows "literalIPv6 hp = isLiteralIPv6 lib (host hp)"
proof -
  have "literalIPv6 hp = isLiteralIPv6 lib (host hp)" if "parse lib s d = Inr hp" for s
    using that literal_has_colon [OF assms(1)]
    by (auto simp: parse_def rbind_Inr_iff Let_def str_rfind_None_iff split: if_splits option.splits)
  then show ?thesis using assms(2) by (auto simp: HostAndPort_def split: if_splits)
qed

lemma roundtrip_literal:
  assumes "net_lib_ok lib" "HostAndPort lib s d = Inr hp" "literalIPv6 hp"
  shows "HostAndPort lib (getString hp) d' = Inr hp"
proof -
  let ?p = "show_nat (unat (ntohs (port hp)))"
  have g: "getString hp = (CHR ''['' # host hp @ [CHR '']'']) @ CHR '':'' # ?p"
    using assms(3) by (simp add: getString_def)
  have "isInBrackets (CHR ''['' # host hp @ [CHR '']''])" by (auto simp: isInBrackets_iff)
  moreover have "\<not> isLiteralIPv6 lib (getString hp)"
    unfolding g using bracketed_not_literal [OF assms(1)] by simp
  ultimately show ?thesis
    using assms(3) HostAndPort_literalIPv6 [OF assms(2,3)] HostAndPort_host_nonempty [OF assms(2)]
      getString_not_bracketed [of hp] colon_not_in_show_nat
    unfolding g
    by (subst HostAndPort_not_bracketed)
       (simp_all add: parse_at_last_colon stringToPort_show [OF assms(1)] del: append_Cons append_assoc)
qed

text \<open>C20: printing and re-reading an address built by the constructor gives back the same host, port
  and IPv6 flag, whatever default port is passed, exactly when it is an IPv6 literal, or its host is
  not in brackets and does not become an IPv6 literal by the printed port behind it. A host without
  a colon never does.\<close>

theorem hostandport_roundtrip:
  assumes lib: "net_lib_ok lib" and hp: "HostAndPort lib s d = Inr hp"
  shows "(HostAndPort lib (getString hp) d' = Inr hp \<longleftrightarrow>
      literalIPv6 hp \<or> \<not> isInBrackets (host hp) \<and> \<not> isLiteralIPv6 lib (getString hp)) \<and>
    (CHR '':'' \<notin> set (host hp) \<longrightarrow> \<not> isLiteralIPv6 lib (getString hp))"
proof (cases "literalIPv6 hp")
  case True
  then show ?thesis using roundtrip_literal [OF lib hp True] HostAndPort_flag [OF lib hp] literal_has_colon [OF lib] by blast
next
  case False
  let ?p = "show_nat (unat (ntohs (port hp)))"
  have g: "getString hp = host hp @ CHR '':'' # ?p" using False by (simp add: getString_def)
  have parse: "HostAndPort lib (getString hp) d' = parse lib (getString hp) d'"
    using getString_not_bracketed [of hp] by (rule HostAndPort_not_bracketed)
  have "HostAndPort lib (getString hp) d' = Inr hp \<longleftrightarrow> \<not> isInBrackets (host hp) \<and> \<not> isLiteralIPv6 lib (getString hp)"
  proof (cases "isLiteralIPv6 lib (getString hp)")
    case True
    then have "HostAndPort lib (getString hp) d' = Inr \<lparr>host = getString hp, port = d', literalIPv6 = True\<rparr>"
      unfolding parse by (simp add: parse_def g str_simps colon_not_in_show_nat)
    then have "HostAndPort lib (getString hp) d' = Inr hp \<Longrightarrow> literalIPv6 hp"
      by (metis hostAndPort.select_convs(3) sum.inject(2))
    then show ?thesis using True False by blast
  next
    case nonlit: False
    have eq: "HostAndPort lib (getString hp) d' = (let h' = if isInBrackets (host hp) then removeBrackets (host hp) else host hp
        in if h' = [] then Inl (Throw EmptyHost) else Inr \<lparr>host = h', port = port hp, literalIPv6 = isLiteralIPv6 lib h'\<rparr>)"
      unfolding parse using parse_at_last_colon [OF colon_not_in_show_nat nonlit [unfolded g], of d']
      by (simp add: g stringToPort_show [OF lib])
    show ?thesis
    proof (cases "isInBrackets (host hp)")
      case True
      then have "removeBrackets (host hp) \<noteq> host hp" by (rule removeBrackets_changes)
      then show ?thesis unfolding eq using True by (cases hp) (simp add: Let_def)
    next
      case False
      then show ?thesis unfolding eq using nonlit HostAndPort_host_nonempty [OF hp] HostAndPort_flag [OF lib hp]
        by (cases hp) (simp add: Let_def)
    qed
  qed
  moreover have "\<not> isLiteralIPv6 lib (getString hp)" if "CHR '':'' \<notin> set (host hp)"
  proof -
    have "filter ((=) CHR '':'') (host hp) = []" "filter ((=) CHR '':'') ?p = []"
      using that colon_not_in_show_nat by (auto simp: filter_empty_conv)
    then show ?thesis using isLiteralIPv6_colons [OF lib] by (fastforce simp: g)
  qed
  ultimately show ?thesis using False by blast
qed

definition sample_net_lib :: net_lib where
  "sample_net_lib =
     \<lparr>lexical_cast_u16 = (\<lambda>s. if show_nat (read_nat s) = s \<and> read_nat s < 65536
        then Some (word_of_nat (read_nat s)) else None),
      getservbyname = (\<lambda>s. if s = ''redis'' then Some (htons 6379) else None),
      inet_pton6 = (\<lambda>s. s = ''::1'')\<rparr>"

lemma sample_net_lib_ok: "net_lib_ok sample_net_lib"
proof -
  have "unat (n :: 16 word) < 2 ^ LENGTH(16)" for n by (rule unsigned_less)
  then show ?thesis by (auto simp: net_lib_ok_def sample_net_lib_def read_show_nat)
qed

theorem hostandport_roundtrip_witness:
  "HostAndPort sample_net_lib
     (getString \<lparr>host = ''::1'', port = htons 26379, literalIPv6 = True\<rparr>) 0
   = Inr \<lparr>host = ''::1'', port = htons 26379, literalIPv6 = True\<rparr>"
proof -
  have "show_nat 26379 = ''26379''" by (simp add: show_nat.simps digit_char_def)
  then have "stringToPort sample_net_lib ''26379'' = Inr (htons 26379)"
    using stringToPort_show [OF sample_net_lib_ok, of "htons 26379"] by (simp add: byte_simps)
  then have "HostAndPort sample_net_lib ''[::1]:26379'' 0
      = Inr \<lparr>host = ''::1'', port = htons 26379, literalIPv6 = True\<rparr>"
    by (simp add: HostAndPort_def isInBrackets_def parse_def str_rfind_def substr_def
        removeBrackets_def isLiteralIPv6_def c_str_def sample_net_lib_def)
  from hostandport_roundtrip [OF sample_net_lib_ok this, of 0] show ?thesis by simp
qed

text \<open>An address that is read back as another one: seven groups in brackets are no IPv6 literal, so
  they are printed without brackets, and the port becomes the eighth group.\<close>

lemma bracketed_host_not_reread:
  assumes "net_lib_ok lib" "\<not> isLiteralIPv6 lib ''1:2:3:4:5:6:7''" "isLiteralIPv6 lib ''1:2:3:4:5:6:7:80''"
  shows "\<exists>hp. HostAndPort lib ''[1:2:3:4:5:6:7]:80'' 0 = Inr hp \<and> getString hp = ''1:2:3:4:5:6:7:80'' \<and>
    HostAndPort lib (getString hp) 0 = Inr \<lparr>host = ''1:2:3:4:5:6:7:80'', port = 0, literalIPv6 = True\<rparr>"
proof -
  let ?hp = "\<lparr>host = ''1:2:3:4:5:6:7'', port = htons 80, literalIPv6 = False\<rparr>"
  have n: "show_nat 80 = ''80''" by (simp add: show_nat.simps digit_char_def)
  have port: "stringToPort lib ''80'' = Inr (htons 80)"
    using stringToPort_show [OF assms(1), of "htons 80"] by (simp add: byte_simps n)
  have "HostAndPort lib ''[1:2:3:4:5:6:7]:80'' 0 = Inr ?hp"
    using assms(2) port bracketed_not_literal [OF assms(1), of "''1:2:3:4:5:6:7]:80''"]
      parse_at_last_colon [of "''80''" lib "''[1:2:3:4:5:6:7]''" 0]
    by (simp add: HostAndPort_def isInBrackets_def removeBrackets_def substr_def Let_def)
  moreover have g: "getString ?hp = ''1:2:3:4:5:6:7:80''" by (simp add: getString_def byte_simps n)
  moreover have "HostAndPort lib ''1:2:3:4:5:6:7:80'' 0 = Inr \<lparr>host = ''1:2:3:4:5:6:7:80'', port = 0, literalIPv6 = True\<rparr>"
    using assms(3) by (simp add: HostAndPort_def isInBrackets_def parse_def str_rfind_def)
  ultimately show ?thesis by metis
qed

section \<open>Order\<close>

text \<open>The key that \<open>operator<\<close> compares.\<close>

definition hp_key :: "hostAndPort \<Rightarrow> string \<times> 16 word" where
  "hp_key a = (getHost a, getPort a)"

lemma hp_less_key: "hp_less a b \<longleftrightarrow> hp_key a < hp_key b"
  by (auto simp: hp_less_def hp_key_def less_prod_simp)

lemma hp_eq_key: "hp_eq a b \<longleftrightarrow> hp_key a = hp_key b"
  by (auto simp: hp_eq_def hp_key_def)

text \<open>C21: \<open>operator<\<close> is a strict order that is total up to \<open>operator==\<close>, which is what
  \<open>std::sort\<close> in the comparison of \<open>DatabaseInfo\<close> requires: exactly one of
  \<open>a < b\<close>, \<open>a == b\<close>, \<open>b < a\<close> holds, and \<open><\<close> is transitive.\<close>

theorem hp_less_strict_total:
  "(hp_less a b \<and> hp_less b c \<longrightarrow> hp_less a c) \<and> \<not> (hp_less a b \<and> hp_less b a) \<and>
   (hp_eq a b \<longleftrightarrow> \<not> hp_less a b \<and> \<not> hp_less b a) \<and> (hp_neq a b \<longleftrightarrow> hp_less a b \<or> hp_less b a)"
  by (auto simp: hp_less_key hp_eq_key hp_neq_def)

theorem hp_less_strict_total_witness:
  "hp_less \<lparr>host = ''a'', port = 1, literalIPv6 = False\<rparr> \<lparr>host = ''c'', port = 0, literalIPv6 = False\<rparr>"
proof -
  let ?a = "\<lparr>host = ''a'', port = 1, literalIPv6 = False\<rparr>"
  let ?b = "\<lparr>host = ''a'', port = 2, literalIPv6 = False\<rparr>"
  let ?c = "\<lparr>host = ''c'', port = 0, literalIPv6 = False\<rparr>"
  have "hp_less ?a ?b" "hp_less ?b ?c" by code_simp+
  with hp_less_strict_total [of ?a ?b ?c] show ?thesis by blast
qed

section \<open>DatabaseInfo\<close>

datatype db_info_type = SINGLE | REDUNDANT | CLUSTER

datatype db_discovery = HIREDIS | SENTINEL

record databaseInfo =
  hosts :: "hostAndPort list"
  db_info_type :: db_info_type
  db_ns :: "string option"
  discovery :: db_discovery

text \<open>\<open>std::sort\<close> with \<open>operator<\<close>, and the element-wise comparison of the vectors.\<close>

definition sort_hosts :: "hostAndPort list \<Rightarrow> hostAndPort list" where
  "sort_hosts hs = sort_key hp_key hs"

definition databaseInfo_eq :: "databaseInfo \<Rightarrow> databaseInfo \<Rightarrow> bool" where
  "databaseInfo_eq a b \<longleftrightarrow>
     list_all2 hp_eq (sort_hosts (hosts a)) (sort_hosts (hosts b)) \<and>
     db_info_type a = db_info_type b \<and> db_ns a = db_ns b"

definition databaseInfo_neq :: "databaseInfo \<Rightarrow> databaseInfo \<Rightarrow> bool" where
  "databaseInfo_neq a b \<longleftrightarrow> \<not> databaseInfo_eq b a"

lemma list_all2_hp_eq: "list_all2 hp_eq xs ys \<longleftrightarrow> map hp_key xs = map hp_key ys"
  by (auto simp: list_all2_conv_all_nth list_eq_iff_nth_eq hp_eq_key)

lemma map_key_sort_key: "map f (sort_key f xs) = sort (map f xs)"
  by (rule properties_for_sort [symmetric]) simp_all

text \<open>Two database descriptions are equal exactly when they have the same type, the same
  namespace and the same addresses counted with multiplicity, whatever their order and their
  discovery mechanism.\<close>

theorem databaseInfo_eq_iff:
  "databaseInfo_eq a b \<longleftrightarrow>
     mset (map hp_key (hosts a)) = mset (map hp_key (hosts b)) \<and>
     db_info_type a = db_info_type b \<and> db_ns a = db_ns b"
proof -
  have "sort xs = sort ys \<longleftrightarrow> mset xs = mset ys" for xs ys :: "(string \<times> 16 word) list"
  proof
    assume "sort xs = sort ys"
    then have "mset (sort xs) = mset (sort ys)" by (rule arg_cong)
    then show "mset xs = mset ys" by simp
  next
    assume "mset xs = mset ys"
    then show "sort xs = sort ys" by (intro properties_for_sort) simp_all
  qed
  then show ?thesis
    by (simp only: databaseInfo_eq_def list_all2_hp_eq sort_hosts_def map_key_sort_key)
qed

end
