(* ===== verification/Database_Configuration.thy ===== *)
theory Database_Configuration
  imports Host_And_Port
begin

text \<open>
  \<open>DatabaseConfigurationImpl\<close> (\<open>src/databaseconfigurationimpl.cpp\<close>): the static description of
  the database backend. Its state is the database type, the server addresses in the order they
  were applied, and the sentinel ports and master names, which are matched to the addresses by
  position.

  \<open>boost::split\<close> is the field \<open>split\<close> of \<open>conf_lib\<close> (separator characters, input);
  \<open>split_ok\<close> states its documented behaviour without token compression.
\<close>

record conf_lib = net_lib +
  split :: "string \<Rightarrow> string \<Rightarrow> string list"

fun join :: "char \<Rightarrow> string list \<Rightarrow> string" where
  "join c [] = []"
| "join c [t] = t"
| "join c (t # ts) = t @ c # join c ts"

lemma join_Cons: "ts \<noteq> [] \<Longrightarrow> join c (t # ts) = t @ c # join c ts"
  by (cases ts) simp_all

definition split_ok :: "'l conf_lib_scheme \<Rightarrow> bool" where
  "split_ok lib \<longleftrightarrow>
     (\<forall>c ts. ts \<noteq> [] \<and> (\<forall>t\<in>set ts. c \<notin> set t) \<longrightarrow> split lib [c] (join c ts) = ts)"

lemma split_join:
  "split_ok lib \<Longrightarrow> ts \<noteq> [] \<Longrightarrow> (\<And>t. t \<in> set ts \<Longrightarrow> c \<notin> set t) \<Longrightarrow> split lib [c] (join c ts) = ts"
  by (simp add: split_ok_def)

lemma split_empty: "split_ok lib \<Longrightarrow> split lib [c] [] = [[]]"
  using split_join [of lib "[[]]" c] by simp

section \<open>State and operations\<close>

datatype dbType = UNKNOWN | REDIS_STANDALONE | REDIS_CLUSTER | REDIS_SENTINEL
  | SDL_STANDALONE_CLUSTER | SDL_SENTINEL_CLUSTER

record databaseConfiguration =
  dbType :: dbType
  serverAddresses :: "hostAndPort list"
  sentinelPorts :: "16 word list"
  sentinelMasterNames :: "string list"

definition getDefaultHost :: string where
  "getDefaultHost = ''localhost''"

definition DEFAULT_PORT :: "16 word" where
  "DEFAULT_PORT = 6379"

definition DEFAULT_SENTINEL_PORT :: "16 word" where
  "DEFAULT_SENTINEL_PORT = 26379"

definition DEFAULT_SENTINEL_MASTER_GROUP_NAME :: string where
  "DEFAULT_SENTINEL_MASTER_GROUP_NAME = ''dbaasmaster''"

definition DatabaseConfigurationImpl :: databaseConfiguration where
  "DatabaseConfigurationImpl =
     \<lparr>dbType = UNKNOWN, serverAddresses = [], sentinelPorts = [], sentinelMasterNames = []\<rparr>"

definition checkAndApplyDbType ::
  "string \<Rightarrow> databaseConfiguration \<Rightarrow> databaseConfiguration result" where
  "checkAndApplyDbType type c =
     (if type = ''redis-standalone'' then Inr (c\<lparr>dbType := REDIS_STANDALONE\<rparr>)
      else if type = ''redis-cluster'' then Inr (c\<lparr>dbType := REDIS_CLUSTER\<rparr>)
      else if type = ''redis-sentinel'' then Inr (c\<lparr>dbType := REDIS_SENTINEL\<rparr>)
      else if type = ''sdl-standalone-cluster'' then Inr (c\<lparr>dbType := SDL_STANDALONE_CLUSTER\<rparr>)
      else if type = ''sdl-sentinel-cluster'' then Inr (c\<lparr>dbType := SDL_SENTINEL_CLUSTER\<rparr>)
      else Inl (Throw (InvalidDbType type)))"

definition getDbType :: "databaseConfiguration \<Rightarrow> dbType" where
  "getDbType c = dbType c"

definition checkAndApplyServerAddress ::
  "'l conf_lib_scheme \<Rightarrow> string \<Rightarrow> databaseConfiguration \<Rightarrow> databaseConfiguration result" where
  "checkAndApplyServerAddress lib address c =
     rbind (HostAndPort lib address (htons DEFAULT_PORT))
       (\<lambda>hp. Inr (c\<lparr>serverAddresses := serverAddresses c @ [hp]\<rparr>))"

definition isEmpty :: "databaseConfiguration \<Rightarrow> bool" where
  "isEmpty c \<longleftrightarrow> serverAddresses c = []"

definition getServerAddresses :: "databaseConfiguration \<Rightarrow> hostAndPort list" where
  "getServerAddresses c = serverAddresses c"

definition getServerAddresses_at ::
  "nat option \<Rightarrow> databaseConfiguration \<Rightarrow> hostAndPort list result" where
  "getServerAddresses_at addressIndex c =
     (case addressIndex of
        Some i \<Rightarrow> rbind (vec_at (serverAddresses c) i) (\<lambda>hp. Inr [hp])
      | None \<Rightarrow> Inr (serverAddresses c))"

definition getDefaultServerAddresses ::
  "'l conf_lib_scheme \<Rightarrow> databaseConfiguration \<Rightarrow> hostAndPort list result" where
  "getDefaultServerAddresses lib c =
     rbind (HostAndPort lib getDefaultHost (htons DEFAULT_PORT)) (\<lambda>hp. Inr [hp])"

text \<open>Each port that is a 16-bit number is kept, in network byte order; the others are skipped.\<close>

definition checkAndApplySentinelPorts ::
  "'l conf_lib_scheme \<Rightarrow> string \<Rightarrow> databaseConfiguration \<Rightarrow> databaseConfiguration" where
  "checkAndApplySentinelPorts lib portsEnvStr c =
     fold (\<lambda>p c. case lexical_cast_u16 lib p of
             Some n \<Rightarrow> c\<lparr>sentinelPorts := sentinelPorts c @ [htons n]\<rparr>
           | None \<Rightarrow> c)
       (split lib '','' portsEnvStr) c"

definition getSentinelAddress ::
  "'l conf_lib_scheme \<Rightarrow> nat option \<Rightarrow> databaseConfiguration \<Rightarrow> hostAndPort option result" where
  "getSentinelAddress lib addressIndex c =
     (let index = (case addressIndex of Some i \<Rightarrow> i | None \<Rightarrow> 0);
          p = (if 0 < length (sentinelPorts c) \<and> index < length (sentinelPorts c)
               then sentinelPorts c ! index else htons DEFAULT_SENTINEL_PORT)
      in if \<not> 0 < length (serverAddresses c) then Inr None
         else rbind (vec_at (serverAddresses c) index)
                (\<lambda>hp. rbind (HostAndPort lib (getHost hp) p) (\<lambda>s. Inr (Some s))))"

definition checkAndApplySentinelMasterNames ::
  "'l conf_lib_scheme \<Rightarrow> string \<Rightarrow> databaseConfiguration \<Rightarrow> databaseConfiguration" where
  "checkAndApplySentinelMasterNames lib namesEnvStr c =
     c\<lparr>sentinelMasterNames := split lib '','' namesEnvStr\<rparr>"

definition getSentinelMasterName :: "nat option \<Rightarrow> databaseConfiguration \<Rightarrow> string" where
  "getSentinelMasterName addressIndex c =
     (let index = (case addressIndex of Some i \<Rightarrow> i | None \<Rightarrow> 0)
      in if 0 < length (sentinelMasterNames c) \<and> index < length (sentinelMasterNames c)
         then sentinelMasterNames c ! index else DEFAULT_SENTINEL_MASTER_GROUP_NAME)"

section \<open>Facts\<close>

text \<open>Each accepted type name selects its own database type, and nothing else is changed.\<close>

fun db_type_name :: "dbType \<Rightarrow> string option" where
  "db_type_name UNKNOWN = None"
| "db_type_name REDIS_STANDALONE = Some ''redis-standalone''"
| "db_type_name REDIS_CLUSTER = Some ''redis-cluster''"
| "db_type_name REDIS_SENTINEL = Some ''redis-sentinel''"
| "db_type_name SDL_STANDALONE_CLUSTER = Some ''sdl-standalone-cluster''"
| "db_type_name SDL_SENTINEL_CLUSTER = Some ''sdl-sentinel-cluster''"

lemma checkAndApplyDbType_Inr_iff:
  "checkAndApplyDbType type c = Inr c' \<longleftrightarrow>
     (\<exists>t. db_type_name t = Some type \<and> c' = c\<lparr>dbType := t\<rparr>)"
proof
  assume "checkAndApplyDbType type c = Inr c'"
  then show "\<exists>t. db_type_name t = Some type \<and> c' = c\<lparr>dbType := t\<rparr>"
    by (auto simp: checkAndApplyDbType_def split: if_splits intro: exI [of _ REDIS_STANDALONE]
        exI [of _ REDIS_CLUSTER] exI [of _ REDIS_SENTINEL] exI [of _ SDL_STANDALONE_CLUSTER]
        exI [of _ SDL_SENTINEL_CLUSTER])
next
  assume "\<exists>t. db_type_name t = Some type \<and> c' = c\<lparr>dbType := t\<rparr>"
  then obtain t where "db_type_name t = Some type" "c' = c\<lparr>dbType := t\<rparr>" by blast
  then show "checkAndApplyDbType type c = Inr c'"
    by (cases t) (auto simp: checkAndApplyDbType_def)
qed

text \<open>The loop over the sentinel ports appends the readable ones, in order.\<close>

lemma sentinelPorts_fold:
  "fold (\<lambda>p c. case lexical_cast_u16 lib p of
           Some n \<Rightarrow> c\<lparr>sentinelPorts := sentinelPorts c @ [htons n]\<rparr> | None \<Rightarrow> c) ps c
   = c\<lparr>sentinelPorts := sentinelPorts c @ map htons (List.map_filter (lexical_cast_u16 lib) ps)\<rparr>"
  by (induction ps arbitrary: c) (simp_all split: option.split)

lemma map_filter_show_nat:
  "net_lib_ok lib \<Longrightarrow> List.map_filter (lexical_cast_u16 lib) (map (\<lambda>n. show_nat (unat n)) ps) = ps"
  by (induction ps) (simp_all add: net_lib_okD(1))

lemma comma_not_in_show_nat: "CHR '','' \<notin> set (show_nat n)"
  using show_nat_digits [of n] by auto

lemma HostAndPort_host_only:
  assumes "h \<noteq> []" "\<not> isInBrackets h" "CHR '':'' \<in> set h \<longrightarrow> isLiteralIPv6 lib h"
  shows "HostAndPort lib h p = Inr \<lparr>host = h, port = p, literalIPv6 = (CHR '':'' \<in> set h)\<rparr>"
proof (cases "str_rfind CHR '':'' h")
  case None
  then have "CHR '':'' \<notin> set h" by (simp add: str_rfind_None_iff)
  with None assms show ?thesis by (simp add: HostAndPort_def parse_def)
next
  case (Some k)
  then have "CHR '':'' \<in> set h" using str_rfind_None_iff [of "CHR '':''" h] by auto
  with Some assms show ?thesis by (simp add: HostAndPort_def parse_def)
qed

text \<open>A comma separated list of sentinel ports is stored port by port: applying the printed
  list to a configuration without sentinel ports makes the \<open>i\<close>-th port the one used for the
  \<open>i\<close>-th server, and servers beyond the list get the default sentinel port. The host of the
  sentinel is the host of the server, which must be an IPv6 literal or a plain name.\<close>

theorem sentinel_address_by_position:
  assumes lib: "net_lib_ok lib" "split_ok lib" and ps: "ps \<noteq> []"
    and c: "sentinelPorts c = []" "i < length (serverAddresses c)"
    and h: "h = host (serverAddresses c ! i)" "h \<noteq> []" "\<not> isInBrackets h"
      "CHR '':'' \<in> set h \<longrightarrow> isLiteralIPv6 lib h"
  shows "getSentinelAddress lib (Some i)
           (checkAndApplySentinelPorts lib (join CHR '','' (map (\<lambda>n. show_nat (unat n)) ps)) c)
         = Inr (Some \<lparr>host = h,
                      port = htons (if i < length ps then ps ! i else DEFAULT_SENTINEL_PORT),
                      literalIPv6 = (CHR '':'' \<in> set h)\<rparr>)"
proof -
  have "split lib '','' (join CHR '','' (map (\<lambda>n. show_nat (unat n)) ps))
      = map (\<lambda>n. show_nat (unat n)) ps"
    using ps comma_not_in_show_nat by (intro split_join [OF lib(2)]) auto
  then have applied: "checkAndApplySentinelPorts lib
      (join CHR '','' (map (\<lambda>n. show_nat (unat n)) ps)) c = c\<lparr>sentinelPorts := map htons ps\<rparr>"
    using c(1) by (simp add: checkAndApplySentinelPorts_def sentinelPorts_fold
        map_filter_show_nat [OF lib(1)])
  have "HostAndPort lib h p = Inr \<lparr>host = h, port = p, literalIPv6 = (CHR '':'' \<in> set h)\<rparr>" for p
    using h by (intro HostAndPort_host_only) auto
  moreover have "serverAddresses c \<noteq> []" using c(2) by auto
  ultimately show ?thesis
    unfolding applied using c(2) ps
    by (simp add: getSentinelAddress_def vec_at_def getHost_def h(1) [symmetric] Let_def)
qed

text \<open>An instance of the library parameters: the network part of \<open>sample_net_lib\<close> and a
  splitter.\<close>

fun split_at :: "(char \<Rightarrow> bool) \<Rightarrow> string \<Rightarrow> string list" where
  "split_at p [] = [[]]"
| "split_at p (x # xs) =
     (if p x then [] # split_at p xs
      else case split_at p xs of [] \<Rightarrow> [[x]] | t # ts \<Rightarrow> (x # t) # ts)"

lemma split_at_append_sep:
  "\<forall>x\<in>set t. \<not> p x \<Longrightarrow> p c \<Longrightarrow> split_at p (t @ c # s) = t # split_at p s"
  by (induction t) simp_all

lemma split_at_none: "\<forall>x\<in>set t. \<not> p x \<Longrightarrow> split_at p t = [t]"
  by (induction t) simp_all

lemma split_at_join:
  "ts \<noteq> [] \<Longrightarrow> \<forall>t\<in>set ts. c \<notin> set t \<Longrightarrow> split_at (\<lambda>x. x \<in> set [c]) (join c ts) = ts"
proof (induction c ts rule: join.induct)
  case (2 c t)
  then show ?case by (auto intro!: split_at_none)
next
  case (3 c t u ts)
  then have "\<forall>x\<in>set t. \<not> x \<in> set [c]" by auto
  then show ?case using 3 by (simp add: split_at_append_sep)
qed simp

definition sample_conf_lib :: conf_lib where
  "sample_conf_lib = net_lib.extend sample_net_lib \<lparr>split = (\<lambda>cs s. split_at (\<lambda>x. x \<in> set cs) s)\<rparr>"

lemma sample_conf_lib_simps [simp]:
  "lexical_cast_u16 sample_conf_lib = lexical_cast_u16 sample_net_lib"
  "getservbyname sample_conf_lib = getservbyname sample_net_lib"
  "inet_pton6 sample_conf_lib = inet_pton6 sample_net_lib"
  "split sample_conf_lib = (\<lambda>cs s. split_at (\<lambda>x. x \<in> set cs) s)"
  by (simp_all add: sample_conf_lib_def net_lib.defs sample_net_lib_def)

lemma sample_conf_lib_ok: "net_lib_ok sample_conf_lib" "split_ok sample_conf_lib"
  using sample_net_lib_ok split_at_join by (simp_all add: net_lib_ok_def split_ok_def)

theorem sentinel_address_by_position_witness:
  "getSentinelAddress sample_conf_lib (Some 1)
     (checkAndApplySentinelPorts sample_conf_lib
        (join CHR '','' (map (\<lambda>n. show_nat (unat n)) [54321, 54322 :: 16 word]))
        (DatabaseConfigurationImpl\<lparr>serverAddresses :=
           [\<lparr>host = ''db0'', port = 0, literalIPv6 = False\<rparr>,
            \<lparr>host = ''db1'', port = 0, literalIPv6 = False\<rparr>]\<rparr>))
   = Inr (Some \<lparr>host = ''db1'', port = htons 54322, literalIPv6 = False\<rparr>)"
  by (subst sentinel_address_by_position [where h = "''db1''"])
     (simp_all add: sample_conf_lib_ok DatabaseConfigurationImpl_def isInBrackets_def)

text \<open>Master names are matched to servers by position: after applying a comma separated
  list, server \<open>i\<close> has the \<open>i\<close>-th name, and the default master name is used only beyond the
  list. In particular an empty list has one empty name, which replaces the default for the
  first server.\<close>

theorem master_name_by_position:
  assumes "split_ok lib" and "names \<noteq> []" and "\<And>n. n \<in> set names \<Longrightarrow> CHR '','' \<notin> set n"
  shows "getSentinelMasterName (Some i)
           (checkAndApplySentinelMasterNames lib (join CHR '','' names) c)
         = (if i < length names then names ! i else DEFAULT_SENTINEL_MASTER_GROUP_NAME)"
  using assms split_join [OF assms(1,2), of "CHR '',''"]
  by (simp add: getSentinelMasterName_def checkAndApplySentinelMasterNames_def Let_def)

theorem master_name_by_position_witness:
  "getSentinelMasterName (Some 0)
     (checkAndApplySentinelMasterNames sample_conf_lib (join CHR '','' [[]]) DatabaseConfigurationImpl)
   = []"
  by (subst master_name_by_position) (simp_all add: sample_conf_lib_ok)

end
