(* ===== verification/Redis_Reply.thy ===== *)
theory Redis_Reply
  imports Sdl_Errors Database_Configuration
begin

text \<open>
  Replies of the database and the errors read from them (\<open>src/redis/asyncredisreply.cpp\<close>,
  \<open>include/private/redis/reply.hpp\<close>, \<open>src/redis/redisgeneral.cpp\<close>).

  \<open>redisReply\<close> is the reply structure of hiredis: \<open>rr_str\<close> is the buffer of \<open>len\<close> bytes and is
  \<open>None\<close> for the null pointer, whose \<open>len\<close> is 0; \<open>rr_element\<close> are the \<open>elements\<close> sub-replies.
  The constants of hiredis are datatypes with one constructor for every other value.

  The member \<open>type\<close> of \<open>AsyncRedisReply\<close> is not initialised when the type of the hiredis reply
  is not in the type map: the type is then \<open>None\<close>, and comparing it is undefined behaviour.
\<close>

section \<open>Replies\<close>

datatype redis_reply_type =
    REDIS_REPLY_STRING
  | REDIS_REPLY_ARRAY
  | REDIS_REPLY_INTEGER
  | REDIS_REPLY_NIL
  | REDIS_REPLY_STATUS
  | REDIS_REPLY_ERROR
  | REDIS_REPLY_OTHER int

datatype redisReply = RedisReply
  (rr_type: redis_reply_type) (rr_integer: int) (rr_str: "string option") (rr_element: "redisReply list")

definition rr_len :: "redisReply \<Rightarrow> nat" where
  "rr_len rr = (case rr_str rr of None \<Rightarrow> 0 | Some s \<Rightarrow> length s)"

datatype replyType = NIL | INTEGER | STATUS | STRING | ARRAY

record dataItem =
  di_str :: string
  di_len :: nat

datatype reply = Reply
  (reply_type: "replyType option") (reply_integer: int) (reply_item: dataItem) (reply_vector: "reply list")

definition empty_item :: dataItem where
  "empty_item = \<lparr>di_str = [], di_len = 0\<rparr>"

definition AsyncRedisReply_default :: reply where
  "AsyncRedisReply_default = Reply (Some NIL) 0 empty_item []"

fun typeMap :: "redis_reply_type \<Rightarrow> replyType option" where
  "typeMap REDIS_REPLY_NIL = Some NIL"
| "typeMap REDIS_REPLY_INTEGER = Some INTEGER"
| "typeMap REDIS_REPLY_STATUS = Some STATUS"
| "typeMap REDIS_REPLY_STRING = Some STRING"
| "typeMap REDIS_REPLY_ARRAY = Some ARRAY"
| "typeMap _ = None"

text \<open>The \<open>switch\<close> of \<open>parseReply\<close>, on the replies already built for the elements, which
  \<open>parseArray\<close> pushes back in order.\<close>

definition parseArray :: "reply list \<Rightarrow> reply \<Rightarrow> reply" where
  "parseArray elements r =
     Reply (reply_type r) (reply_integer r) (reply_item r) (reply_vector r @ elements)"

definition parseReply :: "redisReply \<Rightarrow> reply list \<Rightarrow> reply \<Rightarrow> reply" where
  "parseReply rr elements r =
     (case reply_type r of
        Some INTEGER \<Rightarrow> Reply (reply_type r) (rr_integer rr) (reply_item r) (reply_vector r)
      | Some STATUS \<Rightarrow> Reply (reply_type r) (reply_integer r)
          \<lparr>di_str = (case rr_str rr of None \<Rightarrow> [] | Some s \<Rightarrow> s), di_len = rr_len rr\<rparr> (reply_vector r)
      | Some STRING \<Rightarrow> Reply (reply_type r) (reply_integer r)
          \<lparr>di_str = (case rr_str rr of None \<Rightarrow> [] | Some s \<Rightarrow> s), di_len = rr_len rr\<rparr> (reply_vector r)
      | Some ARRAY \<Rightarrow> parseArray elements r
      | Some NIL \<Rightarrow> r
      | None \<Rightarrow> r)"

primrec AsyncRedisReply :: "redisReply \<Rightarrow> reply" where
  "AsyncRedisReply (RedisReply t i s es) =
     (case typeMap t of
        Some t' \<Rightarrow> parseReply (RedisReply t i s es) (map AsyncRedisReply es) (Reply (Some t') 0 empty_item [])
      | None \<Rightarrow> Reply None 0 empty_item [])"

definition getType :: "reply \<Rightarrow> replyType option" where
  "getType r = reply_type r"

definition getInteger :: "reply \<Rightarrow> int" where
  "getInteger r = reply_integer r"

definition getString :: "reply \<Rightarrow> dataItem" where
  "getString r = reply_item r"

definition getArray :: "reply \<Rightarrow> reply list" where
  "getArray r = reply_vector r"

text \<open>\<open>reply.getType() == t\<close>.\<close>

definition type_is :: "reply \<Rightarrow> replyType \<Rightarrow> bool result" where
  "type_is r t = (case getType r of None \<Rightarrow> Inl Undefined | Some t' \<Rightarrow> Inr (t' = t))"

section \<open>Errors\<close>

text \<open>\<open>equals\<close> and \<open>startsWith\<close> compare with a buffer of \<open>s2Len\<close> bytes that may be null.\<close>

definition equals :: "string \<Rightarrow> string option \<Rightarrow> bool" where
  "equals s1 s2 = (case s2 of None \<Rightarrow> False | Some s \<Rightarrow> length s1 = length s \<and> s1 = s)"

definition startsWith :: "string \<Rightarrow> string option \<Rightarrow> bool" where
  "startsWith s1 s2 =
     (case s2 of None \<Rightarrow> False | Some s \<Rightarrow> length s1 \<le> length s \<and> s1 = take (length s1) s)"

definition mapRedisReplyErrorToSdlError :: "redisReply \<Rightarrow> dispatcherErrorCode" where
  "mapRedisReplyErrorToSdlError rr =
     (if equals ''LOADING Redis is loading the dataset in memory'' (rr_str rr) then DEC_DATASET_LOADING
      else if startsWith ''CLUSTERDOWN'' (rr_str rr) then DEC_NOT_CONNECTED
      else if startsWith ''ERR Protocol error'' (rr_str rr) then DEC_PROTOCOL_ERROR
      else if startsWith ''READONLY'' (rr_str rr) then DEC_WRITING_TO_SLAVE
      else DEC_UNKNOWN_ERROR)"

datatype redis_context_err =
    REDIS_ERR_IO
  | REDIS_ERR_EOF
  | REDIS_ERR_PROTOCOL
  | REDIS_ERR_OOM
  | CLUSTER_ERROR_NOT_CONNECTED
  | CLUSTER_ERROR_CONNECTION_LOST
  | REDIS_ERR_VALUE int

datatype errno = ECONNRESET | Errno int

text \<open>The two cluster errors are compiled in with \<open>HAVE_HIREDIS_VIP\<close>.\<close>

definition mapRedisContextErrorToSdlError ::
  "bool \<Rightarrow> errno \<Rightarrow> redis_context_err \<Rightarrow> dispatcherErrorCode" where
  "mapRedisContextErrorToSdlError HAVE_HIREDIS_VIP err redisContextErr =
     (case redisContextErr of
        REDIS_ERR_IO \<Rightarrow> if err = ECONNRESET then DEC_CONNECTION_LOST else DEC_IO_ERROR
      | REDIS_ERR_EOF \<Rightarrow> DEC_CONNECTION_LOST
      | REDIS_ERR_PROTOCOL \<Rightarrow> DEC_PROTOCOL_ERROR
      | REDIS_ERR_OOM \<Rightarrow> DEC_OUT_OF_MEMORY
      | CLUSTER_ERROR_NOT_CONNECTED \<Rightarrow> if HAVE_HIREDIS_VIP then DEC_NOT_CONNECTED else DEC_UNKNOWN_ERROR
      | CLUSTER_ERROR_CONNECTION_LOST \<Rightarrow> if HAVE_HIREDIS_VIP then DEC_CONNECTION_LOST else DEC_UNKNOWN_ERROR
      | REDIS_ERR_VALUE _ \<Rightarrow> DEC_UNKNOWN_ERROR)"

definition getRedisError ::
  "bool \<Rightarrow> errno \<Rightarrow> redis_context_err \<Rightarrow> redisReply option \<Rightarrow> error_code" where
  "getRedisError HAVE_HIREDIS_VIP err redisContextErr rr =
     (case rr of
        Some r \<Rightarrow> if rr_type r \<noteq> REDIS_REPLY_ERROR then no_error
                  else make_error_code_dispatcher (mapRedisReplyErrorToSdlError r)
      | None \<Rightarrow> make_error_code_dispatcher
                  (mapRedisContextErrorToSdlError HAVE_HIREDIS_VIP err redisContextErr))"

section \<open>Cluster addresses and module commands\<close>

fun formatToClusterSyntax :: "hostAndPort list \<Rightarrow> string" where
  "formatToClusterSyntax [] = []"
| "formatToClusterSyntax (a # as) =
     getHost a @ '':'' @ show_nat (unat (ntohs (getPort a))) @
     (if as = [] then [] else '','' @ formatToClusterSyntax as)"

definition getRequiredRedisModuleCommands :: "string list" where
  "getRequiredRedisModuleCommands =
     fold set_insert [''msetpub'', ''setie'', ''setiepub'', ''setnxpub'', ''delpub'', ''delie'', ''deliepub''] []"

definition parseCommandListReply :: "reply \<Rightarrow> string list result" where
  "parseCommandListReply r =
     for_each (\<lambda>j availableCommands.
         rbind (vec_index (getArray j) 0)
           (\<lambda>front. Inr (set_insert (di_str (getString front)) availableCommands)))
       (getArray r) []"

definition checkRedisModuleCommands :: "string list \<Rightarrow> bool" where
  "checkRedisModuleCommands availableCommands =
     (let missingCommands = fold (\<lambda>i missing. if i \<notin> set availableCommands then set_insert i missing else missing)
            getRequiredRedisModuleCommands []
      in missingCommands = [])"

section \<open>Lemmas\<close>

lemma map_reply_error_not_success [simp]: "mapRedisReplyErrorToSdlError rr \<noteq> DEC_SUCCESS"
  by (simp add: mapRedisReplyErrorToSdlError_def)

lemma map_context_error_not_success [simp]: "mapRedisContextErrorToSdlError vip err ce \<noteq> DEC_SUCCESS"
  by (simp add: mapRedisContextErrorToSdlError_def split: redis_context_err.split)

text \<open>C22: an outcome of a command is a success exactly if the database replied and the reply is
  not an error reply; no error reply and no missing reply is ever reported as success, whatever
  the text of the error or the state of the connection.\<close>

theorem getRedisError_success_iff:
  "\<not> ec_bool (getRedisError vip err ce rr) \<longleftrightarrow> (\<exists>r. rr = Some r \<and> rr_type r \<noteq> REDIS_REPLY_ERROR)"
  by (cases rr) (auto simp: getRedisError_def)

lemma startsWith_append [simp]: "startsWith s (Some (s @ t))"
  by (simp add: startsWith_def)

text \<open>The parsed reply, by the type of the hiredis reply.\<close>

lemma reply_of:
  "getType (AsyncRedisReply rr) = typeMap (rr_type rr)"
  "rr_type rr = REDIS_REPLY_INTEGER \<Longrightarrow> getInteger (AsyncRedisReply rr) = rr_integer rr"
  "rr_type rr = REDIS_REPLY_STRING \<Longrightarrow> rr_str rr = Some s \<Longrightarrow>
     getString (AsyncRedisReply rr) = \<lparr>di_str = s, di_len = length s\<rparr>"
  "rr_type rr = REDIS_REPLY_ARRAY \<Longrightarrow> getArray (AsyncRedisReply rr) = map AsyncRedisReply (rr_element rr)"
  by (cases rr; cases "rr_type rr";
      simp add: getType_def getInteger_def getString_def getArray_def parseReply_def parseArray_def rr_len_def)+

lemma formatToClusterSyntax_join:
  "formatToClusterSyntax as =
     join CHR '','' (map (\<lambda>a. getHost a @ '':'' @ show_nat (unat (ntohs (getPort a)))) as)"
proof (induction as)
  case (Cons a as)
  then show ?case by (cases as) (simp_all add: join_Cons)
qed simp

lemma set_required:
  "set getRequiredRedisModuleCommands =
     {''msetpub'', ''setie'', ''setiepub'', ''setnxpub'', ''delpub'', ''delie'', ''deliepub''}"
  by (auto simp: getRequiredRedisModuleCommands_def)

lemma missing_fold_empty:
  "(fold (\<lambda>i missing. if i \<notin> set avail then set_insert i missing else missing) xs m = []) \<longleftrightarrow>
     m = [] \<and> set xs \<subseteq> set avail"
proof (induction xs arbitrary: m)
  case (Cons x xs)
  have "set_insert x m \<noteq> []" by (cases m) auto
  with Cons show ?case by auto
qed simp

lemma parseCommandListReply_set:
  assumes "\<And>j. j \<in> set (getArray r) \<Longrightarrow> getArray j \<noteq> []"
  shows "\<exists>cs. parseCommandListReply r = Inr cs \<and>
    set cs = (\<lambda>j. di_str (getString (hd (getArray j)))) ` set (getArray r)"
proof -
  let ?g = "\<lambda>j. set_insert (di_str (getString (hd (getArray j))))"
  have "parseCommandListReply r = Inr (fold ?g (getArray r) [])"
    unfolding parseCommandListReply_def
    by (rule for_each_total) (use assms in \<open>auto simp: vec_index_def hd_conv_nth\<close>)
  moreover have "set (fold ?g js m) = (\<lambda>j. di_str (getString (hd (getArray j)))) ` set js \<union> set m" for js m
    by (induction js arbitrary: m) auto
  ultimately show ?thesis by simp
qed

text \<open>The module check. When the reply to \<open>COMMAND\<close> is an array of non-empty arrays, the
  check of the parsed commands succeeds exactly if every one of the seven commands of the Redis
  module is the first element of one of them.\<close>

theorem module_check_iff:
  assumes "\<And>j. j \<in> set (getArray r) \<Longrightarrow> getArray j \<noteq> []"
  shows "\<exists>cs. parseCommandListReply r = Inr cs \<and>
    (checkRedisModuleCommands cs \<longleftrightarrow>
       {''msetpub'', ''setie'', ''setiepub'', ''setnxpub'', ''delpub'', ''delie'', ''deliepub''}
         \<subseteq> (\<lambda>j. di_str (getString (hd (getArray j)))) ` set (getArray r))"
proof -
  obtain cs where "parseCommandListReply r = Inr cs"
    "set cs = (\<lambda>j. di_str (getString (hd (getArray j)))) ` set (getArray r)"
    using parseCommandListReply_set [of r] assms by blast
  then show ?thesis
    unfolding checkRedisModuleCommands_def Let_def missing_fold_empty set_required by simp
qed

definition sample_command_reply :: reply where
  "sample_command_reply = AsyncRedisReply (RedisReply REDIS_REPLY_ARRAY 0 None
     [RedisReply REDIS_REPLY_ARRAY 0 None [RedisReply REDIS_REPLY_STRING 0 (Some ''setie'') []]])"

theorem module_check_iff_witness:
  "\<exists>cs. parseCommandListReply sample_command_reply = Inr cs \<and> \<not> checkRedisModuleCommands cs"
  using module_check_iff [of sample_command_reply]
  by (simp add: sample_command_reply_def getArray_def getString_def parseReply_def parseArray_def rr_len_def)

end
