(* ===== verification/Dispatcher_Base.thy ===== *)
theory Dispatcher_Base
  imports Contents_Builder Redis_Reply
begin

text \<open>
  What the two command dispatchers have in common (\<open>AsyncCommandDispatcher\<close> of
  \<open>include/private/redis/asynccommanddispatcher.hpp\<close> and the members that
  \<open>AsyncHiredisCommandDispatcher\<close> and \<open>AsyncHiredisClusterCommandDispatcher\<close> share), and the
  contract of a dispatcher as a locale.

  Callbacks of the client are called from inside the dispatcher and may call it back: their code
  is the argument \<open>client_code\<close>, a state transformer. Calls that leave the library (hiredis,
  timers, callbacks posted to the engine) are recorded in \<open>out\<close>, in program order.

  A callback stored in the list \<open>cbs\<close> is identified by its list node: an entry of \<open>cbs\<close> is the
  number of the node and the callback. The code passes the address of the node to hiredis. Numbers
  are not used again; the allocator may place a new node at the address of an erased one, so what is
  shown of a number that is no longer in the list holds for an address only until that happens.
  hiredis calls the callback of a command once.
\<close>

text \<open>A command callback is the client's or the dispatcher's own \<open>verifyConnectionReply\<close>.\<close>

datatype 'cb commandCb = VerifyConnectionReply | ClientCb 'cb

text \<open>The context returned by a connect function: null, with its error set, or usable.\<close>

datatype connect_result = ConnectNull | ConnectErr | ConnectOk

datatype retry_action = RetryConnect | RetryVerifyConnection

datatype ('cb, 'a) posted =
    PostConnectAck 'a
  | PostCommandError "'cb commandCb" error_code

datatype ('cb, 'a) effect =
    Post "('cb, 'a) posted"
  | HiConnect string nat
  | HiClusterConnect string
  | HiAttach
  | HiDetach int
  | HiSetConnectCallback
  | HiSetDisconnectCallback
  | HiFree
  | HiCommand nat "string list"
  | HiCommandWithKey nat namespace "string list"
  | ArmRetryTimer int retry_action
  | DisarmRetryTimer

record ('cb, 'a, 'd) dispatcher =
  cbs :: "(nat \<times> 'cb commandCb) list"
  next_cb :: nat
  connectAck :: "'a option"
  disconnectCallback :: "'d option"
  clientCallbacksEnabled :: bool
  usePermanentCommandCallbacks :: bool
  retryTimer :: "(int \<times> retry_action) option"
  out :: "('cb, 'a) effect list"

record ('cb, 'a, 'd, 's) client_code =
  on_reply :: "'cb \<Rightarrow> error_code \<Rightarrow> reply \<Rightarrow> 's \<Rightarrow> 's result"
  on_connect :: "'a \<Rightarrow> 's \<Rightarrow> 's result"
  on_disconnect :: "'d \<Rightarrow> 's \<Rightarrow> 's result"

definition emit :: "('cb, 'a) effect \<Rightarrow> ('cb, 'a, 'd, 'z) dispatcher_scheme \<Rightarrow> ('cb, 'a, 'd, 'z) dispatcher_scheme" where
  "emit e s = s\<lparr>out := out s @ [e]\<rparr>"

text \<open>The bytes hiredis reads: for each argument, as many as its size says. Reading past the end
  of an argument is undefined.\<close>

definition argv :: "contents \<Rightarrow> string list result" where
  "argv c = (if list_all2 (\<lambda>a n. n \<le> length a) (stack c) (sizes c)
             then Inr (map2 (\<lambda>a n. take n a) (stack c) (sizes c)) else Inl Undefined)"

text \<open>\<open>cbs.push_back\<close>: a new list node with a fresh address.\<close>

definition push_cb :: "'cb commandCb \<Rightarrow> ('cb, 'a, 'd, 'z) dispatcher_scheme \<Rightarrow> ('cb, 'a, 'd, 'z) dispatcher_scheme" where
  "push_cb cb s = s\<lparr>cbs := cbs s @ [(next_cb s, cb)], next_cb := next_cb s + 1\<rparr>"

fun erase_first :: "nat \<Rightarrow> (nat \<times> 'b) list \<Rightarrow> (nat \<times> 'b) list" where
  "erase_first a [] = []"
| "erase_first a ((b, x) # xs) = (if b = a then xs else (b, x) # erase_first a xs)"

definition arm_retry :: "int \<Rightarrow> retry_action \<Rightarrow> ('cb, 'a, 'd, 'z) dispatcher_scheme \<Rightarrow> ('cb, 'a, 'd, 'z) dispatcher_scheme" where
  "arm_retry d action s = emit (ArmRetryTimer d action) (s\<lparr>retryTimer := Some (d, action)\<rparr>)"

definition disarm_retry :: "('cb, 'a, 'd, 'z) dispatcher_scheme \<Rightarrow> ('cb, 'a, 'd, 'z) dispatcher_scheme" where
  "disarm_retry s = (if retryTimer s = None then s else emit DisarmRetryTimer (s\<lparr>retryTimer := None\<rparr>))"

text \<open>Durations of the retry timers, in seconds.\<close>

definition connectionRetryTimerDuration :: int where
  "connectionRetryTimerDuration = 1"

definition connectionVerificationRetryTimerDuration :: int where
  "connectionVerificationRetryTimerDuration = 10"

lemma argv_sized: "sized c \<Longrightarrow> argv c = Inr (stack c)"
proof -
  assume "sized c"
  then have "sizes c = map length (stack c)" by (simp add: sized_def)
  moreover have "list_all2 (\<lambda>a n. n \<le> length a) xs (map length xs)"
    "map2 (\<lambda>a n. take n a) xs (map length xs) = xs" for xs :: "string list"
    by (induction xs) simp_all
  ultimately show ?thesis by (simp add: argv_def)
qed

lemma set_erase_first: "distinct (map fst xs) \<Longrightarrow> fst ` set (erase_first a xs) = fst ` set xs - {a}"
proof (induction a xs rule: erase_first.induct)
  case (2 a b x xs)
  then show ?case by (cases "b = a") auto
qed simp

lemma distinct_erase_first: "distinct (map fst xs) \<Longrightarrow> distinct (map fst (erase_first a xs))"
proof (induction a xs rule: erase_first.induct)
  case (2 a b x xs)
  then show ?case using set_erase_first [of xs a] by auto
qed simp

lemma erase_first_filter: "distinct (map fst xs) \<Longrightarrow> erase_first a xs = filter (\<lambda>x. fst x \<noteq> a) xs"
proof (induction a xs rule: erase_first.induct)
  case (2 a b x xs)
  moreover have "filter (\<lambda>x. fst x \<noteq> b) xs = xs" if "b \<notin> fst ` set xs" using that by (auto simp: filter_id_conv)
  ultimately show ?case by auto
qed simp

lemma erase_first_subset: "set (erase_first a xs) \<subseteq> set xs"
  by (induction a xs rule: erase_first.induct) auto

lemma emit_parts [simp]:
  "cbs (emit e s) = cbs s" "next_cb (emit e s) = next_cb s" "connectAck (emit e s) = connectAck s"
  "disconnectCallback (emit e s) = disconnectCallback s" "retryTimer (emit e s) = retryTimer s"
  "clientCallbacksEnabled (emit e s) = clientCallbacksEnabled s"
  "usePermanentCommandCallbacks (emit e s) = usePermanentCommandCallbacks s" "out (emit e s) = out s @ [e]"
  by (simp_all add: emit_def)

lemma push_cb_parts [simp]:
  "cbs (push_cb c s) = cbs s @ [(next_cb s, c)]" "next_cb (push_cb c s) = Suc (next_cb s)"
  "out (push_cb c s) = out s" "retryTimer (push_cb c s) = retryTimer s"
  "clientCallbacksEnabled (push_cb c s) = clientCallbacksEnabled s"
  "usePermanentCommandCallbacks (push_cb c s) = usePermanentCommandCallbacks s"
  by (simp_all add: push_cb_def)

text \<open>Addresses of stored callbacks are distinct and below the next one.\<close>

definition disp_inv :: "('cb, 'a, 'd, 'z) dispatcher_scheme \<Rightarrow> bool" where
  "disp_inv s = (distinct (map fst (cbs s)) \<and> (\<forall>a\<in>fst ` set (cbs s). a < next_cb s))"

lemma disp_inv_emit [simp]: "disp_inv (emit e s) = disp_inv s"
  by (simp add: disp_inv_def)

lemma disp_inv_push [simp]: "disp_inv s \<Longrightarrow> disp_inv (push_cb c s)"
  by (auto simp: disp_inv_def less_SucI)

lemma erase_first_last: "\<forall>b\<in>fst ` set xs. b < a \<Longrightarrow> erase_first a (xs @ [(a, c)]) = xs"
  by (induction a xs rule: erase_first.induct) auto

section \<open>The contract of a dispatcher\<close>

text \<open>What the storage relies on. While the dispatcher is not connected a command is not handed
  to the database: its callback is posted with \<open>NOT_CONNECTED\<close>. When it is connected the command
  is handed over with its exact arguments, or its callback is posted with an error. Either way
  nothing is called at once and the call returns.\<close>

fun sent :: "('cb, 'a) effect \<Rightarrow> string list option" where
  "sent (HiCommand _ args) = Some args"
| "sent (HiCommandWithKey _ _ args) = Some args"
| "sent _ = None"

fun error_post :: "'cb commandCb \<Rightarrow> ('cb, 'a) effect \<Rightarrow> error_code option" where
  "error_post cb (Post (PostCommandError cb' ec)) = (if cb' = cb then Some ec else None)"
| "error_post cb _ = None"

locale command_dispatcher =
  fixes dispatch :: "'cb commandCb \<Rightarrow> namespace \<Rightarrow> contents \<Rightarrow> ('cb, 'a, 'd, 'z) dispatcher_scheme \<Rightarrow>
      ('cb, 'a, 'd, 'z) dispatcher_scheme result"
    and connected :: "('cb, 'a, 'd, 'z) dispatcher_scheme \<Rightarrow> bool"
  assumes not_connected: "\<not> connected s \<Longrightarrow>
      dispatch cb ns c s = Inr (emit (Post (PostCommandError cb (make_error_code_dispatcher DEC_NOT_CONNECTED))) s)"
    and handed_over: "connected s \<Longrightarrow> disp_inv s \<Longrightarrow> sized c \<Longrightarrow> \<exists>t. dispatch cb ns c s = Inr t \<and> connected t \<and>
      (\<exists>e. out t = out s @ e \<and>
         (map sent e = [Some (stack c)] \<and> cbs t = cbs s @ [(next_cb s, cb)] \<or>
          (\<exists>ec. map sent e = [Some (stack c), None] \<and> error_post cb (last e) = Some ec \<and> ec_bool ec \<and> cbs t = cbs s)))"
    and keeps_connected: "\<not> connected s \<Longrightarrow> \<not> connected (emit e s)"
begin

lemma nothing_sent_while_disconnected:
  assumes "\<not> connected s"
  shows "\<exists>t. for_each (\<lambda>(cb, ns, c). dispatch cb ns c) cmds s = Inr t \<and> \<not> connected t \<and> cbs t = cbs s \<and>
    out t = out s @ map (\<lambda>(cb, ns, c). Post (PostCommandError cb (make_error_code_dispatcher DEC_NOT_CONNECTED))) cmds"
  using assms
proof (induction cmds arbitrary: s)
  case (Cons cmd cmds)
  obtain cb ns c where cmd: "cmd = (cb, ns, c)" by (cases cmd)
  let ?s = "emit (Post (PostCommandError cb (make_error_code_dispatcher DEC_NOT_CONNECTED))) s"
  have "dispatch cb ns c s = Inr ?s" "\<not> connected ?s"
    using not_connected keeps_connected Cons.prems by simp_all
  then show ?case using Cons.IH [of ?s] by (auto simp: cmd emit_def)
qed simp

lemma connected_command:
  assumes "connected s" "disp_inv s" "sized c"
  shows "\<exists>t. dispatch cb ns c s = Inr t \<and> connected t \<and> (\<exists>e. out t = out s @ e \<and> sent (hd e) = Some (stack c))"
proof -
  from handed_over [OF assms, of cb ns] obtain t e where t: "dispatch cb ns c s = Inr t" "connected t"
    "out t = out s @ e" and e: "map sent e = [Some (stack c)] \<or> map sent e = [Some (stack c), None]"
    by (elim exE conjE disjE) auto
  have "sent (hd e) = Some (stack c)" using e by (auto simp: map_eq_Cons_conv)
  with t show ?thesis by auto
qed

end

section \<open>The interface class\<close>

text \<open>\<open>AsyncCommandDispatcher\<close> as its clients see it: the virtual operations on a dispatcher of
  type \<open>'d\<close>, and \<open>create\<close> with its arguments for permanent callbacks and for Sentinel.\<close>

record ('cb, 'a, 'dc, 'd) disp_ops =
  create_op :: "databaseInfo \<Rightarrow> bool \<Rightarrow> bool \<Rightarrow> 'd result"
  dispatch_op :: "'cb \<Rightarrow> namespace \<Rightarrow> contents \<Rightarrow> 'd \<Rightarrow> 'd result"
  wait_op :: "'a \<Rightarrow> 'd \<Rightarrow> 'd"
  register_op :: "'dc \<Rightarrow> 'd \<Rightarrow> 'd"
  disable_op :: "'d \<Rightarrow> 'd"

end
