(* ===== verification/Namespace_Configurations.thy ===== *)
theory Namespace_Configurations
  imports Namespaces "HOL-Library.AList"
begin

text \<open>
  \<open>NamespaceConfigurationsImpl\<close> (\<open>src/namespaceconfigurationsimpl.cpp\<close>): which namespaces use
  the database backend and publish notifications. The state is the vector of configurations,
  whose element 0 is the built-in default, and the lookup table that caches, for each namespace
  asked for, the index of its configuration. The table is \<open>mutable\<close>: the query functions
  return it updated.

  The interface the storages rely on is the locale \<open>namespace_policy\<close>: a query always answers
  by a fixed policy, whatever was asked before.
\<close>

record namespaceConfiguration =
  namespacePrefix :: string
  dbBackendIsUsed :: bool
  notificationsAreEnabled :: bool
  sourceName :: string

definition namespaceConfiguration_eq :: "namespaceConfiguration \<Rightarrow> namespaceConfiguration \<Rightarrow> bool" where
  "namespaceConfiguration_eq a b \<longleftrightarrow>
     namespacePrefix a = namespacePrefix b \<and> dbBackendIsUsed a = dbBackendIsUsed b \<and>
     notificationsAreEnabled a = notificationsAreEnabled b \<and> sourceName a = sourceName b"

record namespaceConfigurationsImpl =
  namespaceConfigurations :: "namespaceConfiguration list"
  namespaceConfigurationsLookupTable :: "(string \<times> nat) list"

definition getDefaultNamespaceConfiguration :: namespaceConfiguration where
  "getDefaultNamespaceConfiguration =
     \<lparr>namespacePrefix = '''', dbBackendIsUsed = True, notificationsAreEnabled = False,
      sourceName = ''<default>''\<rparr>"

definition defaultConfigurationIndex :: nat where
  "defaultConfigurationIndex = 0"

definition NamespaceConfigurationsImpl :: namespaceConfigurationsImpl where
  "NamespaceConfigurationsImpl =
     \<lparr>namespaceConfigurations = [getDefaultNamespaceConfiguration],
      namespaceConfigurationsLookupTable = []\<rparr>"

definition addNamespaceConfiguration ::
  "namespaceConfiguration \<Rightarrow> namespaceConfigurationsImpl \<Rightarrow> namespaceConfigurationsImpl result" where
  "addNamespaceConfiguration nc s =
     (if namespaceConfigurationsLookupTable s \<noteq> []
      then Inl (Abort ''Cannot add namespace configurations after lookup table is initialized'')
      else Inr (s\<lparr>namespaceConfigurations := namespaceConfigurations s @ [nc]\<rparr>))"

text \<open>One iteration of the search loop; the accumulator is
  \<open>(configurationFound, foundIndex, longestMatchingPrefixLen)\<close>.\<close>

definition search_step ::
  "string \<Rightarrow> namespaceConfiguration list \<Rightarrow> nat \<Rightarrow> bool \<times> nat \<times> nat \<Rightarrow> bool \<times> nat \<times> nat" where
  "search_step n cfgs i acc =
     (case acc of (configurationFound, foundIndex, longestMatchingPrefixLen) \<Rightarrow>
        (let prefixLen = length (namespacePrefix (cfgs ! i))
         in if substr 0 prefixLen n = namespacePrefix (cfgs ! i)
            then if longestMatchingPrefixLen \<le> prefixLen then (True, i, prefixLen) else acc
            else acc))"

definition search_index :: "string \<Rightarrow> namespaceConfiguration list \<Rightarrow> nat" where
  "search_index n cfgs =
     (case fold (search_step n cfgs) [defaultConfigurationIndex + 1..<length cfgs] (False, 0, 0) of
        (configurationFound, foundIndex, _) \<Rightarrow>
          if configurationFound then foundIndex else defaultConfigurationIndex)"

definition findConfigurationForNamespace ::
  "string \<Rightarrow> namespaceConfigurationsImpl \<Rightarrow>
   (namespaceConfiguration \<times> namespaceConfigurationsImpl) result" where
  "findConfigurationForNamespace n s =
     (case map_of (namespaceConfigurationsLookupTable s) n of
        Some i \<Rightarrow> rbind (vec_at (namespaceConfigurations s) i) (\<lambda>nc. Inr (nc, s))
      | None \<Rightarrow>
          (let foundIndex = search_index n (namespaceConfigurations s)
           in rbind (vec_index (namespaceConfigurations s) foundIndex)
                (\<lambda>nc. Inr (nc, s\<lparr>namespaceConfigurationsLookupTable :=
                   AList.update n foundIndex (namespaceConfigurationsLookupTable s)\<rparr>))))"

definition isDbBackendUseEnabled ::
  "string \<Rightarrow> namespaceConfigurationsImpl \<Rightarrow> (bool \<times> namespaceConfigurationsImpl) result" where
  "isDbBackendUseEnabled n s =
     rbind (findConfigurationForNamespace n s) (\<lambda>(nc, s'). Inr (dbBackendIsUsed nc, s'))"

definition areNotificationsEnabled ::
  "string \<Rightarrow> namespaceConfigurationsImpl \<Rightarrow> (bool \<times> namespaceConfigurationsImpl) result" where
  "areNotificationsEnabled n s =
     rbind (findConfigurationForNamespace n s) (\<lambda>(nc, s'). Inr (notificationsAreEnabled nc, s'))"

definition getDescription ::
  "string \<Rightarrow> namespaceConfigurationsImpl \<Rightarrow> (string \<times> namespaceConfigurationsImpl) result" where
  "getDescription n s =
     rbind (findConfigurationForNamespace n s)
       (\<lambda>(nc, s').
          let sourceInfo = sourceName nc @
                (if namespacePrefix nc \<noteq> [] then '' prefix: '' @ namespacePrefix nc else [])
          in Inr (sourceInfo @ '', '' @ ''useDbBackend: '' @ show_bool (dbBackendIsUsed nc) @ '', '' @
                  ''enableNotifications: '' @ show_bool (notificationsAreEnabled nc), s'))"

definition isEmpty :: "namespaceConfigurationsImpl \<Rightarrow> bool" where
  "isEmpty s \<longleftrightarrow> length (namespaceConfigurations s) = 1"

definition isNamespaceInLookupTable :: "string \<Rightarrow> namespaceConfigurationsImpl \<Rightarrow> bool" where
  "isNamespaceInLookupTable n s \<longleftrightarrow> map_of (namespaceConfigurationsLookupTable s) n \<noteq> None"

section \<open>Longest matching prefix\<close>

text \<open>What the search is meant to find: index \<open>i\<close> is best for \<open>n\<close> when its prefix is a
  longest configured prefix of \<open>n\<close>, the last one configured if there are several; the default
  is best when no configured prefix matches.\<close>

definition prefix_len :: "namespaceConfiguration list \<Rightarrow> nat \<Rightarrow> nat" where
  "prefix_len cfgs i = length (namespacePrefix (cfgs ! i))"

definition matches :: "string \<Rightarrow> namespaceConfiguration list \<Rightarrow> nat \<Rightarrow> bool" where
  "matches n cfgs i \<longleftrightarrow> take (length (namespacePrefix (cfgs ! i))) n = namespacePrefix (cfgs ! i)"

definition best_upto :: "string \<Rightarrow> namespaceConfiguration list \<Rightarrow> nat \<Rightarrow> nat \<Rightarrow> bool" where
  "best_upto n cfgs m i \<longleftrightarrow>
     0 < i \<and> i < m \<and> matches n cfgs i \<and>
     (\<forall>j. 0 < j \<and> j < m \<and> matches n cfgs j \<longrightarrow>
        prefix_len cfgs j < prefix_len cfgs i \<or> prefix_len cfgs j = prefix_len cfgs i \<and> j \<le> i)"

definition best :: "string \<Rightarrow> namespaceConfiguration list \<Rightarrow> nat \<Rightarrow> bool" where
  "best n cfgs i \<longleftrightarrow>
     (if \<exists>j. 0 < j \<and> j < length cfgs \<and> matches n cfgs j then best_upto n cfgs (length cfgs) i
      else i = 0)"

lemma best_upto_unique:
  assumes "best_upto n cfgs m i" "best_upto n cfgs m j"
  shows "i = j"
proof -
  have "prefix_len cfgs j < prefix_len cfgs i \<or> prefix_len cfgs j = prefix_len cfgs i \<and> j \<le> i"
    "prefix_len cfgs i < prefix_len cfgs j \<or> prefix_len cfgs i = prefix_len cfgs j \<and> i \<le> j"
    using assms unfolding best_upto_def by blast+
  then show ?thesis by linarith
qed

lemma best_unique: "best n cfgs i \<Longrightarrow> best n cfgs j \<Longrightarrow> i = j"
  by (auto simp: best_def split: if_splits dest: best_upto_unique)

lemma best_upto_first:
  "0 < m \<Longrightarrow> matches n cfgs m \<Longrightarrow> \<forall>j. 0 < j \<and> j < m \<longrightarrow> \<not> matches n cfgs j \<Longrightarrow>
   best_upto n cfgs (Suc m) m"
  by (auto simp: best_upto_def less_Suc_eq)

lemma best_upto_longer:
  assumes "best_upto n cfgs m i" "0 < m" "matches n cfgs m" "prefix_len cfgs i \<le> prefix_len cfgs m"
  shows "best_upto n cfgs (Suc m) m"
  unfolding best_upto_def
proof (intro conjI allI impI)
  fix j
  assume j: "0 < j \<and> j < Suc m \<and> matches n cfgs j"
  show "prefix_len cfgs j < prefix_len cfgs m \<or> prefix_len cfgs j = prefix_len cfgs m \<and> j \<le> m"
  proof (cases "j = m")
    case False
    with j assms(1) have
      "prefix_len cfgs j < prefix_len cfgs i \<or> prefix_len cfgs j = prefix_len cfgs i \<and> j \<le> i"
      unfolding best_upto_def by (metis less_SucE)
    with j assms(4) show ?thesis by auto
  qed simp
qed (use assms in auto)

lemma best_upto_keep:
  assumes "best_upto n cfgs m i" "matches n cfgs m \<longrightarrow> prefix_len cfgs m < prefix_len cfgs i"
  shows "best_upto n cfgs (Suc m) i"
  unfolding best_upto_def
proof (intro conjI allI impI)
  fix j
  assume j: "0 < j \<and> j < Suc m \<and> matches n cfgs j"
  show "prefix_len cfgs j < prefix_len cfgs i \<or> prefix_len cfgs j = prefix_len cfgs i \<and> j \<le> i"
    using j assms by (cases "j = m") (auto simp: best_upto_def less_Suc_eq)
qed (use assms in \<open>auto simp: best_upto_def\<close>)

lemma search_step_simps:
  "matches n cfgs i \<Longrightarrow> search_step n cfgs i (found, k, len) =
     (if len \<le> prefix_len cfgs i then (True, i, prefix_len cfgs i) else (found, k, len))"
  "\<not> matches n cfgs i \<Longrightarrow> search_step n cfgs i (found, k, len) = (found, k, len)"
  by (simp_all add: search_step_def matches_def prefix_len_def substr_def)

definition search_inv ::
  "string \<Rightarrow> namespaceConfiguration list \<Rightarrow> nat \<Rightarrow> bool \<times> nat \<times> nat \<Rightarrow> bool" where
  "search_inv n cfgs m acc \<longleftrightarrow>
     (case acc of (found, i, len) \<Rightarrow>
        if found then best_upto n cfgs m i \<and> len = prefix_len cfgs i
        else len = 0 \<and> i = 0 \<and> (\<forall>j. 0 < j \<and> j < m \<longrightarrow> \<not> matches n cfgs j))"

lemma search_inv_step:
  assumes "search_inv n cfgs m acc" "0 < m"
  shows "search_inv n cfgs (Suc m) (search_step n cfgs m acc)"
proof -
  obtain found i len where acc: "acc = (found, i, len)" by (metis prod_cases3)
  show ?thesis
  proof (cases "matches n cfgs m")
    case True
    with assms show ?thesis
      by (auto simp: acc search_inv_def search_step_simps split: if_splits
          intro: best_upto_first best_upto_longer best_upto_keep)
  next
    case False
    with assms show ?thesis
      by (auto simp: acc search_inv_def search_step_simps less_Suc_eq split: if_splits
          intro: best_upto_keep)
  qed
qed

lemma search_fold: "search_inv n cfgs m (fold (search_step n cfgs) [1..<m] (False, 0, 0))"
proof (induction m)
  case (Suc m)
  show ?case
  proof (cases "m = 0")
    case False
    with search_inv_step [OF Suc.IH] show ?thesis by simp
  qed (simp add: search_inv_def)
qed (simp add: search_inv_def)

lemma search_index_best: "best n cfgs (search_index n cfgs)"
proof -
  obtain found i len where acc:
    "fold (search_step n cfgs) [1..<length cfgs] (False, 0, 0) = (found, i, len)"
    by (metis prod_cases3)
  with search_fold [of n cfgs "length cfgs"] show ?thesis
    by (auto simp: search_index_def search_inv_def defaultConfigurationIndex_def best_def
        best_upto_def split: if_splits)
qed

lemma search_index_less: "cfgs \<noteq> [] \<Longrightarrow> search_index n cfgs < length cfgs"
  using search_index_best [of n cfgs] by (auto simp: best_def best_upto_def split: if_splits)

section \<open>The policy interface\<close>

text \<open>What the storages rely on: with a well-formed state a query answers by the policy of the
  state, and leaves a well-formed state with the same policy.\<close>

locale namespace_policy =
  fixes find :: "string \<Rightarrow> 's \<Rightarrow> ('c \<times> 's) result"
    and inv :: "'s \<Rightarrow> bool"
    and policy :: "'s \<Rightarrow> string \<Rightarrow> 'c"
  assumes find_policy:
    "inv s \<Longrightarrow> \<exists>s'. find n s = Inr (policy s n, s') \<and> inv s' \<and> policy s' = policy s"
begin

fun find_all :: "string list \<Rightarrow> 's \<Rightarrow> ('c list \<times> 's) result" where
  "find_all [] s = Inr ([], s)"
| "find_all (n # ns) s =
     rbind (find n s) (\<lambda>(c, s'). rbind (find_all ns s') (\<lambda>(cs, s''). Inr (c # cs, s'')))"

lemma find_all_policy:
  "inv s \<Longrightarrow> \<exists>s'. find_all ns s = Inr (map (policy s) ns, s') \<and> inv s' \<and> policy s' = policy s"
proof (induction ns arbitrary: s)
  case (Cons n ns)
  from find_policy [OF Cons.prems, of n] obtain s1 where s1:
    "find n s = Inr (policy s n, s1)" "inv s1" "policy s1 = policy s" by blast
  from Cons.IH [OF s1(2)] obtain s2 where
    "find_all ns s1 = Inr (map (policy s1) ns, s2)" "inv s2" "policy s2 = policy s1" by blast
  with s1 show ?case by auto
qed simp

lemma find_after_find_all:
  assumes "inv s" "find_all ns s = Inr (cs, s')" "find n s = Inr (c, t)" "find n s' = Inr (c', t')"
  shows "c' = c"
proof -
  from find_all_policy [OF assms(1), of ns] assms(2) have s': "inv s'" "policy s' = policy s"
    by auto
  from find_policy [OF assms(1), of n] assms(3) have "c = policy s n" by auto
  moreover from find_policy [OF s'(1), of n] assms(4) s'(2) have "c' = policy s n" by auto
  ultimately show ?thesis by simp
qed

end

text \<open>The invariant of the cache: every cached index is the one the search would find.\<close>

definition nc_inv :: "namespaceConfigurationsImpl \<Rightarrow> bool" where
  "nc_inv s \<longleftrightarrow> namespaceConfigurations s \<noteq> [] \<and>
     (\<forall>n i. map_of (namespaceConfigurationsLookupTable s) n = Some i \<longrightarrow>
        i = search_index n (namespaceConfigurations s))"

definition nc_policy :: "namespaceConfigurationsImpl \<Rightarrow> string \<Rightarrow> namespaceConfiguration" where
  "nc_policy s n = namespaceConfigurations s ! search_index n (namespaceConfigurations s)"

lemma nc_inv_init: "nc_inv NamespaceConfigurationsImpl"
  by (simp add: nc_inv_def NamespaceConfigurationsImpl_def)

lemma nc_inv_add: "nc_inv s \<Longrightarrow> addNamespaceConfiguration nc s = Inr s' \<Longrightarrow> nc_inv s'"
  by (auto simp: nc_inv_def addNamespaceConfiguration_def split: if_splits)

lemma find_cases:
  assumes "nc_inv s"
  shows "\<exists>s'. findConfigurationForNamespace n s = Inr (nc_policy s n, s') \<and> nc_inv s' \<and>
     namespaceConfigurations s' = namespaceConfigurations s \<and> isNamespaceInLookupTable n s'"
proof (cases "map_of (namespaceConfigurationsLookupTable s) n")
  case None
  with assms search_index_less [of "namespaceConfigurations s" n] show ?thesis
    by (auto simp: findConfigurationForNamespace_def nc_inv_def nc_policy_def vec_index_def
        isNamespaceInLookupTable_def update_conv Let_def)
next
  case (Some i)
  with assms search_index_less [of "namespaceConfigurations s" n] show ?thesis
    by (auto simp: findConfigurationForNamespace_def nc_inv_def nc_policy_def vec_at_def
        isNamespaceInLookupTable_def)
qed

interpretation nc: namespace_policy findConfigurationForNamespace nc_inv nc_policy
proof unfold_locales
  fix s n
  assume "nc_inv s"
  from find_cases [OF this, of n] show "\<exists>s'. findConfigurationForNamespace n s = Inr (nc_policy s n, s') \<and>
      nc_inv s' \<and> nc_policy s' = nc_policy s"
    by (auto simp: nc_policy_def fun_eq_iff)
qed

lemma areNotificationsEnabled_policy:
  "nc_inv s \<Longrightarrow> \<exists>s'. areNotificationsEnabled n s = Inr (notificationsAreEnabled (nc_policy s n), s') \<and>
     nc_inv s' \<and> nc_policy s' = nc_policy s"
  using nc.find_policy [of s n] by (auto simp: areNotificationsEnabled_def)

lemma isDbBackendUseEnabled_policy:
  "nc_inv s \<Longrightarrow> \<exists>s'. isDbBackendUseEnabled n s = Inr (dbBackendIsUsed (nc_policy s n), s') \<and>
     nc_inv s' \<and> nc_policy s' = nc_policy s"
  using nc.find_policy [of s n] by (auto simp: isDbBackendUseEnabled_def)

section \<open>Properties\<close>

text \<open>C13: the configuration returned for a namespace is that of the longest configured prefix of
  the namespace, the one configured last among prefixes of equal length, or the built-in
  default if no configured prefix matches; the result is the same whether it comes from the
  search or from the lookup table.\<close>

theorem find_longest_prefix:
  assumes "nc_inv s"
  shows "\<exists>i s'. findConfigurationForNamespace n s = Inr (namespaceConfigurations s ! i, s') \<and>
     best n (namespaceConfigurations s) i \<and> nc_inv s'"
  using find_cases [OF assms, of n] search_index_best by (auto simp: nc_policy_def)

theorem find_longest_prefix_witness:
  "\<exists>i s'. findConfigurationForNamespace ''abc'' NamespaceConfigurationsImpl =
       Inr (namespaceConfigurations NamespaceConfigurationsImpl ! i, s') \<and>
     best ''abc'' (namespaceConfigurations NamespaceConfigurationsImpl) i \<and> nc_inv s'"
  by (rule find_longest_prefix [OF nc_inv_init])

text \<open>C14: the lookup table is transparent: after any sequence of queries, a query for a
  namespace gives the configuration it gave before them.\<close>

theorem lookup_table_transparent:
  assumes "nc_inv s" "nc.find_all ns s = Inr (cs, s')"
    "findConfigurationForNamespace n s = Inr (c, t)" "findConfigurationForNamespace n s' = Inr (c', t')"
  shows "c' = c \<and> cs = map (nc_policy s) ns"
  using nc.find_after_find_all [OF assms] nc.find_all_policy [OF assms(1), of ns] assms(2) by auto

definition sample_nc :: namespaceConfigurationsImpl where
  "sample_nc = \<lparr>namespaceConfigurations =
     [getDefaultNamespaceConfiguration,
      \<lparr>namespacePrefix = ''ab'', dbBackendIsUsed = True, notificationsAreEnabled = True, sourceName = ''f''\<rparr>,
      \<lparr>namespacePrefix = ''a'', dbBackendIsUsed = False, notificationsAreEnabled = False, sourceName = ''f''\<rparr>],
     namespaceConfigurationsLookupTable = []\<rparr>"

theorem lookup_table_transparent_witness:
  "\<exists>c s' t t'. nc.find_all [''abc'', ''ax''] sample_nc = Inr (map (nc_policy sample_nc) [''abc'', ''ax''], s') \<and>
     findConfigurationForNamespace ''abc'' sample_nc = Inr (c, t) \<and>
     findConfigurationForNamespace ''abc'' s' = Inr (c, t')"
proof -
  have inv: "nc_inv sample_nc" by (simp add: nc_inv_def sample_nc_def)
  obtain s' where all: "nc.find_all [''abc'', ''ax''] sample_nc = Inr (map (nc_policy sample_nc) [''abc'', ''ax''], s')"
    and inv': "nc_inv s'" using nc.find_all_policy [OF inv] by blast
  obtain t where c: "findConfigurationForNamespace ''abc'' sample_nc = Inr (nc_policy sample_nc ''abc'', t)"
    using nc.find_policy [OF inv] by blast
  obtain c' t' where c': "findConfigurationForNamespace ''abc'' s' = Inr (c', t')"
    using nc.find_policy [OF inv'] by blast
  from lookup_table_transparent [OF inv all c c'] all c c' show ?thesis by blast
qed

end
