(* ===== verification/Redis_Storage.thy ===== *)
theory Redis_Storage
  imports Dispatcher_Base Namespace_Configurations
begin

text \<open>
  \<open>AsyncRedisStorage\<close> (\<open>src/redis/asyncredisstorage.cpp\<close>): the storage operations as Redis commands.

  \<open>env\<close> holds what the storages of one library instance share: the namespace configurations with
  their lookup table, and the callbacks given to the engine (\<open>posted\<close>). The calls of the client's
  acknowledgements are recorded in \<open>called\<close>; they are the last thing a callback of the storage
  does, except for \<open>readyAck\<close>, which is cleared after its call.

  The dispatcher is used through \<open>disp_ops\<close>, the discovery through \<open>discovery_ops\<close>. A callback that
  the code binds for the dispatcher is a constructor of \<open>storageCb\<close> or \<open>connectCb\<close>.
\<close>

datatype 'u ack_call =
    CallReady 'u error_code
  | CallModify 'u error_code
  | CallModifyIf 'u error_code bool
  | CallGet 'u error_code dataMap
  | CallFindKeys 'u error_code keys

datatype 'u storageCb =
    ModificationCb 'u
  | ConditionalCb 'u
  | GetCb keys 'u
  | FindKeysCb 'u
  | RemoveAllCb namespace 'u

datatype 'u connectCb = CallThisReadyAck | CallReadyAck 'u

record 'u env =
  ns_confs :: namespaceConfigurationsImpl
  posted :: "'u ack_call list"
  called :: "'u ack_call list"

record 'x discovery_ops =
  set_state_cb :: "'x \<Rightarrow> 'x result"
  clear_state_cb :: "'x \<Rightarrow> 'x"

record ('u, 'd, 'x) redisStorage =
  rs_dispatcher :: "'d option"
  rs_discovery :: "'x option"
  publisherId :: "string option"
  readyAck :: "'u option"
  dbInfo :: "databaseInfo option"

type_synonym ('u, 'd, 'x) storage_state = "'u env \<times> ('u, 'd, 'x) redisStorage"
type_synonym ('u, 'd) storage_disp = "('u storageCb, 'u connectCb, unit, 'd) disp_ops"

section \<open>Reading replies\<close>

text \<open>The bytes of an item: \<open>c_str()\<close> has one byte more than the string, and reading further is
  undefined.\<close>

definition item_bytes :: "dataItem \<Rightarrow> string result" where
  "item_bytes item =
     (if di_len item \<le> length (di_str item) + 1 then Inr (take (di_len item) (di_str item @ [CHR 0x00]))
      else Inl Undefined)"

fun build_data_loop :: "keys \<Rightarrow> nat \<Rightarrow> reply list \<Rightarrow> dataMap \<Rightarrow> dataMap result" where
  "build_data_loop [] i replyVector dataMap = Inr dataMap"
| "build_data_loop (j # js) i replyVector dataMap =
     rbind (vec_index replyVector i) (\<lambda>r.
     rbind (type_is r STRING) (\<lambda>is_string.
       if is_string
       then rbind (item_bytes (getString r)) (\<lambda>str.
              build_data_loop js (i + 1) replyVector (map_insert j (map byte_of_char str) dataMap))
       else build_data_loop js (i + 1) replyVector dataMap))"

definition buildDataMap :: "keys \<Rightarrow> reply list \<Rightarrow> dataMap result" where
  "buildDataMap keys replyVector = build_data_loop keys 0 replyVector []"

text \<open>\<open>npos + 1\<close> is 0: without a separator the whole string is the key.\<close>

definition key_of :: "string \<Rightarrow> key" where
  "key_of str = (case str_find SEPARATOR 0 str of None \<Rightarrow> str | Some res \<Rightarrow> substr_from (res + 1) str)"

definition getKey :: "dataItem \<Rightarrow> key result" where
  "getKey item = rbind (item_bytes item) (\<lambda>str. Inr (key_of str))"

definition getKeys :: "reply list \<Rightarrow> keys result" where
  "getKeys replyVector =
     for_each (\<lambda>i keys. rbind (type_is i STRING) (\<lambda>is_string.
         if is_string then rbind (getKey (getString i)) (\<lambda>k. Inr (set_insert k keys)) else Inr keys))
       replyVector []"

section \<open>Search patterns\<close>

definition redisSearchPatternCharacters :: string where
  "redisSearchPatternCharacters = [CHR ''*'', CHR ''?'', CHR ''['', CHR '']'', CHR 0x5C]"

lemma find_first_of_bounds: "str_find_first_of cs pos s = Some p \<Longrightarrow> pos \<le> p \<and> p < length s"
  by (auto simp: str_find_first_of_def index_of_Some_iff)

function escape_loop :: "string \<Rightarrow> nat \<Rightarrow> string" where
  "escape_loop s pos =
     (case str_find_first_of redisSearchPatternCharacters pos s of
        None \<Rightarrow> s
      | Some foundPosition \<Rightarrow> escape_loop (str_insert foundPosition [CHR 0x5C] s) (foundPosition + 2))"
  by pat_completeness auto
termination
  by (relation "measure (\<lambda>(s, pos). length s - pos)")
    (auto simp: str_insert_def dest!: find_first_of_bounds)

declare escape_loop.simps [simp del]

definition escapeRedisSearchPatternCharacters :: "string \<Rightarrow> string" where
  "escapeRedisSearchPatternCharacters stringToProcess = escape_loop stringToProcess 0"

definition buildKeyPrefixSearchPattern :: "namespace \<Rightarrow> string \<Rightarrow> string" where
  "buildKeyPrefixSearchPattern ns keyPrefix =
     ''{'' @ ns @ ''}'' @ [SEPARATOR] @ escapeRedisSearchPatternCharacters keyPrefix @ ''*''"

definition buildNamespaceKeySearchPattern :: "namespace \<Rightarrow> string \<Rightarrow> string" where
  "buildNamespaceKeySearchPattern ns pattern = ''{'' @ ns @ ''}'' @ [SEPARATOR] @ pattern"

section \<open>Life cycle\<close>

definition post_ack :: "'u ack_call \<Rightarrow> 'u env \<Rightarrow> 'u env" where
  "post_ack a e = e\<lparr>posted := posted e @ [a]\<rparr>"

definition call_ack :: "'u ack_call \<Rightarrow> 'u env \<Rightarrow> 'u env" where
  "call_ack a e = e\<lparr>called := called e @ [a]\<rparr>"

definition AsyncRedisStorage :: "'x discovery_ops \<Rightarrow> 'x \<Rightarrow> string option \<Rightarrow> ('u, 'd, 'x) redisStorage result" where
  "AsyncRedisStorage dops disc pId =
     (if pId = Some [] then Inl (Throw (StdInvalidArgument ''AsyncRedisStorage: empty publisher ID string given''))
      else rbind (set_state_cb dops disc) (\<lambda>disc'. Inr \<lparr>rs_dispatcher = None, rs_discovery = Some disc',
             publisherId = pId, readyAck = None, dbInfo = None\<rparr>))"

definition AsyncRedisStorage_destroy ::
  "('u, 'd) storage_disp \<Rightarrow> 'x discovery_ops \<Rightarrow> ('u, 'd, 'x) redisStorage \<Rightarrow> ('u, 'd, 'x) redisStorage" where
  "AsyncRedisStorage_destroy ops dops s =
     s\<lparr>rs_discovery := map_option (clear_state_cb dops) (rs_discovery s),
       rs_dispatcher := map_option (disable_op ops) (rs_dispatcher s)\<rparr>"

definition getDatabaseInfo :: "('u, 'd, 'x) redisStorage \<Rightarrow> databaseInfo option" where
  "getDatabaseInfo s = dbInfo s"

text \<open>\<open>asyncCommandDispatcherCreator\<close>: no permanent callbacks, not for Sentinel.\<close>

definition serviceStateChanged ::
  "('u, 'd) storage_disp \<Rightarrow> databaseInfo \<Rightarrow> ('u, 'd, 'x) storage_state \<Rightarrow> ('u, 'd, 'x) storage_state result" where
  "serviceStateChanged ops newDatabaseInfo = (\<lambda>(e, s).
     rbind (create_op ops newDatabaseInfo False False) (\<lambda>d.
       let d' = (if readyAck s \<noteq> None then wait_op ops CallThisReadyAck d else d)
       in Inr (e, s\<lparr>rs_dispatcher := Some d', dbInfo := Some newDatabaseInfo\<rparr>)))"

text \<open>What the callbacks given to \<open>waitConnectedAsync\<close> do. Calling an empty function throws.\<close>

definition connected_callback ::
  "'u connectCb \<Rightarrow> ('u, 'd, 'x) storage_state \<Rightarrow> ('u, 'd, 'x) storage_state result" where
  "connected_callback cb = (\<lambda>(e, s).
     case cb of
       CallReadyAck ack \<Rightarrow> Inr (call_ack (CallReady ack no_error) e, s)
     | CallThisReadyAck \<Rightarrow>
         (case readyAck s of
            None \<Rightarrow> Inl (Throw StdBadFunctionCall)
          | Some ack \<Rightarrow> Inr (call_ack (CallReady ack no_error) e, s\<lparr>readyAck := None\<rparr>)))"

definition waitReadyAsync ::
  "('u, 'd) storage_disp \<Rightarrow> namespace \<Rightarrow> 'u \<Rightarrow> ('u, 'd, 'x) storage_state \<Rightarrow> ('u, 'd, 'x) storage_state result" where
  "waitReadyAsync ops ns ack = (\<lambda>(e, s).
     case rs_dispatcher s of
       Some d \<Rightarrow> Inr (e, s\<lparr>rs_dispatcher := Some (wait_op ops (CallReadyAck ack) d)\<rparr>)
     | None \<Rightarrow> Inr (e, s\<lparr>readyAck := Some ack\<rparr>))"

section \<open>Operations\<close>

definition canOperationBePerformed :: "namespace \<Rightarrow> bool option \<Rightarrow> ('u, 'd, 'x) redisStorage \<Rightarrow> bool \<times> error_code" where
  "canOperationBePerformed ns noKeysGiven s =
     (if \<not> isValidNamespace ns then (False, make_error_code_storage SEC_INVALID_NAMESPACE)
      else if noKeysGiven = Some True then (False, no_error)
      else if rs_dispatcher s = None then (False, make_error_code_storage SEC_REDIS_NOT_YET_DISCOVERED)
      else (True, no_error))"

definition NO_PUBLISHER :: string where
  "NO_PUBLISHER = ''shareddatalayer::NO_PUBLISHER''"

definition getPublishMessage :: "('u, 'd, 'x) redisStorage \<Rightarrow> string" where
  "getPublishMessage s = (case publisherId s of Some p \<Rightarrow> p | None \<Rightarrow> NO_PUBLISHER)"

text \<open>\<open>dispatcher->dispatchAsync\<close>; \<open>dispatch_notified\<close> is the choice between the publishing and the
  plain command that the modifying operations make.\<close>

definition dispatch_command ::
  "('u, 'd) storage_disp \<Rightarrow> 'u storageCb \<Rightarrow> namespace \<Rightarrow> contents \<Rightarrow> ('u, 'd, 'x) storage_state \<Rightarrow>
   ('u, 'd, 'x) storage_state result" where
  "dispatch_command ops cb ns c = (\<lambda>(e, s).
     case rs_dispatcher s of
       None \<Rightarrow> Inl Undefined
     | Some d \<Rightarrow> rbind (dispatch_op ops cb ns c d) (\<lambda>d'. Inr (e, s\<lparr>rs_dispatcher := Some d'\<rparr>)))"

definition dispatch_notified ::
  "('u, 'd) storage_disp \<Rightarrow> 'u storageCb \<Rightarrow> namespace \<Rightarrow> contents \<Rightarrow> contents \<Rightarrow> ('u, 'd, 'x) storage_state \<Rightarrow>
   ('u, 'd, 'x) storage_state result" where
  "dispatch_notified ops cb ns published plain = (\<lambda>(e, s).
     rbind (areNotificationsEnabled ns (ns_confs e)) (\<lambda>(enabled, confs).
       dispatch_command ops cb ns (if enabled then published else plain) (e\<lparr>ns_confs := confs\<rparr>, s)))"

definition setAsync ::
  "('u, 'd) storage_disp \<Rightarrow> namespace \<Rightarrow> dataMap \<Rightarrow> 'u \<Rightarrow> ('u, 'd, 'x) storage_state \<Rightarrow> ('u, 'd, 'x) storage_state result" where
  "setAsync ops ns dataMap modifyAck = (\<lambda>(e, s).
     let (ok, ec) = canOperationBePerformed ns (Some (dataMap = [])) s
     in if \<not> ok then Inr (post_ack (CallModify modifyAck ec) e, s)
        else dispatch_notified ops (ModificationCb modifyAck) ns
               (build_map_pub SEPARATOR ''MSETPUB'' ns dataMap ns (getPublishMessage s))
               (build_map SEPARATOR ''MSET'' ns dataMap) (e, s))"

definition setIfAsync ::
  "('u, 'd) storage_disp \<Rightarrow> namespace \<Rightarrow> key \<Rightarrow> data \<Rightarrow> data \<Rightarrow> 'u \<Rightarrow> ('u, 'd, 'x) storage_state \<Rightarrow>
   ('u, 'd, 'x) storage_state result" where
  "setIfAsync ops ns key oldData newData modifyIfAck = (\<lambda>(e, s).
     let (ok, ec) = canOperationBePerformed ns None s
     in if \<not> ok then Inr (post_ack (CallModifyIf modifyIfAck ec False) e, s)
        else dispatch_notified ops (ConditionalCb modifyIfAck) ns
               (build_key_data2_pub SEPARATOR ''SETIEPUB'' ns key newData oldData ns (getPublishMessage s))
               (build_key_data2 SEPARATOR ''SETIE'' ns key newData oldData) (e, s))"

definition removeIfAsync ::
  "('u, 'd) storage_disp \<Rightarrow> namespace \<Rightarrow> key \<Rightarrow> data \<Rightarrow> 'u \<Rightarrow> ('u, 'd, 'x) storage_state \<Rightarrow>
   ('u, 'd, 'x) storage_state result" where
  "removeIfAsync ops ns key data modifyIfAck = (\<lambda>(e, s).
     let (ok, ec) = canOperationBePerformed ns None s
     in if \<not> ok then Inr (post_ack (CallModifyIf modifyIfAck ec False) e, s)
        else dispatch_notified ops (ConditionalCb modifyIfAck) ns
               (build_key_data_pub SEPARATOR ''DELIEPUB'' ns key data ns (getPublishMessage s))
               (build_key_data SEPARATOR ''DELIE'' ns key data) (e, s))"

definition setIfNotExistsAsync ::
  "('u, 'd) storage_disp \<Rightarrow> namespace \<Rightarrow> key \<Rightarrow> data \<Rightarrow> 'u \<Rightarrow> ('u, 'd, 'x) storage_state \<Rightarrow>
   ('u, 'd, 'x) storage_state result" where
  "setIfNotExistsAsync ops ns key data modifyIfAck = (\<lambda>(e, s).
     let (ok, ec) = canOperationBePerformed ns None s
     in if \<not> ok then Inr (post_ack (CallModifyIf modifyIfAck ec False) e, s)
        else dispatch_notified ops (ConditionalCb modifyIfAck) ns
               (build_key_data_pub SEPARATOR ''SETNXPUB'' ns key data ns (getPublishMessage s))
               (build_key_data SEPARATOR ''SETNX'' ns key data) (e, s))"

definition getAsync ::
  "('u, 'd) storage_disp \<Rightarrow> namespace \<Rightarrow> keys \<Rightarrow> 'u \<Rightarrow> ('u, 'd, 'x) storage_state \<Rightarrow> ('u, 'd, 'x) storage_state result" where
  "getAsync ops ns keys getAck = (\<lambda>(e, s).
     let (ok, ec) = canOperationBePerformed ns (Some (keys = [])) s
     in if \<not> ok then Inr (post_ack (CallGet getAck ec []) e, s)
        else dispatch_command ops (GetCb keys getAck) ns (build_keys SEPARATOR ''MGET'' ns keys) (e, s))"

definition removeAsync ::
  "('u, 'd) storage_disp \<Rightarrow> namespace \<Rightarrow> keys \<Rightarrow> 'u \<Rightarrow> ('u, 'd, 'x) storage_state \<Rightarrow> ('u, 'd, 'x) storage_state result" where
  "removeAsync ops ns keys modifyAck = (\<lambda>(e, s).
     let (ok, ec) = canOperationBePerformed ns (Some (keys = [])) s
     in if \<not> ok then Inr (post_ack (CallModify modifyAck ec) e, s)
        else dispatch_notified ops (ModificationCb modifyAck) ns
               (build_keys_pub SEPARATOR ''DELPUB'' ns keys ns (getPublishMessage s))
               (build_keys SEPARATOR ''DEL'' ns keys) (e, s))"

definition findKeys ::
  "('u, 'd) storage_disp \<Rightarrow> namespace \<Rightarrow> string \<Rightarrow> 'u \<Rightarrow> ('u, 'd, 'x) storage_state \<Rightarrow> ('u, 'd, 'x) storage_state result" where
  "findKeys ops ns keyPattern findKeysAck = (\<lambda>(e, s).
     let (ok, ec) = canOperationBePerformed ns None s
     in if \<not> ok then Inr (post_ack (CallFindKeys findKeysAck ec []) e, s)
        else dispatch_command ops (FindKeysCb findKeysAck) ns (build2 ''KEYS'' keyPattern) (e, s))"

definition findKeysAsync ::
  "('u, 'd) storage_disp \<Rightarrow> namespace \<Rightarrow> string \<Rightarrow> 'u \<Rightarrow> ('u, 'd, 'x) storage_state \<Rightarrow> ('u, 'd, 'x) storage_state result" where
  "findKeysAsync ops ns keyPrefix findKeysAck =
     findKeys ops ns (buildKeyPrefixSearchPattern ns keyPrefix) findKeysAck"

definition listKeys ::
  "('u, 'd) storage_disp \<Rightarrow> namespace \<Rightarrow> string \<Rightarrow> 'u \<Rightarrow> ('u, 'd, 'x) storage_state \<Rightarrow> ('u, 'd, 'x) storage_state result" where
  "listKeys ops ns pattern findKeysAck =
     findKeys ops ns (buildNamespaceKeySearchPattern ns pattern) findKeysAck"

definition removeAllAsync ::
  "('u, 'd) storage_disp \<Rightarrow> namespace \<Rightarrow> 'u \<Rightarrow> ('u, 'd, 'x) storage_state \<Rightarrow> ('u, 'd, 'x) storage_state result" where
  "removeAllAsync ops ns modifyAck = (\<lambda>(e, s).
     let (ok, ec) = canOperationBePerformed ns None s
     in if \<not> ok then Inr (post_ack (CallModify modifyAck ec) e, s)
        else dispatch_command ops (RemoveAllCb ns modifyAck) ns
               (build2 ''KEYS'' (buildKeyPrefixSearchPattern ns [])) (e, s))"

section \<open>Replies\<close>

definition modificationCommandCallback ::
  "error_code \<Rightarrow> reply \<Rightarrow> 'u \<Rightarrow> ('u, 'd, 'x) storage_state \<Rightarrow> ('u, 'd, 'x) storage_state result" where
  "modificationCommandCallback error r modifyAck = (\<lambda>(e, s). Inr (call_ack (CallModify modifyAck error) e, s))"

text \<open>The type of the reply is read before the error is looked at; reading the type of a reply of a
  kind that the reply class does not know is undefined.\<close>

definition conditionalCommandCallback ::
  "error_code \<Rightarrow> reply \<Rightarrow> 'u \<Rightarrow> ('u, 'd, 'x) storage_state \<Rightarrow> ('u, 'd, 'x) storage_state result" where
  "conditionalCommandCallback error r modifyIfAck = (\<lambda>(e, s).
     rbind (type_is r NIL) (\<lambda>is_nil. rbind (type_is r INTEGER) (\<lambda>is_int.
       if ec_bool error \<or> is_nil \<or> is_int \<and> getInteger r \<noteq> 1
       then Inr (call_ack (CallModifyIf modifyIfAck error False) e, s)
       else Inr (call_ack (CallModifyIf modifyIfAck error True) e, s))))"

definition getCallback ::
  "keys \<Rightarrow> error_code \<Rightarrow> reply \<Rightarrow> 'u \<Rightarrow> ('u, 'd, 'x) storage_state \<Rightarrow> ('u, 'd, 'x) storage_state result" where
  "getCallback keys error r getAck = (\<lambda>(e, s).
     if ec_bool error then Inr (call_ack (CallGet getAck error []) e, s)
     else rbind (buildDataMap keys (getArray r)) (\<lambda>m. Inr (call_ack (CallGet getAck no_error m) e, s)))"

definition findKeysCallback ::
  "error_code \<Rightarrow> reply \<Rightarrow> 'u \<Rightarrow> ('u, 'd, 'x) storage_state \<Rightarrow> ('u, 'd, 'x) storage_state result" where
  "findKeysCallback error r findKeysAck = (\<lambda>(e, s).
     if ec_bool error then Inr (call_ack (CallFindKeys findKeysAck error []) e, s)
     else rbind (getKeys (getArray r)) (\<lambda>ks. Inr (call_ack (CallFindKeys findKeysAck no_error ks) e, s)))"

definition removeAllCallback ::
  "('u, 'd) storage_disp \<Rightarrow> namespace \<Rightarrow> error_code \<Rightarrow> reply \<Rightarrow> 'u \<Rightarrow> ('u, 'd, 'x) storage_state \<Rightarrow>
   ('u, 'd, 'x) storage_state result" where
  "removeAllCallback ops ns error r modifyAck = (\<lambda>(e, s).
     if ec_bool error then Inr (call_ack (CallModify modifyAck error) e, s)
     else if getArray r = [] then Inr (call_ack (CallModify modifyAck no_error) e, s)
     else rbind (getKeys (getArray r)) (\<lambda>ks. removeAsync ops ns ks modifyAck (e, s)))"

fun storage_reply ::
  "('u, 'd) storage_disp \<Rightarrow> 'u storageCb \<Rightarrow> error_code \<Rightarrow> reply \<Rightarrow> ('u, 'd, 'x) storage_state \<Rightarrow>
   ('u, 'd, 'x) storage_state result" where
  "storage_reply ops (ModificationCb ack) error r = modificationCommandCallback error r ack"
| "storage_reply ops (ConditionalCb ack) error r = conditionalCommandCallback error r ack"
| "storage_reply ops (GetCb keys ack) error r = getCallback keys error r ack"
| "storage_reply ops (FindKeysCb ack) error r = findKeysCallback error r ack"
| "storage_reply ops (RemoveAllCb ns ack) error r = removeAllCallback ops ns error r ack"

section \<open>Keys and patterns\<close>

lemma item_bytes_of [simp]: "item_bytes \<lparr>di_str = s, di_len = length s\<rparr> = Inr s"
  by (simp add: item_bytes_def)

lemma key_of_key_content: "isValidNamespace ns \<Longrightarrow> key_of (key_content SEPARATOR ns k) = k"
proof -
  assume "isValidNamespace ns"
  then have "CHR '','' \<notin> set (''{'' @ ns @ ''}'')" using valid_namespace_chars by auto
  then have "str_find CHR '','' 0 ((''{'' @ ns @ ''}'') @ CHR '','' # k) = Some (length (''{'' @ ns @ ''}''))"
    by (rule str_find_append_sep)
  then show ?thesis by (simp add: key_of_def key_content_def SEPARATOR_def substr_from_def)
qed

interpretation sdl_codec: key_codec isValidNamespace "key_content SEPARATOR" key_of
  by unfold_locales (rule key_of_key_content)

text \<open>Escaping puts a backslash before every pattern character and changes nothing else.\<close>

definition escaped :: "string \<Rightarrow> string" where
  "escaped s = concat (map (\<lambda>c. if c \<in> set redisSearchPatternCharacters then [CHR 0x5C, c] else [c]) s)"

lemma escaped_plain: "set s \<inter> set redisSearchPatternCharacters = {} \<Longrightarrow> escaped s = s"
  by (induction s) (auto simp: escaped_def)

lemma escaped_append: "escaped (s @ t) = escaped s @ escaped t"
  by (simp add: escaped_def)

lemma escape_loop_spec: "pos \<le> length s \<Longrightarrow> escape_loop s pos = take pos s @ escaped (drop pos s)"
proof (induction s pos rule: escape_loop.induct)
  case (1 s pos)
  let ?cs = redisSearchPatternCharacters
  show ?case
  proof (cases "str_find_first_of ?cs pos s")
    case None
    then have "set (drop pos s) \<inter> set ?cs = {}"
      by (auto simp: str_find_first_of_def index_of_None_iff)
    then show ?thesis using None by (simp add: escaped_plain escape_loop.simps [of s pos])
  next
    case (Some p)
    then obtain i where i: "index_of (\<lambda>x. x \<in> set ?cs) (drop pos s) = Some i" "p = pos + i"
      by (auto simp: str_find_first_of_def)
    have p: "p < length s" "s ! p \<in> set ?cs" "set (take i (drop pos s)) \<inter> set ?cs = {}"
      using i by (auto simp: index_of_Some_iff)
    have d: "drop pos s = take i (drop pos s) @ s ! p # drop (Suc p) s"
      using p(1) i(2) by (metis add.commute append_take_drop_id drop_drop Cons_nth_drop_Suc)
    have "escaped (drop pos s) = take i (drop pos s) @ [CHR 0x5C, s ! p] @ escaped (drop (Suc p) s)"
      by (subst d) (simp only: escaped_append escaped_plain [OF p(3)], simp add: escaped_def p(2))
    moreover have "escape_loop s pos = take (p + 2) (str_insert p [CHR 0x5C] s) @ escaped (drop (p + 2) (str_insert p [CHR 0x5C] s))"
      using "1.IH" [OF Some] Some p(1) by (simp add: str_insert_def escape_loop.simps [of s pos])
    moreover have "take (p + 2) (str_insert p [CHR 0x5C] s) = take p s @ [CHR 0x5C, s ! p]"
      "drop (p + 2) (str_insert p [CHR 0x5C] s) = drop (Suc p) s"
      using p(1) by (simp_all add: str_insert_def min_absorb2 take_Suc_conv_app_nth hd_drop_conv_nth take_Suc drop_Suc tl_drop)
    moreover have "take p s = take pos s @ take i (drop pos s)" using i(2) by (simp add: take_add)
    ultimately show ?thesis by simp
  qed
qed

lemma escape_spec: "escapeRedisSearchPatternCharacters s = escaped s"
  by (simp add: escapeRedisSearchPatternCharacters_def escape_loop_spec)

text \<open>What Redis documents of glob-style patterns, as far as the library uses it: a character that
  is not special stands for itself, a backslash makes the next character stand for itself, a
  star matches any string.\<close>

definition glob_ok :: "(string \<Rightarrow> string \<Rightarrow> bool) \<Rightarrow> bool" where
  "glob_ok glob \<longleftrightarrow>
     (\<forall>c p s. c \<notin> set redisSearchPatternCharacters \<longrightarrow> glob (c # p) s = (\<exists>t. s = c # t \<and> glob p t)) \<and>
     (\<forall>c p s. glob (CHR 0x5C # c # p) s = (\<exists>t. s = c # t \<and> glob p t)) \<and>
     (\<forall>p s. glob (CHR ''*'' # p) s = (\<exists>u t. s = u @ t \<and> glob p t)) \<and>
     (\<forall>s. glob [] s = (s = []))"

lemma glob_escaped: "glob_ok glob \<Longrightarrow> glob (escaped x @ p) s \<longleftrightarrow> (\<exists>t. s = x @ t \<and> glob p t)"
proof (induction x arbitrary: s)
  case (Cons c x)
  have "glob (escaped (c # x) @ p) s = (\<exists>t. s = c # t \<and> glob (escaped x @ p) t)"
    using Cons.prems by (cases "c \<in> set redisSearchPatternCharacters") (simp_all add: escaped_def glob_ok_def)
  with Cons show ?case by auto
qed (simp add: escaped_def)

lemma glob_star: "glob_ok glob \<Longrightarrow> glob ''*'' s"
  by (simp add: glob_ok_def)

text \<open>A namespace without pattern characters: the pattern of a key prefix matches exactly the
  database keys of the keys of the namespace that have the prefix.\<close>

lemma prefix_pattern_matches:
  assumes "glob_ok glob" "set ns \<inter> set redisSearchPatternCharacters = {}"
  shows "glob (buildKeyPrefixSearchPattern ns pre) s \<longleftrightarrow> (\<exists>t. s = key_content SEPARATOR ns (pre @ t))"
proof -
  have "set (''{'' @ ns @ ''},'') \<inter> set redisSearchPatternCharacters = {}"
    using assms(2) by (auto simp: redisSearchPatternCharacters_def)
  then have "escaped (''{'' @ ns @ ''},'') = ''{'' @ ns @ ''},''" by (rule escaped_plain)
  then have "buildKeyPrefixSearchPattern ns pre = escaped ((''{'' @ ns @ ''},'') @ pre) @ ''*''"
    unfolding escaped_append [of "''{'' @ ns @ ''},''" pre]
    by (simp add: buildKeyPrefixSearchPattern_def SEPARATOR_def escape_spec)
  then have "glob (buildKeyPrefixSearchPattern ns pre) s = (\<exists>t. s = ((''{'' @ ns @ ''},'') @ pre) @ t \<and> glob ''*'' t)"
    using glob_escaped [OF assms(1), of "(''{'' @ ns @ ''},'') @ pre" "''*''" s] by presburger
  then show ?thesis using glob_star [OF assms(1)] by (simp add: key_content_def SEPARATOR_def)
qed

section \<open>Replies of the database\<close>

definition string_reply :: "string \<Rightarrow> redisReply" where
  "string_reply s = RedisReply REDIS_REPLY_STRING 0 (Some s) []"

definition value_reply :: "string option \<Rightarrow> redisReply" where
  "value_reply v = (case v of None \<Rightarrow> RedisReply REDIS_REPLY_NIL 0 None [] | Some s \<Rightarrow> string_reply s)"

definition array_reply :: "redisReply list \<Rightarrow> redisReply" where
  "array_reply rs = RedisReply REDIS_REPLY_ARRAY 0 None rs"

definition integer_reply :: "int \<Rightarrow> redisReply" where
  "integer_reply i = RedisReply REDIS_REPLY_INTEGER i None []"

definition status_reply :: redisReply where
  "status_reply = RedisReply REDIS_REPLY_STATUS 0 (Some ''OK'') []"

named_theorems reply_defs \<open>the replies of the database\<close>

declare string_reply_def [reply_defs] value_reply_def [reply_defs] array_reply_def [reply_defs]
  integer_reply_def [reply_defs] status_reply_def [reply_defs]

declare AsyncRedisReply.simps [simp del]

lemma reply_parts [simp]:
  "type_is (AsyncRedisReply (string_reply s)) STRING = Inr True"
  "getString (AsyncRedisReply (string_reply s)) = \<lparr>di_str = s, di_len = length s\<rparr>"
  "getArray (AsyncRedisReply (array_reply rs)) = map AsyncRedisReply rs"
  "getRedisError vip en err (Some (string_reply s)) = no_error"
  "getRedisError vip en err (Some (array_reply rs)) = no_error"
  "getRedisError vip en err (Some (value_reply v)) = no_error"
  "getRedisError vip en err (Some (integer_reply i)) = no_error"
  "getRedisError vip en err (Some status_reply) = no_error"
  by (simp_all add: reply_defs reply_of type_is_def getRedisError_def split: option.split)

lemma type_value_reply [simp]: "type_is (AsyncRedisReply (value_reply v)) STRING = Inr (v \<noteq> None)"
  by (cases v) (simp_all add: reply_defs reply_of type_is_def)

lemma value_reply_Some: "value_reply (Some s) = string_reply s"
  by (simp add: value_reply_def)

lemma getKeys_strings:
  "\<exists>ks. getKeys (map (\<lambda>s. AsyncRedisReply (string_reply s)) xs) = Inr ks \<and> key_sorted ks \<and> set ks = key_of ` set xs"
proof -
  let ?g = "\<lambda>s. set_insert (key_of s)"
  have "getKeys (map (\<lambda>s. AsyncRedisReply (string_reply s)) xs) = Inr (fold ?g xs [])"
    unfolding getKeys_def for_each_map by (subst for_each_total [where g = ?g]) (simp_all add: getKey_def)
  moreover have "set (fold ?g ys m) = key_of ` set ys \<union> set m \<and> (key_sorted m \<longrightarrow> key_sorted (fold ?g ys m))" for ys m
    by (induction ys arbitrary: m) auto
  ultimately show ?thesis by (metis sorted_wrt.simps(1) list.set(1) sup_bot.right_neutral)
qed

lemma build_data_loop_values:
  assumes "distinct js" "fst ` set m \<inter> set js = {}" "key_sorted (map fst m)"
  shows "\<exists>dm. build_data_loop js (length pre) (pre @ map (\<lambda>k. AsyncRedisReply (value_reply (f k))) js) m = Inr dm \<and>
    key_sorted (map fst dm) \<and>
    (\<forall>k. map_of dm k = (if k \<in> set js then map_option (map byte_of_char) (f k) else map_of m k))"
  using assms
proof (induction js arbitrary: pre m)
  case (Cons j js)
  let ?r = "\<lambda>k. AsyncRedisReply (value_reply (f k))"
  let ?m = "case f j of None \<Rightarrow> m | Some s \<Rightarrow> map_insert j (map byte_of_char s) m"
  have step: "build_data_loop (j # js) (length pre) (pre @ map ?r (j # js)) m =
    build_data_loop js (length (pre @ [?r j])) ((pre @ [?r j]) @ map ?r js) ?m"
    by (cases "f j") (simp_all add: vec_index_def nth_append value_reply_Some)
  have m: "fst ` set ?m \<inter> set js = {}" "key_sorted (map fst ?m)"
    using Cons.prems by (cases "f j"; auto)+
  have "j \<notin> fst ` set m" using Cons.prems by auto
  then have mo: "map_of ?m k = (if k = j then map_option (map byte_of_char) (f j) else map_of m k)" for k
    by (cases "f j") (auto simp: map_of_map_insert map_of_eq_None_iff)
  obtain dm where "build_data_loop js (length (pre @ [?r j])) ((pre @ [?r j]) @ map ?r js) ?m = Inr dm"
    "key_sorted (map fst dm)"
    "\<forall>k. map_of dm k = (if k \<in> set js then map_option (map byte_of_char) (f k) else map_of ?m k)"
    using Cons.IH [OF _ m, of "pre @ [?r j]"] Cons.prems(1) by auto
  with mo Cons.prems(1) show ?case unfolding step by auto
qed simp

lemma buildDataMap_values:
  assumes "distinct ks"
  shows "\<exists>dm. buildDataMap ks (map (\<lambda>k. AsyncRedisReply (value_reply (f k))) ks) = Inr dm \<and>
    key_sorted (map fst dm) \<and>
    (\<forall>k. map_of dm k = (if k \<in> set ks then map_option (map byte_of_char) (f k) else None))"
proof -
  have "\<exists>dm. build_data_loop ks (length ([] :: reply list)) ([] @ map (\<lambda>k. AsyncRedisReply (value_reply (f k))) ks) [] = Inr dm \<and>
    key_sorted (map fst dm) \<and>
    (\<forall>k. map_of dm k = (if k \<in> set ks then map_option (map byte_of_char) (f k) else map_of [] k))"
    by (rule build_data_loop_values [OF assms]) simp_all
  then show ?thesis unfolding buildDataMap_def by (simp only: map_of.simps list.size append_Nil)
qed

end
