(* ===== verification/Storage_Semantics.thy ===== *)
theory Storage_Semantics
  imports Redis_Storage
begin

text \<open>
  What the storage does to the data. The database is an argument: a function from the argument
  vector of a command and the stored data to the reply and the new data. \<open>redis_ok\<close> is what the
  documentation of Redis, and of the Redis module for the conditional and the publishing
  commands, says of the commands the storage uses; \<open>glob_ok\<close> is the part about patterns.

  The specification is one key-value map per namespace. The refinement theorem says that any
  sequence of operations of \<open>AsyncRedisStorage\<close> on such a database acknowledges what the
  specification returns and leaves the data it says.
\<close>

section \<open>The database\<close>

type_synonym redis = "string list \<Rightarrow> store \<Rightarrow> redisReply \<times> store"

text \<open>A command and its publishing variant, which has the channel and the message at the end.\<close>

definition command_form :: "string \<Rightarrow> string list \<Rightarrow> string list \<Rightarrow> bool" where
  "command_form cmd xs args \<longleftrightarrow> args = cmd # xs \<or> (\<exists>channel msg. args = (cmd @ ''PUB'') # xs @ [channel, msg])"

definition kv_args :: "(string \<times> string) list \<Rightarrow> string list" where
  "kv_args kvs = concat (map (\<lambda>(k, v). [k, v]) kvs)"

definition mset_ok :: "redis \<Rightarrow> bool" where
  "mset_ok redis \<longleftrightarrow> (\<forall>kvs args db. kvs \<noteq> [] \<longrightarrow> command_form ''MSET'' (kv_args kvs) args \<longrightarrow>
     redis args db = (status_reply, fold (\<lambda>(k, v) db. db(k \<mapsto> v)) kvs db))"

definition mget_ok :: "redis \<Rightarrow> bool" where
  "mget_ok redis \<longleftrightarrow> (\<forall>ks db. ks \<noteq> [] \<longrightarrow> redis (''MGET'' # ks) db = (array_reply (map (\<lambda>k. value_reply (db k)) ks), db))"

definition del_ok :: "redis \<Rightarrow> bool" where
  "del_ok redis \<longleftrightarrow> (\<forall>ks args db. ks \<noteq> [] \<longrightarrow> command_form ''DEL'' ks args \<longrightarrow>
     (\<exists>n. redis args db = (integer_reply n, fold (\<lambda>k db. db(k := None)) ks db)))"

definition keys_ok :: "(string \<Rightarrow> string \<Rightarrow> bool) \<Rightarrow> redis \<Rightarrow> bool" where
  "keys_ok glob redis \<longleftrightarrow> (\<forall>p db. finite (dom db) \<longrightarrow>
     (\<exists>xs. redis [''KEYS'', p] db = (array_reply (map string_reply xs), db) \<and> set xs = {k \<in> dom db. glob p k}))"

definition conditional_ok :: "redis \<Rightarrow> bool" where
  "conditional_ok redis \<longleftrightarrow>
     (\<forall>k new old args db. command_form ''SETIE'' [k, new, old] args \<longrightarrow>
        redis args db = (if db k = Some old then (status_reply, db(k \<mapsto> new)) else (value_reply None, db))) \<and>
     (\<forall>k v args db. command_form ''SETNX'' [k, v] args \<longrightarrow>
        redis args db = (if db k = None then (integer_reply 1, db(k \<mapsto> v)) else (integer_reply 0, db))) \<and>
     (\<forall>k v args db. command_form ''DELIE'' [k, v] args \<longrightarrow>
        redis args db = (if db k = Some v then (integer_reply 1, db(k := None)) else (integer_reply 0, db)))"

definition redis_ok :: "(string \<Rightarrow> string \<Rightarrow> bool) \<Rightarrow> redis \<Rightarrow> bool" where
  "redis_ok glob redis \<longleftrightarrow>
     mset_ok redis \<and> mget_ok redis \<and> del_ok redis \<and> keys_ok glob redis \<and> conditional_ok redis"

section \<open>The storage with its database\<close>

text \<open>A dispatcher that is connected and hands over every command: it keeps the commands the
  database has not answered yet, which are answered in order, and the callbacks that wait for the
  connection, which it calls from the engine, as \<open>waitConnectedAsync\<close> of a connected dispatcher does.\<close>

datatype 'u queued = Command "'u storageCb" namespace contents | WaitConnected "'u connectCb"

type_synonym 'u cmds = "'u queued list"

definition recorder :: "('u, 'u cmds) storage_disp" where
  "recorder = \<lparr>create_op = \<lambda>_ _ _. Inr [], dispatch_op = \<lambda>cb n c q. Inr (q @ [Command cb n c]),
     wait_op = \<lambda>cb q. q @ [WaitConnected cb], register_op = \<lambda>_ q. q, disable_op = \<lambda>q. q\<rparr>"

type_synonym ('u, 'x) world = "('u, 'u cmds, 'x) storage_state \<times> store"

text \<open>The database answers the first command; the reply is delivered as \<open>handleReply\<close> of the
  dispatcher does: the callback gets an empty reply when there is an error. The state of the
  context does not matter when there is a reply.\<close>

definition delivered_reply :: "error_code \<Rightarrow> redisReply \<Rightarrow> reply" where
  "delivered_reply ec rr = (if ec_bool ec then AsyncRedisReply_default else AsyncRedisReply rr)"

definition serve1 :: "redis \<Rightarrow> ('u, 'x) world \<Rightarrow> ('u, 'x) world result" where
  "serve1 redis = (\<lambda>((e, s), db).
     case rs_dispatcher s of
       Some (Command cb n c # q) \<Rightarrow>
         rbind (argv c) (\<lambda>args.
           let (rr, db') = redis args db;
               ec = getRedisError False (Errno 0) (REDIS_ERR_VALUE 0) (Some rr)
           in rbind (storage_reply recorder cb ec (delivered_reply ec rr) (e, s\<lparr>rs_dispatcher := Some q\<rparr>))
                (\<lambda>es. Inr (es, db')))
     | Some (WaitConnected cb # q) \<Rightarrow>
         rbind (connected_callback cb (e, s\<lparr>rs_dispatcher := Some q\<rparr>)) (\<lambda>es. Inr (es, db))
     | _ \<Rightarrow> Inr ((e, s), db))"

text \<open>The client's operations as values.\<close>

datatype 'u request =
    Set namespace dataMap 'u
  | SetIf namespace key data data 'u
  | SetIfNotExists namespace key data 'u
  | Get namespace keys 'u
  | Remove namespace keys 'u
  | RemoveIf namespace key data 'u
  | FindKeys namespace string 'u
  | ListKeys namespace string 'u
  | RemoveAll namespace 'u

fun perform :: "('u, 'd) storage_disp \<Rightarrow> 'u request \<Rightarrow> ('u, 'd, 'x) storage_state \<Rightarrow> ('u, 'd, 'x) storage_state result" where
  "perform ops (Set n m a) = setAsync ops n m a"
| "perform ops (SetIf n k old new a) = setIfAsync ops n k old new a"
| "perform ops (SetIfNotExists n k d a) = setIfNotExistsAsync ops n k d a"
| "perform ops (Get n ks a) = getAsync ops n ks a"
| "perform ops (Remove n ks a) = removeAsync ops n ks a"
| "perform ops (RemoveIf n k d a) = removeIfAsync ops n k d a"
| "perform ops (FindKeys n p a) = findKeysAsync ops n p a"
| "perform ops (ListKeys n p a) = listKeys ops n p a"
| "perform ops (RemoveAll n a) = removeAllAsync ops n a"

text \<open>One operation, and the database answers: at most two commands, for \<open>removeAllAsync\<close>.\<close>

definition run1 :: "redis \<Rightarrow> 'u request \<Rightarrow> ('u, 'x) world \<Rightarrow> ('u, 'x) world result" where
  "run1 redis r = (\<lambda>(es, db). rbind (perform recorder r es) (\<lambda>es'. rbind (serve1 redis (es', db)) (serve1 redis)))"

definition run :: "redis \<Rightarrow> 'u request list \<Rightarrow> ('u, 'x) world \<Rightarrow> ('u, 'x) world result" where
  "run redis rs = for_each (run1 redis) rs"

section \<open>The specification\<close>

type_synonym kv_maps = "namespace \<Rightarrow> key \<Rightarrow> data option"

fun spec1 :: "(string \<Rightarrow> string \<Rightarrow> bool) \<Rightarrow> 'u request \<Rightarrow> kv_maps \<Rightarrow> 'u ack_call \<times> kv_maps" where
  "spec1 glob (Set n m a) A = (CallModify a no_error, A(n := A n ++ map_of m))"
| "spec1 glob (SetIf n k old new a) A =
     (if A n k = Some old then (CallModifyIf a no_error True, A(n := (A n)(k \<mapsto> new)))
      else (CallModifyIf a no_error False, A))"
| "spec1 glob (SetIfNotExists n k d a) A =
     (if A n k = None then (CallModifyIf a no_error True, A(n := (A n)(k \<mapsto> d)))
      else (CallModifyIf a no_error False, A))"
| "spec1 glob (Get n ks a) A =
     (CallGet a no_error (map (\<lambda>k. (k, the (A n k))) (filter (\<lambda>k. A n k \<noteq> None) ks)), A)"
| "spec1 glob (Remove n ks a) A = (CallModify a no_error, A(n := (A n) |` (- set ks)))"
| "spec1 glob (RemoveIf n k d a) A =
     (if A n k = Some d then (CallModifyIf a no_error True, A(n := (A n)(k := None)))
      else (CallModifyIf a no_error False, A))"
| "spec1 glob (FindKeys n p a) A =
     (CallFindKeys a no_error (sorted_list_of_set {k \<in> dom (A n). \<exists>t. k = p @ t}), A)"
| "spec1 glob (ListKeys n p a) A =
     (CallFindKeys a no_error (sorted_list_of_set {k \<in> dom (A n). glob p k}), A)"
| "spec1 glob (RemoveAll n a) A = (CallModify a no_error, A(n := Map.empty))"

fun spec :: "(string \<Rightarrow> string \<Rightarrow> bool) \<Rightarrow> 'u request list \<Rightarrow> kv_maps \<Rightarrow> 'u ack_call list \<times> kv_maps" where
  "spec glob [] A = ([], A)"
| "spec glob (r # rs) A = (let (c, A') = spec1 glob r A; (cs, A'') = spec glob rs A' in (c # cs, A''))"

text \<open>Operations as clients make them: a valid namespace, keys as \<open>std::set\<close> and \<open>std::map\<close> have
  them, at least one. Namespaces of operations that use patterns have no pattern characters.\<close>

definition plain :: "namespace \<Rightarrow> bool" where
  "plain n \<longleftrightarrow> set n \<inter> set redisSearchPatternCharacters = {}"

fun request_ok :: "'u request \<Rightarrow> bool" where
  "request_ok (Set n m a) \<longleftrightarrow> isValidNamespace n \<and> m \<noteq> [] \<and> key_sorted (map fst m)"
| "request_ok (SetIf n k old new a) \<longleftrightarrow> isValidNamespace n"
| "request_ok (SetIfNotExists n k d a) \<longleftrightarrow> isValidNamespace n"
| "request_ok (Get n ks a) \<longleftrightarrow> isValidNamespace n \<and> ks \<noteq> [] \<and> key_sorted ks"
| "request_ok (Remove n ks a) \<longleftrightarrow> isValidNamespace n \<and> ks \<noteq> [] \<and> key_sorted ks"
| "request_ok (RemoveIf n k d a) \<longleftrightarrow> isValidNamespace n"
| "request_ok (FindKeys n p a) \<longleftrightarrow> isValidNamespace n \<and> plain n"
| "request_ok (ListKeys n p a) \<longleftrightarrow> isValidNamespace n \<and> plain n"
| "request_ok (RemoveAll n a) \<longleftrightarrow> isValidNamespace n \<and> plain n"

fun request_ns :: "'u request \<Rightarrow> namespace" where
  "request_ns (Set n m a) = n"
| "request_ns (SetIf n k old new a) = n"
| "request_ns (SetIfNotExists n k d a) = n"
| "request_ns (Get n ks a) = n"
| "request_ns (Remove n ks a) = n"
| "request_ns (RemoveIf n k d a) = n"
| "request_ns (FindKeys n p a) = n"
| "request_ns (ListKeys n p a) = n"
| "request_ns (RemoveAll n a) = n"

text \<open>What the database holds for the namespaces.\<close>

definition sdl_view :: "store \<Rightarrow> kv_maps" where
  "sdl_view db n k = (if isValidNamespace n then map_option (map byte_of_char) (db (key_content SEPARATOR n k)) else None)"

definition world_ok :: "('u, 'x) world \<Rightarrow> bool" where
  "world_ok = (\<lambda>((e, s), db). nc_inv (ns_confs e) \<and> rs_dispatcher s = Some [] \<and> finite (dom db))"

section \<open>Reading the database through the namespaces\<close>

abbreviation enc :: "namespace \<Rightarrow> key \<Rightarrow> string" where
  "enc \<equiv> key_content SEPARATOR"

lemma sdl_view_view: "sdl_view db n k = (if isValidNamespace n then map_option (map byte_of_char) (view enc db n k) else None)"
  by (simp add: sdl_view_def view_def)

lemma bytes_data_string [simp]: "map (byte_of_char \<circ> char_of_byte) d = d"
  by (simp add: o_def byte_simps)

lemma bytes_eq_iff: "map byte_of_char s = d \<longleftrightarrow> s = data_string d"
proof
  assume "map byte_of_char s = d"
  then have "data_string d = map (char_of_byte \<circ> byte_of_char) s" by auto
  then show "s = data_string d" by (simp add: o_def byte_simps)
next
  assume "s = data_string d"
  then show "map byte_of_char s = d" by simp
qed

lemma view_data_iff: "isValidNamespace n \<Longrightarrow> sdl_view db n k = Some d \<longleftrightarrow> db (enc n k) = Some (data_string d)"
  by (auto simp: sdl_view_def bytes_eq_iff)

lemma view_None_iff: "isValidNamespace n \<Longrightarrow> sdl_view db n k = None \<longleftrightarrow> db (enc n k) = None"
  by (simp add: sdl_view_def)

lemma sdl_view_put:
  assumes "isValidNamespace n" "distinct (map fst m)"
  shows "sdl_view (put_all enc n m db) = (sdl_view db)(n := sdl_view db n ++ map_of m)"
proof (intro ext)
  fix n' k
  show "sdl_view (put_all enc n m db) n' k = ((sdl_view db)(n := sdl_view db n ++ map_of m)) n' k"
    using assms sdl_keys.view_put_all [OF assms, of db k] sdl_keys.view_put_other [OF assms(1), of n' m db k]
    by (cases "n' = n"; cases "map_of m k") (auto simp: sdl_view_view map_add_def)
qed

lemma sdl_view_del:
  assumes "isValidNamespace n"
  shows "sdl_view (del_all enc n ks db) = (sdl_view db)(n := sdl_view db n |` (- set ks))"
proof (intro ext)
  fix n' k
  show "sdl_view (del_all enc n ks db) n' k = ((sdl_view db)(n := sdl_view db n |` (- set ks))) n' k"
    using assms sdl_keys.view_del_all [OF assms, of ks db k] sdl_keys.view_del_other [OF assms(1), of n' ks db k]
    by (cases "n' = n") (auto simp: sdl_view_view restrict_map_def)
qed

lemma sdl_view_put1:
  "isValidNamespace n \<Longrightarrow> sdl_view (db(enc n k \<mapsto> data_string d)) = (sdl_view db)(n := (sdl_view db n)(k \<mapsto> d))"
  using sdl_view_put [of n "[(k, d)]" db] by (simp add: put_all_def)

lemma sdl_view_del1:
  "isValidNamespace n \<Longrightarrow> sdl_view (db(enc n k := None)) = (sdl_view db)(n := (sdl_view db n)(k := None))"
proof -
  assume "isValidNamespace n"
  moreover have "f |` (- {k}) = f(k := None)" for f :: "key \<Rightarrow> data option"
    by (auto simp: restrict_map_def fun_eq_iff)
  ultimately show ?thesis using sdl_view_del [of n "[k]" db] by (simp add: del_all_def)
qed

lemma finite_dom_put_all: "finite (dom db) \<Longrightarrow> finite (dom (put_all enc n m db))"
  unfolding put_all_def by (induction m arbitrary: db) auto

lemma finite_dom_del_all: "finite (dom db) \<Longrightarrow> finite (dom (del_all enc n ks db))"
  unfolding del_all_def by (induction ks arbitrary: db) auto

lemma finite_dom_view: "finite (dom db) \<Longrightarrow> finite (dom (sdl_view db n))"
proof (cases "isValidNamespace n")
  case True
  assume "finite (dom db)"
  moreover have "dom (sdl_view db n) \<subseteq> key_of ` dom db"
  proof
    fix k
    assume "k \<in> dom (sdl_view db n)"
    then have "enc n k \<in> dom db" "key_of (enc n k) = k" using True sdl_codec.dec_enc by (auto simp: sdl_view_def dom_def)
    then show "k \<in> key_of ` dom db" by (metis imageI)
  qed
  ultimately show ?thesis using finite_surj by blast
qed (simp add: sdl_view_def dom_def)

text \<open>The keys found by a pattern that matches exactly the database keys of the keys with \<open>Q\<close>.\<close>

lemma found_keys:
  assumes "isValidNamespace n" "finite (dom db)" "set xs = {x \<in> dom db. \<exists>k. x = enc n k \<and> Q k}"
  shows "getKeys (map (\<lambda>s. AsyncRedisReply (string_reply s)) xs) =
    Inr (sorted_list_of_set {k \<in> dom (sdl_view db n). Q k})"
proof -
  obtain ks where ks: "getKeys (map (\<lambda>s. AsyncRedisReply (string_reply s)) xs) = Inr ks" "key_sorted ks"
    "set ks = key_of ` set xs" using getKeys_strings by blast
  have "key_of ` set xs = {k \<in> dom (sdl_view db n). Q k}"
    using sdl_codec.dec_enc [OF assms(1)] assms(1) by (force simp: assms(3) sdl_view_def dom_def image_iff)
  moreover have "finite {k \<in> dom (sdl_view db n). Q k}" using finite_dom_view [OF assms(2)] by simp
  ultimately have "ks = sorted_list_of_set {k \<in> dom (sdl_view db n). Q k}"
    using ks(2,3) by (intro key_sorted_unique) simp_all
  with ks(1) show ?thesis by simp
qed

text \<open>The data map that a reply to \<open>MGET\<close> gives is the one of the specification.\<close>

lemma got_data:
  assumes "isValidNamespace n" "key_sorted ks"
  shows "buildDataMap ks (map (\<lambda>k. AsyncRedisReply (value_reply (db (enc n k)))) ks) =
    Inr (map (\<lambda>k. (k, the (sdl_view db n k))) (filter (\<lambda>k. sdl_view db n k \<noteq> None) ks))"
proof -
  let ?m = "map (\<lambda>k. (k, the (sdl_view db n k))) (filter (\<lambda>k. sdl_view db n k \<noteq> None) ks)"
  have "distinct ks" using assms(2) by (rule key_sorted_distinct)
  from buildDataMap_values [OF this, of "\<lambda>k. db (enc n k)"] obtain dm where
    dm: "buildDataMap ks (map (\<lambda>k. AsyncRedisReply (value_reply (db (enc n k)))) ks) = Inr dm" "key_sorted (map fst dm)"
    "\<And>k. map_of dm k = (if k \<in> set ks then sdl_view db n k else None)"
    using assms(1) by (auto simp: sdl_view_def)
  have m: "map fst ?m = filter (\<lambda>k. sdl_view db n k \<noteq> None) ks" by (simp add: o_def)
  have "key_sorted (map fst ?m)" unfolding m using assms(2) by (rule sorted_wrt_filter)
  moreover have "map_of ?m k = (if k \<in> set ks then sdl_view db n k else None)" for k
    by (auto simp: map_of_map_restrict [of "\<lambda>k. the (sdl_view db n k)"] restrict_map_def)
  ultimately have "dm = ?m" using dm(2,3) by (intro map_determined) auto
  with dm(1) show ?thesis by simp
qed

section \<open>One command and its reply\<close>

lemma recorder_dispatch:
  "rs_dispatcher s = Some q \<Longrightarrow> dispatch_command recorder cb n c (e, s) = Inr (e, s\<lparr>rs_dispatcher := Some (q @ [Command cb n c])\<rparr>)"
  by (simp add: dispatch_command_def recorder_def)

lemma recorder_notified:
  assumes "nc_inv (ns_confs e)" "rs_dispatcher s = Some q" "sized published" "sized unpublished"
    "command_form cmd xs (stack published)" "command_form cmd xs (stack unpublished)"
  obtains confs c where "nc_inv confs" "sized c" "command_form cmd xs (stack c)"
    "dispatch_notified recorder cb n published unpublished (e, s) =
       Inr (e\<lparr>ns_confs := confs\<rparr>, s\<lparr>rs_dispatcher := Some (q @ [Command cb n c])\<rparr>)"
proof -
  obtain b confs where "areNotificationsEnabled n (ns_confs e) = Inr (b, confs)" "nc_inv confs"
    using areNotificationsEnabled_policy [OF assms(1), of n] by auto
  then show thesis using assms(2-) that [of confs "if b then published else unpublished"]
    by (simp add: dispatch_notified_def recorder_dispatch)
qed

lemma published_form:
  "command_form cmd xs (stack c) \<longleftrightarrow> stack c = cmd # xs \<or> (\<exists>ch msg. stack c = (cmd @ ''PUB'') # xs @ [ch, msg])"
  by (simp add: command_form_def)

lemma serve1_idle: "rs_dispatcher s = Some [] \<Longrightarrow> serve1 redis ((e, s), db) = Inr ((e, s), db)"
  by (simp add: serve1_def)

lemma serve1_first:
  assumes "rs_dispatcher s = Some (Command cb n c # q)" "sized c" "redis (stack c) db = (rr, db')"
    "rr_type rr \<noteq> REDIS_REPLY_ERROR"
  shows "serve1 redis ((e, s), db) =
    rbind (storage_reply recorder cb no_error (AsyncRedisReply rr) (e, s\<lparr>rs_dispatcher := Some q\<rparr>)) (\<lambda>es. Inr (es, db'))"
  using assms by (simp add: serve1_def argv_sized getRedisError_def delivered_reply_def)

lemma reply_types [simp]:
  "rr_type (string_reply s) = REDIS_REPLY_STRING" "rr_type (array_reply rs) = REDIS_REPLY_ARRAY"
  "rr_type (integer_reply i) = REDIS_REPLY_INTEGER" "rr_type status_reply = REDIS_REPLY_STATUS"
  "rr_type (value_reply v) \<noteq> REDIS_REPLY_ERROR"
  by (simp_all add: reply_defs split: option.split)

lemma conditional_replies:
  "conditionalCommandCallback no_error (AsyncRedisReply status_reply) a (e, s) = Inr (call_ack (CallModifyIf a no_error True) e, s)"
  "conditionalCommandCallback no_error (AsyncRedisReply (value_reply None)) a (e, s) = Inr (call_ack (CallModifyIf a no_error False) e, s)"
  "conditionalCommandCallback no_error (AsyncRedisReply (integer_reply i)) a (e, s) = Inr (call_ack (CallModifyIf a no_error (i = 1)) e, s)"
  by (simp_all add: conditionalCommandCallback_def type_is_def reply_of reply_defs)

text \<open>What a request of one command has to do.\<close>

definition answers_once :: "(string \<Rightarrow> string \<Rightarrow> bool) \<Rightarrow> redis \<Rightarrow> 'u request \<Rightarrow> ('u, 'x) world \<Rightarrow> bool" where
  "answers_once glob redis r = (\<lambda>((e, s), db). \<exists>e' s' db'. rbind (perform recorder r (e, s)) (\<lambda>es. serve1 redis (es, db)) = Inr ((e', s'), db') \<and>
     world_ok ((e', s'), db') \<and> posted e' = posted e \<and>
     called e' = called e @ [fst (spec1 glob r (sdl_view db))] \<and> sdl_view db' = snd (spec1 glob r (sdl_view db)))"

text \<open>A request whose only command is acknowledged by its reply.\<close>

lemma answers_onceI:
  assumes w: "world_ok ((e, s), db)"
    and req: "perform recorder r (e, s) = Inr (e\<lparr>ns_confs := confs\<rparr>, s\<lparr>rs_dispatcher := Some [Command cb n c]\<rparr>)"
    and c: "nc_inv confs" "sized c"
    and rr: "redis (stack c) db = (rr, db')" "rr_type rr \<noteq> REDIS_REPLY_ERROR" "finite (dom db')"
    and ack: "storage_reply recorder cb no_error (AsyncRedisReply rr) (e\<lparr>ns_confs := confs\<rparr>, s\<lparr>rs_dispatcher := Some []\<rparr>) =
      Inr (call_ack ack (e\<lparr>ns_confs := confs\<rparr>), s\<lparr>rs_dispatcher := Some []\<rparr>)"
    and spec: "spec1 glob r (sdl_view db) = (ack, sdl_view db')"
  shows "answers_once glob redis r ((e, s), db)"
proof -
  let ?e = "call_ack ack (e\<lparr>ns_confs := confs\<rparr>)" and ?s = "s\<lparr>rs_dispatcher := Some []\<rparr>"
  have "rbind (perform recorder r (e, s)) (\<lambda>es. serve1 redis (es, db)) = Inr ((?e, ?s), db')"
    using req c rr ack by (simp add: serve1_first)
  moreover have "world_ok ((?e, ?s), db')" using c rr by (simp add: world_ok_def call_ack_def)
  moreover have "posted ?e = posted e" "called ?e = called e @ [ack]" by (simp_all add: call_ack_def)
  ultimately show ?thesis unfolding answers_once_def spec split fst_conv snd_conv by blast
qed

section \<open>The operations refine the specification\<close>

lemma world_okD:
  assumes "world_ok ((e, s), db)"
  shows "nc_inv (ns_confs e)" "rs_dispatcher s = Some []" "finite (dom db)"
  using assms by (simp_all add: world_ok_def)

lemma canOperationBePerformed_True:
  "isValidNamespace n \<Longrightarrow> rs_dispatcher s = Some q \<Longrightarrow> empty_input \<noteq> Some True \<Longrightarrow>
     canOperationBePerformed n empty_input s = (True, no_error)"
  by (simp add: canOperationBePerformed_def)

lemma kv_args_map: "kv_args (map (\<lambda>(k, d). (f k, g d)) m) = concat (map (\<lambda>(k, d). [f k, g d]) m)"
  by (induction m) (auto simp: kv_args_def)

lemma fold_put: "fold (\<lambda>(k, v) db. db(k \<mapsto> v)) (map (\<lambda>(k, d). (enc n k, data_string d)) m) db = put_all enc n m db"
  unfolding put_all_def by (induction m arbitrary: db) auto

lemma fold_del: "fold (\<lambda>k db. db(k := None)) (map (enc n) ks) db = del_all enc n ks db"
  unfolding del_all_def by (induction ks arbitrary: db) auto

text \<open>The commands of the storage, as the database executes them.\<close>

lemma redis_commands:
  assumes "redis_ok glob redis"
  shows "m \<noteq> [] \<Longrightarrow> command_form ''MSET'' (kv_args (map (\<lambda>(k, d). (enc n k, data_string d)) m)) args \<Longrightarrow>
      redis args db = (status_reply, put_all enc n m db)"
    and "ks \<noteq> [] \<Longrightarrow> redis (''MGET'' # map (enc n) ks) db = (array_reply (map (\<lambda>k. value_reply (db (enc n k))) ks), db)"
    and "ks \<noteq> [] \<Longrightarrow> command_form ''DEL'' (map (enc n) ks) args \<Longrightarrow>
      \<exists>i. redis args db = (integer_reply i, del_all enc n ks db)"
    and "finite (dom db) \<Longrightarrow> \<exists>xs. redis [''KEYS'', p] db = (array_reply (map string_reply xs), db) \<and> set xs = {k \<in> dom db. glob p k}"
    and "command_form ''SETIE'' [k, new, old] args \<Longrightarrow>
      redis args db = (if db k = Some old then (status_reply, db(k \<mapsto> new)) else (value_reply None, db))"
    and "command_form ''SETNX'' [k, v] args \<Longrightarrow>
      redis args db = (if db k = None then (integer_reply 1, db(k \<mapsto> v)) else (integer_reply 0, db))"
    and "command_form ''DELIE'' [k, v] args \<Longrightarrow>
      redis args db = (if db k = Some v then (integer_reply 1, db(k := None)) else (integer_reply 0, db))"
proof -
  note ok = assms [unfolded redis_ok_def]
  show "redis args db = (status_reply, put_all enc n m db)"
    if "m \<noteq> []" "command_form ''MSET'' (kv_args (map (\<lambda>(k, d). (enc n k, data_string d)) m)) args"
  proof -
    from that(1) have "map (\<lambda>(k, d). (enc n k, data_string d)) m \<noteq> []" by simp
    with ok that(2) show ?thesis unfolding mset_ok_def fold_put [symmetric] by blast
  qed
  show "ks \<noteq> [] \<Longrightarrow> redis (''MGET'' # map (enc n) ks) db = (array_reply (map (\<lambda>k. value_reply (db (enc n k))) ks), db)"
    using ok by (simp add: mget_ok_def o_def)
  show "\<exists>i. redis args db = (integer_reply i, del_all enc n ks db)"
    if "ks \<noteq> []" "command_form ''DEL'' (map (enc n) ks) args"
  proof -
    from that(1) have "map (enc n) ks \<noteq> []" by simp
    with ok that(2) show ?thesis unfolding del_ok_def fold_del [symmetric] by blast
  qed
  show "finite (dom db) \<Longrightarrow> \<exists>xs. redis [''KEYS'', p] db = (array_reply (map string_reply xs), db) \<and> set xs = {k \<in> dom db. glob p k}"
    using ok by (simp add: keys_ok_def)
  show "command_form ''SETIE'' [k, new, old] args \<Longrightarrow>
      redis args db = (if db k = Some old then (status_reply, db(k \<mapsto> new)) else (value_reply None, db))"
    "command_form ''SETNX'' [k, v] args \<Longrightarrow>
      redis args db = (if db k = None then (integer_reply 1, db(k \<mapsto> v)) else (integer_reply 0, db))"
    "command_form ''DELIE'' [k, v] args \<Longrightarrow>
      redis args db = (if db k = Some v then (integer_reply 1, db(k := None)) else (integer_reply 0, db))"
    using ok by (simp_all add: conditional_ok_def)
qed

text \<open>What a storage needs for the operations of one namespace: the database executes the commands on
  the keys of the namespace, and searches with patterns that match no other keys. A cluster does
  this for a namespace although each of its nodes holds a part of the keys only.\<close>

definition serves :: "(string \<Rightarrow> string \<Rightarrow> bool) \<Rightarrow> redis \<Rightarrow> namespace \<Rightarrow> bool" where
  "serves glob redis n \<longleftrightarrow>
     (\<forall>m args db. m \<noteq> [] \<longrightarrow> command_form ''MSET'' (kv_args (map (\<lambda>(k, d). (enc n k, data_string d)) m)) args \<longrightarrow>
        redis args db = (status_reply, put_all enc n m db)) \<and>
     (\<forall>ks db. ks \<noteq> [] \<longrightarrow> redis (''MGET'' # map (enc n) ks) db = (array_reply (map (\<lambda>k. value_reply (db (enc n k))) ks), db)) \<and>
     (\<forall>ks args db. ks \<noteq> [] \<longrightarrow> command_form ''DEL'' (map (enc n) ks) args \<longrightarrow>
        (\<exists>i. redis args db = (integer_reply i, del_all enc n ks db))) \<and>
     (\<forall>p db. finite (dom db) \<longrightarrow> (\<forall>x. glob p x \<longrightarrow> (\<exists>k. x = enc n k)) \<longrightarrow>
        (\<exists>xs. redis [''KEYS'', p] db = (array_reply (map string_reply xs), db) \<and> set xs = {k \<in> dom db. glob p k})) \<and>
     (\<forall>k new old args db. command_form ''SETIE'' [enc n k, new, old] args \<longrightarrow>
        redis args db = (if db (enc n k) = Some old then (status_reply, db(enc n k \<mapsto> new)) else (value_reply None, db))) \<and>
     (\<forall>k v args db. command_form ''SETNX'' [enc n k, v] args \<longrightarrow>
        redis args db = (if db (enc n k) = None then (integer_reply 1, db(enc n k \<mapsto> v)) else (integer_reply 0, db))) \<and>
     (\<forall>k v args db. command_form ''DELIE'' [enc n k, v] args \<longrightarrow>
        redis args db = (if db (enc n k) = Some v then (integer_reply 1, db(enc n k := None)) else (integer_reply 0, db)))"

lemma servesD:
  assumes "serves glob redis n"
  shows "m \<noteq> [] \<Longrightarrow> command_form ''MSET'' (kv_args (map (\<lambda>(k, d). (enc n k, data_string d)) m)) args \<Longrightarrow>
      redis args db = (status_reply, put_all enc n m db)"
    and "ks \<noteq> [] \<Longrightarrow> redis (''MGET'' # map (enc n) ks) db = (array_reply (map (\<lambda>k. value_reply (db (enc n k))) ks), db)"
    and "ks \<noteq> [] \<Longrightarrow> command_form ''DEL'' (map (enc n) ks) args \<Longrightarrow>
      \<exists>i. redis args db = (integer_reply i, del_all enc n ks db)"
    and "finite (dom db) \<Longrightarrow> (\<And>x. glob p x \<Longrightarrow> \<exists>k. x = enc n k) \<Longrightarrow>
      \<exists>xs. redis [''KEYS'', p] db = (array_reply (map string_reply xs), db) \<and> set xs = {k \<in> dom db. glob p k}"
    and "command_form ''SETIE'' [enc n k, new, old] args \<Longrightarrow>
      redis args db = (if db (enc n k) = Some old then (status_reply, db(enc n k \<mapsto> new)) else (value_reply None, db))"
    and "command_form ''SETNX'' [enc n k, v] args \<Longrightarrow>
      redis args db = (if db (enc n k) = None then (integer_reply 1, db(enc n k \<mapsto> v)) else (integer_reply 0, db))"
    and "command_form ''DELIE'' [enc n k, v] args \<Longrightarrow>
      redis args db = (if db (enc n k) = Some v then (integer_reply 1, db(enc n k := None)) else (integer_reply 0, db))"
  by (rule assms [unfolded serves_def, THEN conjunct1, rule_format]; assumption)
    (rule assms [unfolded serves_def, THEN conjunct2, THEN conjunct1, rule_format]
      assms [unfolded serves_def, THEN conjunct2, THEN conjunct2, THEN conjunct1, rule_format]
      assms [unfolded serves_def, THEN conjunct2, THEN conjunct2, THEN conjunct2, THEN conjunct1, rule_format]
      assms [unfolded serves_def, THEN conjunct2, THEN conjunct2, THEN conjunct2, THEN conjunct2, THEN conjunct1, rule_format]
      assms [unfolded serves_def, THEN conjunct2, THEN conjunct2, THEN conjunct2, THEN conjunct2, THEN conjunct2, THEN conjunct1, rule_format]
      assms [unfolded serves_def, THEN conjunct2, THEN conjunct2, THEN conjunct2, THEN conjunct2, THEN conjunct2, THEN conjunct2, rule_format];
     assumption)+

lemma redis_ok_serves: "redis_ok glob redis \<Longrightarrow> serves glob redis n"
  unfolding serves_def by (intro conjI allI impI) (simp_all only: redis_commands not_False_eq_True)

text \<open>The database executes the command as the specification does the request, and the reply makes
  the callback call the acknowledgement of the specification.\<close>

definition answered ::
  "(string \<Rightarrow> string \<Rightarrow> bool) \<Rightarrow> redis \<Rightarrow> 'u request \<Rightarrow> 'u storageCb \<Rightarrow> store \<Rightarrow> ('u, 'u cmds, 'x) redisStorage \<Rightarrow> string list \<Rightarrow> bool" where
  "answered glob redis r cb db s args \<longleftrightarrow> (\<exists>rr db' ack. redis args db = (rr, db') \<and> rr_type rr \<noteq> REDIS_REPLY_ERROR \<and>
     finite (dom db') \<and> spec1 glob r (sdl_view db) = (ack, sdl_view db') \<and>
     (\<forall>e. storage_reply recorder cb no_error (AsyncRedisReply rr) (e, s) = Inr (call_ack ack e, s)))"

text \<open>A command carries a request if it is answered whatever the database holds when its turn comes
  and whatever other commands wait then.\<close>

definition carries ::
  "(string \<Rightarrow> string \<Rightarrow> bool) \<Rightarrow> redis \<Rightarrow> ('u, 'u cmds, 'x) redisStorage \<Rightarrow> 'u request \<Rightarrow> 'u storageCb \<Rightarrow> string list \<Rightarrow> bool" where
  "carries glob redis s r cb args \<longleftrightarrow> (\<forall>db q. finite (dom db) \<longrightarrow> answered glob redis r cb db (s\<lparr>rs_dispatcher := q\<rparr>) args)"

text \<open>The callback of a request.\<close>

fun request_cb :: "'u request \<Rightarrow> 'u storageCb" where
  "request_cb (Set n m a) = ModificationCb a"
| "request_cb (SetIf n k old new a) = ConditionalCb a"
| "request_cb (SetIfNotExists n k d a) = ConditionalCb a"
| "request_cb (Get n ks a) = GetCb ks a"
| "request_cb (Remove n ks a) = ModificationCb a"
| "request_cb (RemoveIf n k d a) = ConditionalCb a"
| "request_cb (FindKeys n p a) = FindKeysCb a"
| "request_cb (ListKeys n p a) = FindKeysCb a"
| "request_cb (RemoveAll n a) = RemoveAllCb n a"

text \<open>A request is issued as one more command at the end of the queue, which carries it.\<close>

definition issued ::
  "(string \<Rightarrow> string \<Rightarrow> bool) \<Rightarrow> redis \<Rightarrow> 'u request \<Rightarrow> 'u cmds \<Rightarrow> ('u, 'u cmds, 'x) storage_state \<Rightarrow> bool" where
  "issued glob redis r q = (\<lambda>(e, s). \<exists>confs c. nc_inv confs \<and> sized c \<and> carries glob redis s r (request_cb r) (stack c) \<and>
     perform recorder r (e, s) = Inr (e\<lparr>ns_confs := confs\<rparr>, s\<lparr>rs_dispatcher := Some (q @ [Command (request_cb r) (request_ns r) c])\<rparr>))"

lemma issued_answers_once:
  assumes w: "world_ok ((e, s), db)" and r: "issued glob redis r [] (e, s)"
  shows "answers_once glob redis r ((e, s), db)"
proof -
  obtain confs c where c: "nc_inv confs" "sized c" "carries glob redis s r (request_cb r) (stack c)"
    "perform recorder r (e, s) = Inr (e\<lparr>ns_confs := confs\<rparr>, s\<lparr>rs_dispatcher := Some [Command (request_cb r) (request_ns r) c]\<rparr>)"
    using r by (auto simp: issued_def)
  have "answered glob redis r (request_cb r) db (s\<lparr>rs_dispatcher := Some []\<rparr>) (stack c)"
    using c(3) world_okD(3) [OF w] by (simp add: carries_def)
  then obtain rr db' ack where rr: "redis (stack c) db = (rr, db')" "rr_type rr \<noteq> REDIS_REPLY_ERROR" "finite (dom db')"
    "spec1 glob r (sdl_view db) = (ack, sdl_view db')"
    "\<And>e. storage_reply recorder (request_cb r) no_error (AsyncRedisReply rr) (e, s\<lparr>rs_dispatcher := Some []\<rparr>) =
       Inr (call_ack ack e, s\<lparr>rs_dispatcher := Some []\<rparr>)"
    unfolding answered_def by blast
  from answers_onceI [where redis = redis, OF w c(4,1,2) rr(1-3) rr(5) rr(4)] show ?thesis .
qed

text \<open>Requests whose command has a publishing variant.\<close>

lemma issued_notified:
  assumes inv: "nc_inv (ns_confs e)" and q: "rs_dispatcher s = Some q"
    and req: "perform recorder r (e, s) = dispatch_notified recorder cb n published unpublished (e, s)"
    and forms: "sized published" "sized unpublished" "command_form cmd xs (stack published)" "command_form cmd xs (stack unpublished)"
    and answer: "\<And>args db s'. command_form cmd xs args \<Longrightarrow> finite (dom db) \<Longrightarrow> answered glob redis r cb db (s' :: ('u, 'u cmds, 'x) redisStorage) args"
    and cb: "request_cb r = cb" "request_ns r = n"
  shows "issued glob redis r q (e, s :: ('u, 'u cmds, 'x) redisStorage)"
proof -
  obtain confs c where c: "nc_inv confs" "sized c" "command_form cmd xs (stack c)"
    "dispatch_notified recorder cb n published unpublished (e, s) =
       Inr (e\<lparr>ns_confs := confs\<rparr>, s\<lparr>rs_dispatcher := Some (q @ [Command cb n c])\<rparr>)"
    using recorder_notified [OF inv q forms] by blast
  moreover have "carries glob redis s r cb (stack c)" using answer [OF c(3)] by (simp add: carries_def)
  ultimately show ?thesis using req unfolding issued_def cb by auto
qed

lemmas build_forms = stack_build kv_args_map command_form_def build_defs

lemma issued_set:
  assumes ok: "serves glob redis n" and inv: "nc_inv (ns_confs e)" and q: "rs_dispatcher s = Some q" and r: "request_ok (Set n m a)"
  shows "issued glob redis (Set n m a) q (e, s)"
proof (rule issued_notified [OF inv q, where cmd = "''MSET''" and xs = "kv_args (map (\<lambda>(k, d). (enc n k, data_string d)) m)"])
  show "perform recorder (Set n m a) (e, s) = dispatch_notified recorder (ModificationCb a) n
      (build_map_pub SEPARATOR ''MSETPUB'' n m n (getPublishMessage s)) (build_map SEPARATOR ''MSET'' n m) (e, s)"
    using r q by (simp add: setAsync_def canOperationBePerformed_True)
  show "answered glob redis (Set n m a) (ModificationCb a) db s' args"
    if "command_form ''MSET'' (kv_args (map (\<lambda>(k, d). (enc n k, data_string d)) m)) args" "finite (dom db)"
    for args db and s' :: "('a, 'a cmds, 'b) redisStorage"
    unfolding answered_def using servesD(1) [OF ok _ that(1)] r that(2)
    by (simp add: finite_dom_put_all modificationCommandCallback_def sdl_view_put key_sorted_distinct)
qed (auto simp: build_forms)

lemma issued_remove:
  assumes ok: "serves glob redis n" and inv: "nc_inv (ns_confs e)" and q: "rs_dispatcher s = Some q" and r: "request_ok (Remove n ks a)"
  shows "issued glob redis (Remove n ks a) q (e, s)"
proof (rule issued_notified [OF inv q, where cmd = "''DEL''" and xs = "map (enc n) ks"])
  show "perform recorder (Remove n ks a) (e, s) = dispatch_notified recorder (ModificationCb a) n
      (build_keys_pub SEPARATOR ''DELPUB'' n ks n (getPublishMessage s)) (build_keys SEPARATOR ''DEL'' n ks) (e, s)"
    using r q by (simp add: removeAsync_def canOperationBePerformed_True)
  show "answered glob redis (Remove n ks a) (ModificationCb a) db s' args"
    if form: "command_form ''DEL'' (map (enc n) ks) args" and fin: "finite (dom db)"
    for args db and s' :: "('a, 'a cmds, 'b) redisStorage"
  proof -
    from r obtain i where "redis args db = (integer_reply i, del_all enc n ks db)"
      using servesD(3) [OF ok _ form] by auto
    then show ?thesis unfolding answered_def using r fin
      by (simp add: finite_dom_del_all modificationCommandCallback_def sdl_view_del)
  qed
qed (auto simp: build_forms)

lemma issued_conditional:
  assumes ok: "serves glob redis n" and inv: "nc_inv (ns_confs e)" and q: "rs_dispatcher s = Some q" and n: "isValidNamespace n"
  shows "issued glob redis (SetIf n k old new a) q (e, s)"
    and "issued glob redis (SetIfNotExists n k d a) q (e, s)"
    and "issued glob redis (RemoveIf n k d a) q (e, s)"
proof -
  note can = canOperationBePerformed_True [OF n q, of None, simplified]
  show "issued glob redis (SetIf n k old new a) q (e, s)"
  proof (rule issued_notified [OF inv q, where cmd = "''SETIE''" and xs = "[enc n k, data_string new, data_string old]"])
    show "perform recorder (SetIf n k old new a) (e, s) = dispatch_notified recorder (ConditionalCb a) n
      (build_key_data2_pub SEPARATOR ''SETIEPUB'' n k new old n (getPublishMessage s)) (build_key_data2 SEPARATOR ''SETIE'' n k new old) (e, s)"
      using can by (simp add: setIfAsync_def)
    show "answered glob redis (SetIf n k old new a) (ConditionalCb a) db s' args"
      if "command_form ''SETIE'' [enc n k, data_string new, data_string old] args" "finite (dom db)"
      for args db and s' :: "('a, 'a cmds, 'b) redisStorage"
      unfolding answered_def using servesD(5) [OF ok that(1)] that(2) n
      by (simp add: conditional_replies view_data_iff sdl_view_put1)
  qed (auto simp: build_forms)
  show "issued glob redis (SetIfNotExists n k d a) q (e, s)"
  proof (rule issued_notified [OF inv q, where cmd = "''SETNX''" and xs = "[enc n k, data_string d]"])
    show "perform recorder (SetIfNotExists n k d a) (e, s) = dispatch_notified recorder (ConditionalCb a) n
      (build_key_data_pub SEPARATOR ''SETNXPUB'' n k d n (getPublishMessage s)) (build_key_data SEPARATOR ''SETNX'' n k d) (e, s)"
      using can by (simp add: setIfNotExistsAsync_def)
    show "answered glob redis (SetIfNotExists n k d a) (ConditionalCb a) db s' args"
      if "command_form ''SETNX'' [enc n k, data_string d] args" "finite (dom db)"
      for args db and s' :: "('a, 'a cmds, 'b) redisStorage"
      unfolding answered_def using servesD(6) [OF ok that(1)] that(2) n
      by (simp add: conditional_replies view_None_iff sdl_view_put1)
  qed (auto simp: build_forms)
  show "issued glob redis (RemoveIf n k d a) q (e, s)"
  proof (rule issued_notified [OF inv q, where cmd = "''DELIE''" and xs = "[enc n k, data_string d]"])
    show "perform recorder (RemoveIf n k d a) (e, s) = dispatch_notified recorder (ConditionalCb a) n
      (build_key_data_pub SEPARATOR ''DELIEPUB'' n k d n (getPublishMessage s)) (build_key_data SEPARATOR ''DELIE'' n k d) (e, s)"
      using can by (simp add: removeIfAsync_def)
    show "answered glob redis (RemoveIf n k d a) (ConditionalCb a) db s' args"
      if "command_form ''DELIE'' [enc n k, data_string d] args" "finite (dom db)"
      for args db and s' :: "('a, 'a cmds, 'b) redisStorage"
      unfolding answered_def using servesD(7) [OF ok that(1)] that(2) n
      by (simp add: conditional_replies view_data_iff sdl_view_del1)
  qed (auto simp: build_forms)
qed

text \<open>Requests that only read.\<close>

lemma issued_read:
  assumes inv: "nc_inv (ns_confs e)" and q: "rs_dispatcher s = Some q"
    and req: "perform recorder r (e, s) = dispatch_command recorder cb n c (e, s)" and c: "sized c"
    and answer: "\<And>db s'. finite (dom db) \<Longrightarrow> answered glob redis r cb db (s' :: ('u, 'u cmds, 'x) redisStorage) (stack c)"
    and cb: "request_cb r = cb" "request_ns r = n"
  shows "issued glob redis r q (e, s :: ('u, 'u cmds, 'x) redisStorage)"
proof -
  have "perform recorder r (e, s) = Inr (e\<lparr>ns_confs := ns_confs e\<rparr>, s\<lparr>rs_dispatcher := Some (q @ [Command cb n c])\<rparr>)"
    using req q by (simp add: recorder_dispatch)
  moreover have "carries glob redis s r cb (stack c)" using answer by (simp add: carries_def)
  ultimately show ?thesis using inv c unfolding issued_def split cb by blast
qed

lemma issued_get:
  assumes ok: "serves glob redis n" and inv: "nc_inv (ns_confs e)" and q: "rs_dispatcher s = Some q" and r: "request_ok (Get n ks a)"
  shows "issued glob redis (Get n ks a) q (e, s)"
proof (rule issued_read [OF inv q])
  show "perform recorder (Get n ks a) (e, s) =
    dispatch_command recorder (GetCb ks a) n (build_keys SEPARATOR ''MGET'' n ks) (e, s)"
    using r q by (simp add: getAsync_def canOperationBePerformed_True)
  show "answered glob redis (Get n ks a) (GetCb ks a) db s' (stack (build_keys SEPARATOR ''MGET'' n ks))"
    if "finite (dom db)" for db and s' :: "('a, 'a cmds, 'b) redisStorage"
    unfolding answered_def stack_build using servesD(2) [OF ok, of ks db] r that got_data [of n ks db]
    by (simp add: getCallback_def o_def)
qed (simp_all add: build_defs)

lemma pattern_matches:
  assumes "glob_ok glob" "plain n"
  shows "glob (buildNamespaceKeySearchPattern n p) x \<longleftrightarrow> (\<exists>t. x = enc n t \<and> glob p t)"
proof -
  have "set (''{'' @ n @ ''},'') \<inter> set redisSearchPatternCharacters = {}"
    using assms(2) by (auto simp: plain_def redisSearchPatternCharacters_def)
  then have "escaped (''{'' @ n @ ''},'') = ''{'' @ n @ ''},''" by (rule escaped_plain)
  then have "buildNamespaceKeySearchPattern n p = escaped (''{'' @ n @ ''},'') @ p"
    by (simp add: buildNamespaceKeySearchPattern_def SEPARATOR_def)
  then show ?thesis using glob_escaped [OF assms(1), of "''{'' @ n @ ''},''" p x]
    by (simp add: key_content_def SEPARATOR_def)
qed

lemma issued_keys:
  assumes ok: "serves glob redis n" and inv: "nc_inv (ns_confs e)" and q: "rs_dispatcher s = Some q" and n: "isValidNamespace n"
    and req: "perform recorder r (e, s) = findKeys recorder n p a (e, s)"
    and p: "\<And>x. glob p x \<longleftrightarrow> (\<exists>k. x = enc n k \<and> Q k)"
    and cb: "request_cb r = FindKeysCb a" "request_ns r = n"
    and spec: "\<And>A. spec1 glob r A = (CallFindKeys a no_error (sorted_list_of_set {k \<in> dom (A n). Q k}), A)"
  shows "issued glob redis r q (e, s)"
proof (rule issued_read [OF inv q])
  show "perform recorder r (e, s) = dispatch_command recorder (FindKeysCb a) n (build2 ''KEYS'' p) (e, s)"
    using req n q by (simp add: findKeys_def canOperationBePerformed_True)
  show "answered glob redis r (FindKeysCb a) db s' (stack (build2 ''KEYS'' p))"
    if fin: "finite (dom db)" for db and s' :: "('a, 'a cmds, 'b) redisStorage"
  proof -
    obtain xs where xs: "redis [''KEYS'', p] db = (array_reply (map string_reply xs), db)" "set xs = {x \<in> dom db. glob p x}"
      using servesD(4) [OF ok fin, where p = p] p by blast
    have "getKeys (map (\<lambda>x. AsyncRedisReply (string_reply x)) xs) = Inr (sorted_list_of_set {k \<in> dom (sdl_view db n). Q k})"
      by (rule found_keys [OF n fin]) (simp add: xs(2) p)
    then show ?thesis unfolding answered_def stack_build using xs(1) fin by (simp add: findKeysCallback_def o_def spec)
  qed
qed (simp_all add: build_defs cb)

lemma issued_find:
  assumes "glob_ok glob" "serves glob redis n" "nc_inv (ns_confs e)" "rs_dispatcher s = Some q" "isValidNamespace n" "plain n"
  shows "issued glob redis (FindKeys n p a) q (e, s)" "issued glob redis (ListKeys n p a) q (e, s)"
proof -
  show "issued glob redis (FindKeys n p a) q (e, s)"
    by (rule issued_keys [OF assms(2-5), where p = "buildKeyPrefixSearchPattern n p" and Q = "\<lambda>k. \<exists>t. k = p @ t" and a = a])
      (use prefix_pattern_matches [OF assms(1) assms(6) [unfolded plain_def], of p] in \<open>auto simp: findKeysAsync_def\<close>)
  show "issued glob redis (ListKeys n p a) q (e, s)"
    by (rule issued_keys [OF assms(2-5), where p = "buildNamespaceKeySearchPattern n p" and Q = "glob p" and a = a])
      (simp_all add: listKeys_def pattern_matches [OF assms(1,6)])
qed

fun single_command :: "'u request \<Rightarrow> bool" where
  "single_command (RemoveAll n a) = False"
| "single_command _ = True"

lemma request_issued:
  assumes "glob_ok glob" "serves glob redis (request_ns r)" "nc_inv (ns_confs e)" "rs_dispatcher s = Some q" "request_ok r" "single_command r"
  shows "issued glob redis r q (e, s)"
  using assms(2,5,6)
  by (cases r) (auto intro!: issued_set [OF _ assms(3,4)] issued_remove [OF _ assms(3,4)] issued_get [OF _ assms(3,4)]
      issued_conditional [OF _ assms(3,4)] issued_find [OF assms(1) _ assms(3,4)])

text \<open>\<open>removeAllAsync\<close> asks for the keys; when there are keys, the reply makes a removal of all of them.\<close>

abbreviation removeAll_command :: "namespace \<Rightarrow> contents" where
  "removeAll_command n \<equiv> build2 ''KEYS'' (buildKeyPrefixSearchPattern n [])"

lemma issued_removeAll:
  "isValidNamespace n \<Longrightarrow> rs_dispatcher s = Some q \<Longrightarrow>
     perform recorder (RemoveAll n a) (e, s) =
       Inr (e, s\<lparr>rs_dispatcher := Some (q @ [Command (RemoveAllCb n a) n (removeAll_command n)])\<rparr>)"
  by (simp add: removeAllAsync_def canOperationBePerformed_True recorder_dispatch)

lemma removeAll_served:
  assumes glob: "glob_ok glob" and ok: "serves glob redis n" and fin: "finite (dom db)" and n: "isValidNamespace n" "plain n"
    and q: "rs_dispatcher s = Some (Command (RemoveAllCb n a) n (removeAll_command n) # q)"
  shows "serve1 redis ((e, s), db) =
    (if sdl_view db n = Map.empty then Inr ((call_ack (CallModify a no_error) e, s\<lparr>rs_dispatcher := Some q\<rparr>), db)
     else rbind (perform recorder (Remove n (sorted_list_of_set (dom (sdl_view db n))) a) (e, s\<lparr>rs_dispatcher := Some q\<rparr>)) (\<lambda>es. Inr (es, db)))"
proof -
  let ?p = "buildKeyPrefixSearchPattern n []" and ?ks = "sorted_list_of_set (dom (sdl_view db n))"
  obtain xs where xs: "redis [''KEYS'', ?p] db = (array_reply (map string_reply xs), db)" "set xs = {x \<in> dom db. glob ?p x}"
    using servesD(4) [OF ok fin, where p = ?p] by (auto simp: prefix_pattern_matches [OF glob n(2) [unfolded plain_def]])
  have ks: "getKeys (map (\<lambda>x. AsyncRedisReply (string_reply x)) xs) = Inr ?ks"
    using found_keys [OF n(1) fin, of xs "\<lambda>_. True"] xs(2)
    by (simp add: prefix_pattern_matches [OF glob n(2) [unfolded plain_def]] dom_def)
  then have "xs = [] \<longleftrightarrow> set ?ks = {}" using getKeys_strings [of xs] by auto
  then have empty: "xs = [] \<longleftrightarrow> sdl_view db n = Map.empty" using finite_dom_view [OF fin, of n] by simp
  have "serve1 redis ((e, s), db) = rbind (removeAllCallback recorder n no_error
      (AsyncRedisReply (array_reply (map string_reply xs))) a (e, s\<lparr>rs_dispatcher := Some q\<rparr>)) (\<lambda>es. Inr (es, db))"
    using serve1_first [OF q, of redis db] xs(1) by (simp add: stack_build build_defs)
  then show ?thesis using empty ks by (simp add: removeAllCallback_def o_def)
qed

text \<open>With the second turn of the database, which is idle after a request of one command.\<close>

definition refines1 :: "(string \<Rightarrow> string \<Rightarrow> bool) \<Rightarrow> redis \<Rightarrow> 'u request \<Rightarrow> ('u, 'x) world \<Rightarrow> bool" where
  "refines1 glob redis r = (\<lambda>((e, s), db). \<exists>e' s' db'. run1 redis r ((e, s), db) = Inr ((e', s'), db') \<and>
     world_ok ((e', s'), db') \<and> posted e' = posted e \<and>
     called e' = called e @ [fst (spec1 glob r (sdl_view db))] \<and> sdl_view db' = snd (spec1 glob r (sdl_view db)))"

lemma answers_once_refines1: "answers_once glob redis r w \<Longrightarrow> refines1 glob redis r w"
proof -
  obtain e s db where w: "w = ((e, s), db)" by (cases w) auto
  assume "answers_once glob redis r w"
  then obtain e' s' db' where r: "rbind (perform recorder r (e, s)) (\<lambda>es. serve1 redis (es, db)) = Inr ((e', s'), db')"
    "world_ok ((e', s'), db')" "posted e' = posted e" "called e' = called e @ [fst (spec1 glob r (sdl_view db))]"
    "sdl_view db' = snd (spec1 glob r (sdl_view db))"
    unfolding answers_once_def w by auto
  have "run1 redis r ((e, s), db) = Inr ((e', s'), db')"
    using r(1) serve1_idle [OF world_okD(2) [OF r(2)]] by (auto simp: run1_def rbind_Inr_iff)
  with r(2-) show ?thesis by (auto simp: refines1_def w)
qed

lemma refines_removeAll:
  assumes glob: "glob_ok glob" and ok: "redis_ok glob redis" and w: "world_ok ((e, s), db)"
    and n: "isValidNamespace n" "plain n"
  shows "refines1 glob redis (RemoveAll n a) ((e, s), db)"
proof -
  let ?s = "s\<lparr>rs_dispatcher := Some [Command (RemoveAllCb n a) n (removeAll_command n)]\<rparr>"
  let ?ks = "sorted_list_of_set (dom (sdl_view db n))"
  note fin = world_okD(3) [OF w]
  have s: "s\<lparr>rs_dispatcher := Some []\<rparr> = s" using world_okD(2) [OF w] by simp
  have req: "perform recorder (RemoveAll n a) (e, s) = Inr (e, ?s)" using issued_removeAll [OF n(1) world_okD(2) [OF w]] by simp
  have served: "serve1 redis ((e, ?s), db) =
    (if sdl_view db n = Map.empty then Inr ((call_ack (CallModify a no_error) e, s), db)
     else rbind (perform recorder (Remove n ?ks a) (e, s)) (\<lambda>es. Inr (es, db)))"
    using removeAll_served [OF glob redis_ok_serves [OF ok] fin n, of ?s a "[]" e] s by simp
  show ?thesis
  proof (cases "sdl_view db n = Map.empty")
    case True
    then have "(sdl_view db)(n := Map.empty) = sdl_view db" by (simp add: fun_upd_idem)
    moreover have "run1 redis (RemoveAll n a) ((e, s), db) = Inr ((call_ack (CallModify a no_error) e, s), db)"
      using req served True world_okD(2) [OF w] by (simp add: run1_def serve1_idle)
    ultimately show ?thesis using w by (simp add: refines1_def call_ack_def world_ok_def)
  next
    case False
    then have "set ?ks \<noteq> {}" using finite_dom_view [OF fin, of n] by simp
    then have "request_ok (Remove n ?ks a)" using n(1) by auto
    from issued_answers_once [OF w issued_remove [OF redis_ok_serves [OF ok] world_okD(1,2) [OF w] this]] obtain e' s' db' where
      r: "rbind (perform recorder (Remove n ?ks a) (e, s)) (\<lambda>es. serve1 redis (es, db)) = Inr ((e', s'), db')"
      "world_ok ((e', s'), db')" "posted e' = posted e" "called e' = called e @ [CallModify a no_error]"
      "sdl_view db' = (sdl_view db)(n := sdl_view db n |` (- set ?ks))"
      unfolding answers_once_def by auto
    have "run1 redis (RemoveAll n a) ((e, s), db) = rbind (perform recorder (Remove n ?ks a) (e, s)) (\<lambda>es. serve1 redis (es, db))"
      using req served False by (cases "perform recorder (Remove n ?ks a) (e, s)") (simp_all add: run1_def)
    moreover have "sdl_view db n |` (- set ?ks) = Map.empty" using finite_dom_view [OF fin, of n]
      by (auto simp: restrict_map_def fun_eq_iff domIff)
    ultimately show ?thesis using r by (auto simp: refines1_def)
  qed
qed

lemma request_refines:
  assumes "glob_ok glob" "redis_ok glob redis" "world_ok w" "request_ok r"
  shows "refines1 glob redis r w"
proof -
  obtain e s db where w: "w = ((e, s), db)" by (cases w) auto
  note w' = assms(3) [unfolded w]
  show ?thesis unfolding w
  proof (cases "single_command r")
    case True
    then show "refines1 glob redis r ((e, s), db)"
      by (intro answers_once_refines1 issued_answers_once [OF w'] request_issued [OF assms(1) redis_ok_serves [OF assms(2)] world_okD(1,2) [OF w'] assms(4)])
  next
    case False
    then show "refines1 glob redis r ((e, s), db)" using refines_removeAll [OF assms(1,2) w'] assms(4) by (cases r) auto
  qed
qed

text \<open>C3: the storage is a key-value store per namespace. Any sequence of valid operations of
  \<open>AsyncRedisStorage\<close>, each answered by the database, calls exactly the acknowledgements of the
  specification, in order, with its data, keys and status values, and leaves in every namespace
  the data the specification says; other namespaces are never touched. Whether the namespaces
  have notifications enabled makes no difference.\<close>

theorem storage_refines_spec:
  assumes "glob_ok glob" "redis_ok glob redis" "world_ok ((e, s), db)" "\<forall>r\<in>set rs. request_ok r"
  shows "\<exists>e' s' db'. run redis rs ((e, s), db) = Inr ((e', s'), db') \<and> world_ok ((e', s'), db') \<and>
    posted e' = posted e \<and> called e' = called e @ fst (spec glob rs (sdl_view db)) \<and>
    sdl_view db' = snd (spec glob rs (sdl_view db))"
  using assms(3,4)
proof (induction rs arbitrary: e s db)
  case (Cons r rs)
  have "refines1 glob redis r ((e, s), db)" using request_refines [OF assms(1,2) Cons.prems(1)] Cons.prems(2) by simp
  then obtain e1 s1 db1 where 1: "run1 redis r ((e, s), db) = Inr ((e1, s1), db1)" "world_ok ((e1, s1), db1)"
    "posted e1 = posted e" "called e1 = called e @ [fst (spec1 glob r (sdl_view db))]"
    "sdl_view db1 = snd (spec1 glob r (sdl_view db))" unfolding refines1_def by auto
  from Cons.IH [OF 1(2)] Cons.prems(2) 1 show ?case by (simp add: run_def split_beta Let_def)
qed (simp add: run_def)

section \<open>A database that meets the documentation\<close>

text \<open>A glob matcher and a database over it, for the witnesses.\<close>

function sample_glob :: "string \<Rightarrow> string \<Rightarrow> bool" where
  "sample_glob [] s = (s = [])"
| "sample_glob (c # p) s =
     (if c = CHR ''*'' then sample_glob p s \<or> (case s of [] \<Rightarrow> False | _ # t \<Rightarrow> sample_glob (c # p) t)
      else if c = CHR 0x5C
      then (case p of [] \<Rightarrow> False
            | d # p' \<Rightarrow> (case s of [] \<Rightarrow> False | x # t \<Rightarrow> x = d \<and> sample_glob p' t))
      else case s of [] \<Rightarrow> False | x # t \<Rightarrow> (c = CHR ''?'' \<or> x = c) \<and> sample_glob p t)"
  by pat_completeness auto
termination by (relation "measure (\<lambda>(p, s). length p + length s)") auto

declare sample_glob.simps [simp del]

lemma sample_glob_star: "sample_glob (CHR ''*'' # p) s \<longleftrightarrow> (\<exists>u t. s = u @ t \<and> sample_glob p t)"
proof (induction s)
  case Nil
  then show ?case by (subst sample_glob.simps) simp
next
  case (Cons x s)
  have "sample_glob (CHR ''*'' # p) (x # s) \<longleftrightarrow> sample_glob p (x # s) \<or> (\<exists>u t. s = u @ t \<and> sample_glob p t)"
    by (subst sample_glob.simps) (simp add: Cons)
  then show ?case by (auto simp: Cons_eq_append_conv)
qed

lemma sample_glob_ok: "glob_ok sample_glob"
  unfolding glob_ok_def
proof (intro conjI allI impI)
  show "sample_glob (CHR ''*'' # p) s = (\<exists>u t. s = u @ t \<and> sample_glob p t)" for p s by (rule sample_glob_star)
qed (auto simp: sample_glob.simps redisSearchPatternCharacters_def split: list.split)

fun pairs :: "string list \<Rightarrow> (string \<times> string) list" where
  "pairs (k # v # r) = (k, v) # pairs r"
| "pairs _ = []"

lemma pairs_kv_args [simp]: "pairs (kv_args kvs) = kvs"
  by (induction kvs) (auto simp: kv_args_def)

definition strip_pub :: "string list \<Rightarrow> string \<times> string list" where
  "strip_pub args =
     (if drop (length (hd args) - 3) (hd args) = ''PUB''
      then (take (length (hd args) - 3) (hd args), take (length args - 3) (tl args)) else (hd args, tl args))"

lemma strip_command:
  assumes "command_form cmd xs args" "cmd \<in> {''MSET'', ''DEL'', ''SETIE'', ''SETNX'', ''DELIE''}"
  shows "strip_pub args = (cmd, xs)"
proof -
  have "strip_pub (cmd # xs) = (cmd, xs)" using assms(2) by (auto simp: strip_pub_def)
  moreover have "strip_pub ((cmd @ ''PUB'') # xs @ [ch, msg]) = (cmd, xs)" for ch msg by (simp add: strip_pub_def)
  ultimately show ?thesis using assms(1) by (auto simp: command_form_def)
qed

definition sample_redis :: redis where
  "sample_redis args db =
     (let (cmd, xs) = strip_pub args
      in if cmd = ''MSET'' then (status_reply, fold (\<lambda>(k, v) db. db(k \<mapsto> v)) (pairs xs) db)
         else if cmd = ''MGET'' then (array_reply (map (\<lambda>k. value_reply (db k)) xs), db)
         else if cmd = ''DEL'' then (integer_reply 0, fold (\<lambda>k db. db(k := None)) xs db)
         else if cmd = ''KEYS'' then (array_reply (map string_reply (sorted_list_of_set {k \<in> dom db. sample_glob (hd xs) k})), db)
         else if cmd = ''SETIE''
         then if db (xs ! 0) = Some (xs ! 2) then (status_reply, db(xs ! 0 \<mapsto> xs ! 1)) else (value_reply None, db)
         else if cmd = ''SETNX''
         then if db (xs ! 0) = None then (integer_reply 1, db(xs ! 0 \<mapsto> xs ! 1)) else (integer_reply 0, db)
         else if db (xs ! 0) = Some (xs ! 1) then (integer_reply 1, db(xs ! 0 := None)) else (integer_reply 0, db))"

lemma sample_redis_keys_ok: "keys_ok sample_glob sample_redis"
  unfolding keys_ok_def
proof (intro allI impI exI conjI)
  fix p and db :: store
  assume "finite (dom db)"
  then show "set (sorted_list_of_set {k \<in> dom db. sample_glob p k}) = {k \<in> dom db. sample_glob p k}" by simp
qed (simp add: sample_redis_def strip_pub_def)

lemma sample_redis_ok: "redis_ok sample_glob sample_redis"
  unfolding redis_ok_def
proof (intro conjI sample_redis_keys_ok)
  show "mset_ok sample_redis" by (auto simp: mset_ok_def sample_redis_def strip_command)
  show "mget_ok sample_redis" by (simp add: mget_ok_def sample_redis_def strip_pub_def)
  show "del_ok sample_redis" by (auto simp: del_ok_def sample_redis_def strip_command)
  show "conditional_ok sample_redis" by (auto simp: conditional_ok_def sample_redis_def strip_command)
qed

definition sample_env :: "nat env" where
  "sample_env = \<lparr>ns_confs = sample_nc, posted = [], called = []\<rparr>"

definition sample_storage :: "(nat, nat cmds, unit) redisStorage" where
  "sample_storage = \<lparr>rs_dispatcher = Some [], rs_discovery = None, publisherId = None, readyAck = None, dbInfo = None\<rparr>"

lemma sample_env_inv: "nc_inv (ns_confs sample_env)"
  by (simp add: sample_env_def sample_nc_def nc_inv_def)

lemma sample_world_ok: "finite (dom db) \<Longrightarrow> world_ok ((sample_env, sample_storage), db)"
  by (simp add: world_ok_def sample_env_def sample_storage_def nc_inv_def sample_nc_def)

theorem storage_refines_spec_witness:
  "\<exists>e' s' db'. run sample_redis [Set ''abc'' [(''k'', [1, 2])] 0, SetIf ''abc'' ''k'' [3] [4] 1, Get ''abc'' [''j'', ''k''] 2,
       RemoveAll ''abc'' 3, FindKeys ''abc'' ''k'' 4] ((sample_env, sample_storage), Map.empty) = Inr ((e', s'), db') \<and>
     called e' = [CallModify 0 no_error, CallModifyIf 1 no_error False, CallGet 2 no_error [(''k'', [1, 2])],
       CallModify 3 no_error, CallFindKeys 4 no_error []]"
proof -
  have ok: "\<forall>r\<in>set [Set ''abc'' [(''k'', [1, 2])] 0, SetIf ''abc'' ''k'' [3] [4] 1, Get ''abc'' [''j'', ''k''] 2,
       RemoveAll ''abc'' 3, FindKeys ''abc'' ''k'' (4::nat)]. request_ok r"
    by (simp add: isValidNamespace_iff plain_def redisSearchPatternCharacters_def)
  from storage_refines_spec [OF sample_glob_ok sample_redis_ok sample_world_ok ok, of Map.empty]
  show ?thesis by (auto simp: sample_env_def sdl_view_def)
qed

section \<open>Operations that are not sent\<close>

fun no_keys_given :: "'u request \<Rightarrow> bool" where
  "no_keys_given (Set n m a) = (m = [])"
| "no_keys_given (Get n ks a) = (ks = [])"
| "no_keys_given (Remove n ks a) = (ks = [])"
| "no_keys_given _ = False"

fun refused :: "'u request \<Rightarrow> error_code \<Rightarrow> 'u ack_call" where
  "refused (Set n m a) ec = CallModify a ec"
| "refused (SetIf n k old new a) ec = CallModifyIf a ec False"
| "refused (SetIfNotExists n k d a) ec = CallModifyIf a ec False"
| "refused (Get n ks a) ec = CallGet a ec []"
| "refused (Remove n ks a) ec = CallModify a ec"
| "refused (RemoveIf n k d a) ec = CallModifyIf a ec False"
| "refused (FindKeys n p a) ec = CallFindKeys a ec []"
| "refused (ListKeys n p a) ec = CallFindKeys a ec []"
| "refused (RemoveAll n a) ec = CallModify a ec"

lemmas operation_defs = setAsync_def setIfAsync_def setIfNotExistsAsync_def getAsync_def removeAsync_def
  removeIfAsync_def findKeysAsync_def listKeys_def findKeys_def removeAllAsync_def

text \<open>C4: an operation with an invalid namespace, with no keys, or before a database is discovered
  never reaches a dispatcher: the operation returns at once, nothing but one acknowledgement is
  given to the engine, and its error says which of the three it was, an invalid namespace being
  reported first and an operation without keys being a success.\<close>

theorem operations_refused:
  "(\<not> isValidNamespace (request_ns r) \<longrightarrow>
     perform ops r (e, s) = Inr (post_ack (refused r (make_error_code_storage SEC_INVALID_NAMESPACE)) e, s)) \<and>
   (isValidNamespace (request_ns r) \<longrightarrow> no_keys_given r \<longrightarrow>
     perform ops r (e, s) = Inr (post_ack (refused r no_error) e, s)) \<and>
   (isValidNamespace (request_ns r) \<longrightarrow> \<not> no_keys_given r \<longrightarrow> rs_dispatcher s = None \<longrightarrow>
     perform ops r (e, s) = Inr (post_ack (refused r (make_error_code_storage SEC_REDIS_NOT_YET_DISCOVERED)) e, s))"
  by (cases r) (simp_all add: operation_defs canOperationBePerformed_def)

theorem operations_refused_witness:
  "perform recorder (Get ''a,b'' [''k''] 7) (sample_env, sample_storage) =
     Inr (post_ack (CallGet 7 (make_error_code_storage SEC_INVALID_NAMESPACE) []) sample_env, sample_storage) \<and>
   perform recorder (Remove ''ab'' [] 7) (sample_env, sample_storage) =
     Inr (post_ack (CallModify 7 no_error) sample_env, sample_storage) \<and>
   perform recorder (FindKeys ''ab'' [] 7) (sample_env, sample_storage\<lparr>rs_dispatcher := None\<rparr>) =
     Inr (post_ack (CallFindKeys 7 (make_error_code_storage SEC_REDIS_NOT_YET_DISCOVERED) []) sample_env,
       sample_storage\<lparr>rs_dispatcher := None\<rparr>)"
  using operations_refused [of "Get ''a,b'' [''k''] 7" recorder sample_env sample_storage]
    operations_refused [of "Remove ''ab'' [] 7" recorder sample_env sample_storage]
    operations_refused [of "FindKeys ''ab'' [] 7" recorder sample_env "sample_storage\<lparr>rs_dispatcher := None\<rparr>"]
  by (simp add: isValidNamespace_iff)

section \<open>Namespaces with pattern characters\<close>

text \<open>C37: a namespace is put into the search pattern without escaping. The valid namespace \<open>a*\<close>
  finds the keys of the namespace \<open>ab\<close>, although no key was ever written to it.\<close>

theorem pattern_namespace_finds_foreign_keys:
  assumes "glob_ok glob" "redis_ok glob redis" "world_ok ((e, s), db)" "sdl_view db ''ab'' k \<noteq> None"
  shows "isValidNamespace ''a*'' \<and> (\<exists>e' s' ks. run1 redis (FindKeys ''a*'' [] a) ((e, s), db) = Inr ((e', s'), db) \<and>
    called e' = called e @ [CallFindKeys a no_error ks] \<and> k \<in> set ks)"
proof -
  let ?p = "buildKeyPrefixSearchPattern ''a*'' []"
  have valid: "isValidNamespace ''a*''" "isValidNamespace ''ab''" by (simp_all add: isValidNamespace_iff)
  obtain xs where xs: "redis [''KEYS'', ?p] db = (array_reply (map string_reply xs), db)" "set xs = {x \<in> dom db. glob ?p x}"
    using redis_commands(4) [OF assms(2) world_okD(3) [OF assms(3)]] by blast
  obtain ks where ks: "getKeys (map (\<lambda>x. AsyncRedisReply (string_reply x)) xs) = Inr ks" "set ks = key_of ` set xs"
    using getKeys_strings [of xs] by blast
  have "?p = ''{a*},*''" by (simp add: buildKeyPrefixSearchPattern_def SEPARATOR_def escape_spec escaped_def)
  moreover have "glob ''},*'' (CHR ''}'' # CHR '','' # k)"
    using assms(1) by (simp add: glob_ok_def redisSearchPatternCharacters_def)
  then have "glob ''*},*'' (''b'' @ CHR ''}'' # CHR '','' # k)"
    using assms(1) unfolding glob_ok_def by blast
  ultimately have "glob ?p (enc ''ab'' k)"
    using assms(1) by (simp add: glob_ok_def redisSearchPatternCharacters_def key_content_def SEPARATOR_def)
  then have "enc ''ab'' k \<in> set xs" using assms(4) valid(2) by (auto simp: xs(2) sdl_view_def)
  then have "k \<in> set ks" using sdl_codec.dec_enc [OF valid(2), of k] ks(2) by (metis imageI)
  moreover have "run1 redis (FindKeys ''a*'' [] a) ((e, s), db) =
    Inr ((call_ack (CallFindKeys a no_error ks) e, s\<lparr>rs_dispatcher := Some []\<rparr>), db)"
    using world_okD [OF assms(3)] valid(1) xs(1) ks(1)
    by (simp add: run1_def findKeysAsync_def findKeys_def canOperationBePerformed_True recorder_dispatch
        serve1_first serve1_idle stack_build build_defs findKeysCallback_def o_def)
  ultimately show ?thesis using valid(1) by (auto simp: call_ack_def)
qed

theorem pattern_namespace_finds_foreign_keys_witness:
  "\<exists>e' s' ks. run1 sample_redis (FindKeys ''a*'' [] 1) ((sample_env, sample_storage), [''{ab},k'' \<mapsto> ''v'']) =
     Inr ((e', s'), [''{ab},k'' \<mapsto> ''v'']) \<and> called e' = [CallFindKeys 1 no_error ks] \<and> ''k'' \<in> set ks"
proof -
  have "sdl_view [''{ab},k'' \<mapsto> ''v''] ''ab'' ''k'' \<noteq> None"
    by (simp add: sdl_view_def isValidNamespace_iff key_content_def SEPARATOR_def)
  from pattern_namespace_finds_foreign_keys [OF sample_glob_ok sample_redis_ok sample_world_ok this, of 1]
  show ?thesis by (simp add: sample_env_def)
qed

end
