(* ===== verification/Recorded_Dispatcher.thy ===== *)
theory Recorded_Dispatcher
  imports Storage_Semantics
begin

text \<open>
  What \<open>AsyncRedisStorage\<close> needs of a connected command dispatcher. \<open>Storage_Semantics\<close> describes the
  dispatcher by a queue of commands. A real dispatcher is as good as that queue if there is a
  relation between queues and its states that \<open>dispatchAsync\<close> keeps: that is the locale. In it, the
  operations and the callbacks of the storage do the same with both. The locale is interpreted for
  \<open>AsyncHiredisCommandDispatcher\<close> in \<open>Connected_Storage\<close> and for
  \<open>AsyncHiredisClusterCommandDispatcher\<close> in \<open>Cluster_Storage\<close>.
\<close>

section \<open>Storages that differ in the dispatcher\<close>

definition without_dispatcher :: "('u, 'd, 'x) redisStorage \<Rightarrow> ('u, 'e, 'x) redisStorage" where
  "without_dispatcher s = \<lparr>rs_dispatcher = None, rs_discovery = rs_discovery s, publisherId = publisherId s, readyAck = readyAck s,
     dbInfo = dbInfo s\<rparr>"

lemma without_dispatcher_twice [simp]:
  "without_dispatcher (without_dispatcher s) = without_dispatcher s" "without_dispatcher (s\<lparr>rs_dispatcher := d\<rparr>) = without_dispatcher s"
  by (simp_all add: without_dispatcher_def)

lemma getRedisError_reply: "getRedisError vip en err (Some rr) = getRedisError vip' en' err' (Some rr)"
  by (simp add: getRedisError_def)

definition same_storage ::
  "('u cmds \<Rightarrow> 'd \<Rightarrow> bool) \<Rightarrow> ('u, 'u cmds, 'x) storage_state \<Rightarrow> ('u, 'd, 'x) storage_state \<Rightarrow> bool" where
  "same_storage rel = (\<lambda>(e, s) (e', s'). e' = e \<and> without_dispatcher s' = (without_dispatcher s :: ('u, unit, 'x) redisStorage) \<and>
     (\<exists>q d. rs_dispatcher s = Some q \<and> rs_dispatcher s' = Some d \<and> rel q d))"

fun same_result ::
  "('u cmds \<Rightarrow> 'd \<Rightarrow> bool) \<Rightarrow> ('u, 'u cmds, 'x) storage_state result \<Rightarrow> ('u, 'd, 'x) storage_state result \<Rightarrow> bool" where
  "same_result rel (Inr es) (Inr es') = same_storage rel es es'"
| "same_result rel (Inl f) (Inl f') = (f' = f)"
| "same_result rel _ _ = False"

lemma same_storage_env: "same_storage rel (e, s) (e, s') \<Longrightarrow> same_storage rel (e', s) (e', s')"
  by (auto simp: same_storage_def)

lemma same_storageD:
  assumes "same_storage rel (e, s) (e', s')"
  shows "e' = e" "publisherId s' = publisherId s" "rs_dispatcher s \<noteq> None" "rs_dispatcher s' \<noteq> None"
  using assms by (auto simp: same_storage_def without_dispatcher_def)

lemma canOperationBePerformed_same:
  assumes "same_storage rel (e, s) (e', s')"
  shows "canOperationBePerformed ns nk s' = canOperationBePerformed ns nk s"
  using same_storageD(3,4) [OF assms] by (auto simp: canOperationBePerformed_def)

lemma post_ack_same: "same_storage rel (e, s) (e, s') \<Longrightarrow> same_result rel (Inr (post_ack a e, s)) (Inr (post_ack a e, s'))"
  by (simp add: same_storage_def)

lemma call_ack_same: "same_storage rel (e, s) (e, s') \<Longrightarrow> same_result rel (Inr (call_ack a e, s)) (Inr (call_ack a e, s'))"
  by (simp add: same_storage_def)

lemma sized_build [simp]:
  "sized (build2 s s2)" "sized (build_map sep s ns m)" "sized (build_map_pub sep s ns m s2 s3)"
  "sized (build_key_data sep s ns k d)" "sized (build_key_data_pub sep s ns k d s2 s3)"
  "sized (build_key_data2 sep s ns k d d2)" "sized (build_key_data2_pub sep s ns k d d2 s2 s3)"
  "sized (build_keys sep s ns ks)" "sized (build_keys_pub sep s ns ks s2 s3)"
  by (simp_all add: build_defs)

section \<open>The contract\<close>

locale recorded_dispatcher =
  fixes ops :: "('u, 'd) storage_disp" and rel :: "'u cmds \<Rightarrow> 'd \<Rightarrow> bool"
  assumes dispatch_recorded: "rel q d \<Longrightarrow> sized c \<Longrightarrow> \<exists>d'. dispatch_op ops cb n c d = Inr d' \<and> rel (q @ [Command cb n c]) d'"
begin

lemma dispatch_command_same:
  assumes "same_storage rel (e, s) (e, s')" "sized c"
  shows "same_result rel (dispatch_command recorder cb ns c (e, s)) (dispatch_command ops cb ns c (e, s'))"
proof -
  obtain q d where q: "rs_dispatcher s = Some q" "rs_dispatcher s' = Some d" "rel q d"
    using assms(1) by (auto simp: same_storage_def)
  obtain d' where d': "dispatch_op ops cb ns c d = Inr d'" "rel (q @ [Command cb ns c]) d'"
    using dispatch_recorded [OF q(3) assms(2)] by blast
  have "dispatch_command ops cb ns c (e, s') = Inr (e, s'\<lparr>rs_dispatcher := Some d'\<rparr>)"
    using q(2) d'(1) by (simp add: dispatch_command_def)
  then show ?thesis using assms(1) q(1) d'(2) by (simp add: recorder_dispatch same_storage_def without_dispatcher_def)
qed

lemma dispatch_notified_same:
  assumes "same_storage rel (e, s) (e, s')" "sized published" "sized unpublished"
  shows "same_result rel (dispatch_notified recorder cb ns published unpublished (e, s))
    (dispatch_notified ops cb ns published unpublished (e, s'))"
proof (cases "areNotificationsEnabled ns (ns_confs e)")
  case (Inr r)
  obtain enabled confs where r: "r = (enabled, confs)" by (cases r)
  have "same_storage rel (e\<lparr>ns_confs := confs\<rparr>, s) (e\<lparr>ns_confs := confs\<rparr>, s')" using assms(1) by (rule same_storage_env)
  then show ?thesis using assms(2,3) by (simp add: dispatch_notified_def Inr r dispatch_command_same)
qed (simp add: dispatch_notified_def)

lemma perform_same:
  assumes "same_storage rel (e, s) (e', s')"
  shows "same_result rel (perform recorder r (e, s)) (perform ops r (e', s'))"
proof -
  note parts = same_storageD(1,2) [OF assms]
  have same: "same_storage rel (e, s) (e, s')" using assms parts by simp
  have publish: "getPublishMessage s' = getPublishMessage s" using parts(2) by (simp add: getPublishMessage_def)
  show ?thesis unfolding parts(1)
    by (cases r) (auto simp: operation_defs canOperationBePerformed_same [OF assms] publish split: prod.split
        intro!: post_ack_same dispatch_command_same dispatch_notified_same same simp del: same_result.simps)
qed

lemma reply_same:
  assumes "same_storage rel (e, s) (e', s')"
  shows "same_result rel (storage_reply recorder cb ec rep (e, s)) (storage_reply ops cb ec rep (e', s'))"
proof -
  have e': "e' = e" using same_storageD(1) [OF assms] .
  have same: "same_storage rel (e, s) (e, s')" using assms e' by simp
  have acked: "same_result rel (rbind x (\<lambda>v. Inr (call_ack (f v) e, s))) (rbind x (\<lambda>v. Inr (call_ack (f v) e, s')))" for x :: "'v result" and f
    by (cases x) (simp_all add: call_ack_same [OF same] del: same_result.simps(1))
  show ?thesis
  proof (cases cb)
    case (RemoveAllCb ns a)
    have "same_result rel (rbind (getKeys (getArray rep)) (\<lambda>ks. removeAsync recorder ns ks a (e, s)))
      (rbind (getKeys (getArray rep)) (\<lambda>ks. removeAsync ops ns ks a (e, s')))"
      using perform_same [OF same, of "Remove ns _ a"] by (cases "getKeys (getArray rep)") (simp_all del: same_result.simps(1))
    then show ?thesis using call_ack_same [OF same] by (simp add: RemoveAllCb e' removeAllCallback_def del: same_result.simps(1))
  next
    case (ConditionalCb a)
    then show ?thesis using call_ack_same [OF same]
      by (cases "type_is rep NIL"; cases "type_is rep INTEGER")
         (simp_all add: e' conditionalCommandCallback_def del: same_result.simps(1))
  qed (simp_all add: e' modificationCommandCallback_def getCallback_def findKeysCallback_def
      call_ack_same [OF same] acked del: same_result.simps(1))
qed

text \<open>When the storage succeeds with the queue it succeeds with the dispatcher.\<close>

lemma same_result_Inr:
  assumes "same_result rel (Inr (e1, s1)) x"
  obtains s2 where "x = Inr (e1, s2)" "same_storage rel (e1, s1) (e1, s2)"
  using assms by (cases x) (auto simp: same_storage_def)

lemma perform_succeeds:
  assumes "same_storage rel (e, s) (e', s')" "perform recorder r (e, s) = Inr (e1, s1)"
  obtains s2 where "perform ops r (e', s') = Inr (e1, s2)" "same_storage rel (e1, s1) (e1, s2)"
  using same_result_Inr perform_same [OF assms(1), of r] assms(2) by metis

lemma reply_succeeds:
  assumes "same_storage rel (e, s) (e', s')" "storage_reply recorder cb ec rep (e, s) = Inr (e1, s1)"
  obtains s2 where "storage_reply ops cb ec rep (e', s') = Inr (e1, s2)" "same_storage rel (e1, s1) (e1, s2)"
  using same_result_Inr reply_same [OF assms(1), of cb ec rep] assms(2) by metis

end

end
