(* ===== verification/Event_Queue.thy ===== *)
theory Event_Queue
  imports Recorded_Dispatcher "HOL-Library.Multiset"
begin

text \<open>
  Clients that do not wait. A client of \<open>AsyncRedisStorage\<close> may start operations while earlier ones
  are not acknowledged, and other clients use the same database. A run is a sequence of events:
  an operation is started, the database answers one of the commands and the reply is delivered,
  or other clients change the database. \<open>Answer i\<close> answers the command with \<open>i\<close> older ones before it:
  a connection to one server answers the oldest, a cluster any.

  The specification is a queue of the operations that are not acknowledged yet. Each is executed at
  one moment between its start and its acknowledgement, the moment the database answers it, on the
  data of that moment. \<open>removeAllAsync\<close> is not one step: it becomes a removal of the keys found, at
  the end of the queue.

  Here the dispatcher is the queue of \<open>Storage_Semantics\<close>; what a command does may depend on the
  namespace it is sent with.
\<close>

section \<open>Events\<close>

datatype 'u event = Issue "'u request" | Answer nat | Others store

fun event_ok :: "'u event \<Rightarrow> bool" where
  "event_ok (Issue r) = request_ok r"
| "event_ok (Answer i) = True"
| "event_ok (Others db) = finite (dom db)"

definition remove_at :: "nat \<Rightarrow> 'a list \<Rightarrow> 'a list" where
  "remove_at i xs = take i xs @ drop (Suc i) xs"

fun queued_ns :: "'u queued \<Rightarrow> namespace" where
  "queued_ns (Command cb n c) = n"
| "queued_ns (WaitConnected cb) = []"

definition serve_at :: "(namespace \<Rightarrow> redis) \<Rightarrow> nat \<Rightarrow> ('u, 'x) world \<Rightarrow> ('u, 'x) world result" where
  "serve_at cl i = (\<lambda>((e, s), db).
     case rs_dispatcher s of
       None \<Rightarrow> Inr ((e, s), db)
     | Some q \<Rightarrow> if i < length q then serve1 (cl (queued_ns (q ! i))) ((e, s\<lparr>rs_dispatcher := Some (q ! i # remove_at i q)\<rparr>), db)
                else Inr ((e, s), db))"

fun pipelined1 :: "(namespace \<Rightarrow> redis) \<Rightarrow> 'u event \<Rightarrow> ('u, 'x) world \<Rightarrow> ('u, 'x) world result" where
  "pipelined1 cl (Issue r) (es, db) = rbind (perform recorder r es) (\<lambda>es'. Inr (es', db))"
| "pipelined1 cl (Answer i) (es, db) = serve_at cl i (es, db)"
| "pipelined1 cl (Others db') (es, db) = Inr (es, db')"

lemma remove_at_0 [simp]: "remove_at 0 (x # xs) = xs"
  by (simp add: remove_at_def)

lemma mset_remove_at: "i < length xs \<Longrightarrow> mset xs = add_mset (xs ! i) (mset (remove_at i xs))"
proof -
  assume "i < length xs"
  then have "xs = take i xs @ xs ! i # drop (Suc i) xs" by (rule id_take_nth_drop)
  then have "mset xs = mset (take i xs @ xs ! i # drop (Suc i) xs)" by simp
  then show ?thesis by (simp add: remove_at_def)
qed

lemma list_all2_remove_at: "list_all2 P xs ys \<Longrightarrow> list_all2 P (remove_at i xs) (remove_at i ys)"
  unfolding remove_at_def by (intro list_all2_appendI list_all2_takeI list_all2_dropI)

lemma serve_at_first:
  "rs_dispatcher s = Some (x # q) \<Longrightarrow> serve_at (\<lambda>_. redis) 0 ((e, s), db) = serve1 redis ((e, s), db)"
proof -
  assume x: "rs_dispatcher s = Some (x # q)"
  have "serve_at (\<lambda>_. redis) 0 ((e, s), db) = serve1 redis ((e, s\<lparr>rs_dispatcher := rs_dispatcher s\<rparr>), db)"
    unfolding x by (simp add: serve_at_def x)
  then show ?thesis by simp
qed

section \<open>The specification\<close>

type_synonym 'u pipe = "'u request list \<times> kv_maps \<times> 'u ack_call list"

fun answer_one :: "(string \<Rightarrow> string \<Rightarrow> bool) \<Rightarrow> 'u request \<Rightarrow> kv_maps \<Rightarrow> 'u pipe" where
  "answer_one glob (RemoveAll n a) A =
     (if A n = Map.empty then ([], A, [CallModify a no_error]) else ([Remove n (sorted_list_of_set (dom (A n))) a], A, []))"
| "answer_one glob r A = (let (c, A') = spec1 glob r A in ([], A', [c]))"

fun pipe_spec1 :: "(string \<Rightarrow> string \<Rightarrow> bool) \<Rightarrow> 'u event \<Rightarrow> 'u pipe \<Rightarrow> 'u pipe" where
  "pipe_spec1 glob (Issue r) (rs, A, cs) = (rs @ [r], A, cs)"
| "pipe_spec1 glob (Answer i) (rs, A, cs) =
     (if i < length rs then let (more, A', cs') = answer_one glob (rs ! i) A in (remove_at i rs @ more, A', cs @ cs') else (rs, A, cs))"
| "pipe_spec1 glob (Others db) (rs, A, cs) = (rs, sdl_view db, cs)"

definition pipe_spec :: "(string \<Rightarrow> string \<Rightarrow> bool) \<Rightarrow> 'u event list \<Rightarrow> 'u pipe \<Rightarrow> 'u pipe" where
  "pipe_spec glob evs = fold (pipe_spec1 glob) evs"

lemma answer_one_single: "single_command r \<Longrightarrow> answer_one glob r A = ([], snd (spec1 glob r A), [fst (spec1 glob r A)])"
  by (cases r) (simp_all add: split_beta Let_def)

section \<open>The queue of commands\<close>

text \<open>The database serves every namespace.\<close>

definition serves_all :: "(string \<Rightarrow> string \<Rightarrow> bool) \<Rightarrow> (namespace \<Rightarrow> redis) \<Rightarrow> bool" where
  "serves_all glob cl \<longleftrightarrow> (\<forall>n. isValidNamespace n \<longrightarrow> serves glob (cl n) n)"

lemma request_ns_valid: "request_ok r \<Longrightarrow> isValidNamespace (request_ns r)"
  by (cases r) simp_all

lemma redis_ok_serves_all: "redis_ok glob redis \<Longrightarrow> serves_all glob (\<lambda>_. redis)"
  by (simp add: serves_all_def redis_ok_serves)

text \<open>A command that waits for its answer, and the request it stands for.\<close>

definition waits_for ::
  "(string \<Rightarrow> string \<Rightarrow> bool) \<Rightarrow> (namespace \<Rightarrow> redis) \<Rightarrow> ('u, 'u cmds, 'x) redisStorage \<Rightarrow> 'u request \<Rightarrow> 'u queued \<Rightarrow> bool" where
  "waits_for glob cl s r x \<longleftrightarrow> request_ok r \<and> (\<exists>c. x = Command (request_cb r) (request_ns r) c \<and>
     (if single_command r then sized c \<and> carries glob (cl (request_ns r)) s r (request_cb r) (stack c) else c = removeAll_command (request_ns r)))"

definition pipe_ok :: "(string \<Rightarrow> string \<Rightarrow> bool) \<Rightarrow> (namespace \<Rightarrow> redis) \<Rightarrow> 'u request list \<Rightarrow> ('u, 'x) world \<Rightarrow> bool" where
  "pipe_ok glob cl rs = (\<lambda>((e, s), db). nc_inv (ns_confs e) \<and> finite (dom db) \<and>
     (\<exists>q. rs_dispatcher s = Some q \<and> list_all2 (waits_for glob cl s) rs q))"

lemma waits_for_dispatcher [simp]: "waits_for glob cl (s\<lparr>rs_dispatcher := d\<rparr>) = waits_for glob cl s"
  by (simp add: waits_for_def carries_def fun_eq_iff)

lemma pipe_okI:
  assumes "nc_inv (ns_confs e)" "finite (dom db)" "list_all2 (waits_for glob cl s) rs q"
  shows "pipe_ok glob cl rs ((e, s\<lparr>rs_dispatcher := Some q\<rparr>), db)"
  using assms by (simp add: pipe_ok_def)

lemma issue_request:
  assumes "glob_ok glob" "serves_all glob cl" "pipe_ok glob cl rs ((e, s), db)" "request_ok r"
  shows "\<exists>confs s'. perform recorder r (e, s) = Inr (e\<lparr>ns_confs := confs\<rparr>, s') \<and> pipe_ok glob cl (rs @ [r]) ((e\<lparr>ns_confs := confs\<rparr>, s'), db)"
proof -
  obtain q where q: "nc_inv (ns_confs e)" "finite (dom db)" "rs_dispatcher s = Some q" "list_all2 (waits_for glob cl s) rs q"
    using assms(3) by (auto simp: pipe_ok_def)
  have serves: "serves glob (cl (request_ns r)) (request_ns r)" using assms(2) request_ns_valid [OF assms(4)] by (simp add: serves_all_def)
  have "\<exists>confs c. nc_inv confs \<and> waits_for glob cl s r (Command (request_cb r) (request_ns r) c) \<and>
    perform recorder r (e, s) = Inr (e\<lparr>ns_confs := confs\<rparr>, s\<lparr>rs_dispatcher := Some (q @ [Command (request_cb r) (request_ns r) c])\<rparr>)"
  proof (cases "single_command r")
    case True
    then show ?thesis using request_issued [OF assms(1) serves q(1,3) assms(4)] assms(4) by (auto simp: issued_def waits_for_def)
  next
    case False
    then obtain n a where r: "r = RemoveAll n a" by (cases r) auto
    have "perform recorder r (e, s) = Inr (e\<lparr>ns_confs := ns_confs e\<rparr>, s\<lparr>rs_dispatcher := Some (q @ [Command (request_cb r) n (removeAll_command n)])\<rparr>)"
      using issued_removeAll [of n s q a e] q(3) assms(4) by (simp add: r)
    moreover have "waits_for glob cl s r (Command (request_cb r) n (removeAll_command n))" using assms(4) by (simp add: waits_for_def r)
    ultimately show ?thesis using q(1) unfolding r by (intro exI [of _ "ns_confs e"] exI [of _ "removeAll_command n"]) simp
  qed
  then obtain confs c where c: "nc_inv confs" "waits_for glob cl s r (Command (request_cb r) (request_ns r) c)"
    "perform recorder r (e, s) = Inr (e\<lparr>ns_confs := confs\<rparr>, s\<lparr>rs_dispatcher := Some (q @ [Command (request_cb r) (request_ns r) c])\<rparr>)"
    by blast
  have "list_all2 (waits_for glob cl s) (rs @ [r]) (q @ [Command (request_cb r) (request_ns r) c])" using q(4) c(2) by (auto intro: list_all2_appendI)
  then show ?thesis using c(1,3) q(2) by (auto intro!: pipe_okI)
qed

text \<open>One event of the storage is one step of the specification.\<close>

definition pipe_step ::
  "(string \<Rightarrow> string \<Rightarrow> bool) \<Rightarrow> (namespace \<Rightarrow> redis) \<Rightarrow> 'u event \<Rightarrow> 'u request list \<Rightarrow> ('u, 'x) world \<Rightarrow> bool" where
  "pipe_step glob cl ev rs = (\<lambda>((e, s), db). \<exists>e' s' db' rs' cs. pipelined1 cl ev ((e, s), db) = Inr ((e', s'), db') \<and>
     (\<forall>cs0. pipe_spec1 glob ev (rs, sdl_view db, cs0) = (rs', sdl_view db', cs0 @ cs)) \<and>
     pipe_ok glob cl rs' ((e', s'), db') \<and> posted e' = posted e \<and> called e' = called e @ cs)"

lemma pipe_stepI:
  assumes "pipelined1 cl ev ((e, s), db) = Inr ((e', s'), db')"
    "\<And>cs0. pipe_spec1 glob ev (rs, sdl_view db, cs0) = (rs', sdl_view db', cs0 @ cs)"
    "pipe_ok glob cl rs' ((e', s'), db')" "posted e' = posted e" "called e' = called e @ cs"
  shows "pipe_step glob cl ev rs ((e, s), db)"
  using assms unfolding pipe_step_def by blast

text \<open>The command that is answered, at the front of the others.\<close>

lemma answered_first:
  assumes inv: "pipe_ok glob cl rs ((e, s), db)" and i: "i < length rs"
  obtains c q where "nc_inv (ns_confs e)" "finite (dom db)" "list_all2 (waits_for glob cl s) (remove_at i rs) q"
    "waits_for glob cl s (rs ! i) (Command (request_cb (rs ! i)) (request_ns (rs ! i)) c)"
    "serve_at cl i ((e, s), db) = serve1 (cl (request_ns (rs ! i)))
       ((e, s\<lparr>rs_dispatcher := Some (Command (request_cb (rs ! i)) (request_ns (rs ! i)) c # q)\<rparr>), db)"
proof -
  obtain q where q: "nc_inv (ns_confs e)" "finite (dom db)" "rs_dispatcher s = Some q" "list_all2 (waits_for glob cl s) rs q"
    using inv by (auto simp: pipe_ok_def)
  have len: "length q = length rs" using q(4) by (simp add: list_all2_lengthD)
  have x: "waits_for glob cl s (rs ! i) (q ! i)" using q(4) i by (rule list_all2_nthD)
  then obtain c where c: "q ! i = Command (request_cb (rs ! i)) (request_ns (rs ! i)) c" by (auto simp: waits_for_def)
  show thesis using that [of "remove_at i q" c] q(1,2) list_all2_remove_at [OF q(4)] x i len q(3) by (simp add: c serve_at_def)
qed

lemma answer_step_single:
  assumes inv: "pipe_ok glob cl rs ((e, s), db)" and i: "i < length rs" and single: "single_command (rs ! i)"
  shows "pipe_step glob cl (Answer i) rs ((e, s), db)"
proof -
  let ?r = "rs ! i"
  obtain c q where q: "nc_inv (ns_confs e)" "finite (dom db)" "list_all2 (waits_for glob cl s) (remove_at i rs) q"
    "waits_for glob cl s ?r (Command (request_cb ?r) (request_ns ?r) c)"
    "serve_at cl i ((e, s), db) = serve1 (cl (request_ns ?r)) ((e, s\<lparr>rs_dispatcher := Some (Command (request_cb ?r) (request_ns ?r) c # q)\<rparr>), db)"
    by (rule answered_first [OF inv i])
  let ?s = "s\<lparr>rs_dispatcher := Some q\<rparr>"
  have c: "sized c" "carries glob (cl (request_ns ?r)) s ?r (request_cb ?r) (stack c)" using q(4) single by (simp_all add: waits_for_def)
  have "answered glob (cl (request_ns ?r)) ?r (request_cb ?r) db ?s (stack c)" using c(2) q(2) by (simp add: carries_def)
  then obtain rr db' ack where rr: "cl (request_ns ?r) (stack c) db = (rr, db')" "rr_type rr \<noteq> REDIS_REPLY_ERROR" "finite (dom db')"
    "spec1 glob ?r (sdl_view db) = (ack, sdl_view db')"
    "storage_reply recorder (request_cb ?r) no_error (AsyncRedisReply rr) (e, ?s) = Inr (call_ack ack e, ?s)"
    unfolding answered_def by blast
  have "pipelined1 cl (Answer i) ((e, s), db) = Inr ((call_ack ack e, ?s), db')"
    using q(5) c(1) rr by (simp add: serve1_first [where redis = "cl (request_ns ?r)", OF _ c(1) rr(1,2)])
  then show ?thesis
    by (rule pipe_stepI [where cs = "[ack]" and rs' = "remove_at i rs"])
      (use i q rr single in \<open>auto simp: answer_one_single call_ack_def intro!: pipe_okI\<close>)
qed

lemma answer_step_removeAll:
  assumes glob: "glob_ok glob" and ok: "serves_all glob cl" and inv: "pipe_ok glob cl rs ((e, s), db)" and i: "i < length rs"
    and r: "rs ! i = RemoveAll n a"
  shows "pipe_step glob cl (Answer i) rs ((e, s), db)"
proof -
  obtain c q where q: "nc_inv (ns_confs e)" "finite (dom db)" "list_all2 (waits_for glob cl s) (remove_at i rs) q"
    "waits_for glob cl s (RemoveAll n a) (Command (RemoveAllCb n a) n c)"
    "serve_at cl i ((e, s), db) = serve1 (cl n) ((e, s\<lparr>rs_dispatcher := Some (Command (RemoveAllCb n a) n c # q)\<rparr>), db)"
    by (rule answered_first [OF inv i, unfolded r request_cb.simps request_ns.simps])
  let ?s = "s\<lparr>rs_dispatcher := Some q\<rparr>"
  have n: "isValidNamespace n" "plain n" and c: "c = removeAll_command n" using q(4) by (simp_all add: waits_for_def)
  have serves: "serves glob (cl n) n" using ok n(1) by (simp add: serves_all_def)
  note served = removeAll_served [OF glob serves q(2) n, of "s\<lparr>rs_dispatcher := Some (Command (RemoveAllCb n a) n (removeAll_command n) # q)\<rparr>" a q e]
  show ?thesis
  proof (cases "sdl_view db n = Map.empty")
    case True
    then have "pipelined1 cl (Answer i) ((e, s), db) = Inr ((call_ack (CallModify a no_error) e, ?s), db)" using served q(5) c by simp
    then show ?thesis by (rule pipe_stepI [where cs = "[CallModify a no_error]" and rs' = "remove_at i rs"])
      (use i q True in \<open>auto simp: r call_ack_def intro!: pipe_okI\<close>)
  next
    case False
    let ?r = "Remove n (sorted_list_of_set (dom (sdl_view db n))) a"
    have "request_ok ?r" using False n finite_dom_view [OF q(2), of n] by auto
    moreover have "pipe_ok glob cl (remove_at i rs) ((e, ?s), db)" using q by (intro pipe_okI)
    ultimately obtain confs s' where s': "perform recorder ?r (e, ?s) = Inr (e\<lparr>ns_confs := confs\<rparr>, s')"
      "pipe_ok glob cl (remove_at i rs @ [?r]) ((e\<lparr>ns_confs := confs\<rparr>, s'), db)"
      using issue_request [OF glob ok] by metis
    then have "pipelined1 cl (Answer i) ((e, s), db) = Inr ((e\<lparr>ns_confs := confs\<rparr>, s'), db)" using served q(5) c False by simp
    then show ?thesis by (rule pipe_stepI [where cs = "[]" and rs' = "remove_at i rs @ [?r]"]) (use i s'(2) False in \<open>simp_all add: r\<close>)
  qed
qed

lemma event_step:
  assumes "glob_ok glob" "serves_all glob cl" "pipe_ok glob cl rs ((e, s), db)" "event_ok ev"
  shows "pipe_step glob cl ev rs ((e, s), db)"
proof (cases ev)
  case (Issue r)
  then obtain confs s' where "perform recorder r (e, s) = Inr (e\<lparr>ns_confs := confs\<rparr>, s')"
    "pipe_ok glob cl (rs @ [r]) ((e\<lparr>ns_confs := confs\<rparr>, s'), db)"
    using issue_request [OF assms(1-3), of r] assms(4) by auto
  then show ?thesis unfolding Issue
    by (intro pipe_stepI [where cs = "[]" and rs' = "rs @ [r]" and e' = "e\<lparr>ns_confs := confs\<rparr>" and s' = s' and db' = db]) simp_all
next
  case (Answer i)
  show ?thesis
  proof (cases "i < length rs")
    case True
    show ?thesis unfolding Answer using answer_step_single [OF assms(3) True] answer_step_removeAll [OF assms(1-3) True]
      by (cases "rs ! i") auto
  next
    case False
    then have "pipelined1 cl (Answer i) ((e, s), db) = Inr ((e, s), db)"
      using assms(3) by (auto simp: pipe_ok_def serve_at_def list_all2_lengthD)
    then show ?thesis unfolding Answer by (rule pipe_stepI [where cs = "[]" and rs' = rs]) (use assms(3) False in simp_all)
  qed
next
  case (Others db')
  have "pipe_ok glob cl rs ((e, s), db')" using assms(3,4) by (auto simp: pipe_ok_def Others)
  then show ?thesis unfolding Others by (intro pipe_stepI [where cs = "[]" and rs' = rs]) simp_all
qed

section \<open>Runs with a dispatcher\<close>

text \<open>A storage with a dispatcher of type \<open>'d\<close> makes a run of events if it can follow every event that the
  queue of commands makes; \<open>'k\<close> is what is known of the replies that have been delivered.\<close>

locale pipelined_dispatcher =
  fixes cl :: "namespace \<Rightarrow> redis"
    and step :: "'u event \<Rightarrow> (('u, 'd, 'x) storage_state \<times> 'k) \<times> store \<Rightarrow> ((('u, 'd, 'x) storage_state \<times> 'k) \<times> store) result"
    and same :: "'k \<Rightarrow> ('u, 'u cmds, 'x) storage_state \<Rightarrow> ('u, 'd, 'x) storage_state \<Rightarrow> bool"
    and allowed :: "'u event \<Rightarrow> bool"
  assumes step_same: "same k (e, s) x \<Longrightarrow> pipelined1 cl ev ((e, s), db) = Inr ((e1, s1), db1) \<Longrightarrow> allowed ev \<Longrightarrow>
      \<exists>x' k'. step ev ((x, k), db) = Inr ((x', k'), db1) \<and> same k' (e1, s1) x'"
begin

text \<open>The run with the dispatcher, beside the run over the queue and the specification.\<close>

lemma runs:
  assumes "glob_ok glob" "serves_all glob cl"
  shows "same k (e, s) x \<Longrightarrow> pipe_ok glob cl rs ((e, s), db) \<Longrightarrow> \<forall>ev\<in>set evs. event_ok ev \<and> allowed ev \<Longrightarrow>
    \<exists>e1 s1 x' k' db1 rs1 cs. for_each step evs ((x, k), db) = Inr ((x', k'), db1) \<and>
      same k' (e1, s1) x' \<and> pipe_ok glob cl rs1 ((e1, s1), db1) \<and> posted e1 = posted e \<and> called e1 = called e @ cs \<and>
      (\<forall>cs0. pipe_spec glob evs (rs, sdl_view db, cs0) = (rs1, sdl_view db1, cs0 @ cs))"
proof (induction evs arbitrary: e s x k db rs)
  case Nil
  then show ?case by (fastforce simp: pipe_spec_def)
next
  case (Cons ev evs)
  have ev: "event_ok ev" "allowed ev" using Cons.prems(3) by simp_all
  obtain e1 s1 db1 rs1 cs1 where 1: "pipelined1 cl ev ((e, s), db) = Inr ((e1, s1), db1)"
    "\<And>cs0. pipe_spec1 glob ev (rs, sdl_view db, cs0) = (rs1, sdl_view db1, cs0 @ cs1)" "pipe_ok glob cl rs1 ((e1, s1), db1)"
    "posted e1 = posted e" "called e1 = called e @ cs1"
    using event_step [OF assms Cons.prems(2) ev(1)] unfolding pipe_step_def by auto
  obtain x1 k1 where 2: "step ev ((x, k), db) = Inr ((x1, k1), db1)" "same k1 (e1, s1) x1"
    using step_same [OF Cons.prems(1) 1(1) ev(2)] by blast
  obtain e2 s2 x2 k2 db2 rs2 cs2 where 3: "for_each step evs ((x1, k1), db1) = Inr ((x2, k2), db2)"
    "same k2 (e2, s2) x2" "pipe_ok glob cl rs2 ((e2, s2), db2)" "posted e2 = posted e1" "called e2 = called e1 @ cs2"
    "\<And>cs0. pipe_spec glob evs (rs1, sdl_view db1, cs0) = (rs2, sdl_view db2, cs0 @ cs2)"
    using Cons.IH [OF 2(2) 1(3)] Cons.prems(3) by auto
  have "for_each step (ev # evs) ((x, k), db) = Inr ((x2, k2), db2)" using 2(1) 3(1) by simp
  moreover have "\<forall>cs0. pipe_spec glob (ev # evs) (rs, sdl_view db, cs0) = (rs2, sdl_view db2, cs0 @ cs1 @ cs2)"
    using 1(2) 3(6) by (simp add: pipe_spec_def)
  moreover have "posted e2 = posted e" "called e2 = called e @ cs1 @ cs2" using 1(4,5) 3(4,5) by simp_all
  ultimately show ?case using 3(2,3) by blast
qed

end

section \<open>Orders\<close>

text \<open>Operations that other clients do not disturb act as if each waited for the one before.\<close>

fun started :: "'u event list \<Rightarrow> 'u request list" where
  "started [] = []"
| "started (Issue r # evs) = r # started evs"
| "started (_ # evs) = started evs"

lemma pipe_spec_in_order:
  assumes "\<forall>ev\<in>set evs. ev = Answer 0 \<or> (\<exists>r. ev = Issue r \<and> single_command r)" "\<forall>r\<in>set rs. single_command r"
  shows "\<exists>k\<le>length (rs @ started evs). pipe_spec glob evs (rs, A, cs) =
    (drop k (rs @ started evs), snd (spec glob (take k (rs @ started evs)) A), cs @ fst (spec glob (take k (rs @ started evs)) A))"
  using assms
proof (induction evs arbitrary: rs A cs)
  case Nil
  then show ?case by (intro exI [of _ 0]) (simp add: pipe_spec_def)
next
  case (Cons ev evs)
  show ?case
  proof (cases ev)
    case (Issue r)
    then have "\<forall>r\<in>set (rs @ [r]). single_command r" using Cons.prems by auto
    with Cons.IH [of "rs @ [r]" A cs] Cons.prems(1) Issue show ?thesis by (simp add: pipe_spec_def)
  next
    case (Answer i)
    then have i: "i = 0" using Cons.prems(1) by simp
    show ?thesis
    proof (cases rs)
      case Nil
      with Cons.IH [of "[]" A cs] Cons.prems(1) Answer show ?thesis by (simp add: pipe_spec_def)
    next
      case (Cons r rs')
      obtain c A' where c: "spec1 glob r A = (c, A')" by fastforce
      have "pipe_spec1 glob (Answer 0) (rs, A, cs) = (rs', A', cs @ [c])"
        using Cons.prems(2) c by (simp add: \<open>rs = r # rs'\<close> answer_one_single)
      moreover obtain k where "k \<le> length (rs' @ started evs)" "pipe_spec glob evs (rs', A', cs @ [c]) =
        (drop k (rs' @ started evs), snd (spec glob (take k (rs' @ started evs)) A'), (cs @ [c]) @ fst (spec glob (take k (rs' @ started evs)) A'))"
        using Cons.IH [of rs' A' "cs @ [c]"] Cons.prems by (auto simp: \<open>rs = r # rs'\<close>)
      ultimately show ?thesis using c
        by (intro exI [of _ "Suc k"]) (simp add: pipe_spec_def Answer i \<open>rs = r # rs'\<close> split_beta Let_def)
    qed
  next
    case (Others db)
    then show ?thesis using Cons.prems(1) by simp
  qed
qed

text \<open>No operation is lost or acknowledged twice: the operations started are those acknowledged and
  those that wait.\<close>

fun request_user :: "'u request \<Rightarrow> 'u" where
  "request_user (Set n m a) = a"
| "request_user (SetIf n k old new a) = a"
| "request_user (SetIfNotExists n k d a) = a"
| "request_user (Get n ks a) = a"
| "request_user (Remove n ks a) = a"
| "request_user (RemoveIf n k d a) = a"
| "request_user (FindKeys n p a) = a"
| "request_user (ListKeys n p a) = a"
| "request_user (RemoveAll n a) = a"

fun ack_user :: "'u ack_call \<Rightarrow> 'u" where
  "ack_user (CallReady a ec) = a"
| "ack_user (CallModify a ec) = a"
| "ack_user (CallModifyIf a ec ok) = a"
| "ack_user (CallGet a ec m) = a"
| "ack_user (CallFindKeys a ec ks) = a"

lemma spec1_user [simp]: "ack_user (fst (spec1 glob r A)) = request_user r"
  by (cases r) simp_all

lemma answer_one_users:
  "answer_one glob r A = (rs, A', cs) \<Longrightarrow> mset (map ack_user cs) + mset (map request_user rs) = {#request_user r#}"
proof (cases "single_command r")
  case False
  assume "answer_one glob r A = (rs, A', cs)"
  with False show ?thesis by (cases r) (auto split: if_splits)
qed (auto simp: answer_one_single)

lemma pipe_spec_users:
  "pipe_spec glob evs (rs, A, cs) = (rs', A', cs') \<Longrightarrow>
    mset (map ack_user cs') + mset (map request_user rs') = mset (map ack_user cs) + mset (map request_user rs) + mset (map request_user (started evs))"
proof (induction evs arbitrary: rs A cs)
  case (Cons ev evs)
  obtain rs1 A1 cs1 where 1: "pipe_spec1 glob ev (rs, A, cs) = (rs1, A1, cs1)" by (metis prod_cases3)
  have "mset (map ack_user cs1) + mset (map request_user rs1) + mset (map request_user (started evs)) =
    mset (map ack_user cs) + mset (map request_user rs) + mset (map request_user (started (ev # evs)))"
  proof (cases ev)
    case (Answer i)
    show ?thesis
    proof (cases "i < length rs")
      case True
      obtain rs2 A2 cs2 where a: "answer_one glob (rs ! i) A = (rs2, A2, cs2)" by (metis prod_cases3)
      have "mset (map request_user rs) = add_mset (request_user (rs ! i)) (mset (map request_user (remove_at i rs)))"
        using mset_remove_at [OF True] by simp
      moreover have "rs1 = remove_at i rs @ rs2" "cs1 = cs @ cs2" using 1 True by (auto simp: Answer a)
      ultimately show ?thesis using answer_one_users [OF a] by (simp add: Answer)
    qed (use 1 Answer in auto)
  qed (use 1 in auto)
  then show ?case using Cons.IH [of rs1 A1 cs1] Cons.prems 1 by (simp add: pipe_spec_def)
qed (simp add: pipe_spec_def)

end
