(* ===== verification/Cluster_Dispatcher.thy ===== *)
theory Cluster_Dispatcher
  imports Dispatcher_Base
begin

text \<open>
  \<open>AsyncHiredisClusterCommandDispatcher\<close> (\<open>src/redis/asynchiredisclustercommanddispatcher.cpp\<close>): the
  dispatcher for a Redis cluster. The cluster client connects to nodes by itself, so the state
  machine is only disconnected or connected; commands carry the namespace as the key that selects
  the node. Verification is a \<open>COMMAND\<close> query, retried by reconnecting.

  hiredis-vip is an argument, as hiredis is for the other dispatcher.
\<close>

datatype clusterServiceState = DISCONNECTED | CONNECTED

record 's hiredisCluster =
  cluster_async_connect :: "string \<Rightarrow> 's \<Rightarrow> connect_result"
  cluster_command_argv :: "nat \<Rightarrow> namespace \<Rightarrow> string list \<Rightarrow> 's \<Rightarrow> (redis_context_err \<times> errno) option"

record ('cb, 'a, 'd) clusterDispatcher = "('cb, 'a, 'd) dispatcher" +
  initialNamespace :: "namespace option"
  addresses :: "hostAndPort list"
  serviceState :: clusterServiceState
  acc :: connect_result

type_synonym ('cb, 'a, 'd, 'z) cd_state = "('cb, 'a, 'd, 'z) clusterDispatcher_scheme"
type_synonym ('cb, 'a, 'd, 'z) cd_client = "('cb, 'a, 'd, ('cb, 'a, 'd, 'z) clusterDispatcher_scheme) client_code"
type_synonym ('cb, 'a, 'd, 'z) cd_lib = "('cb, 'a, 'd, 'z) clusterDispatcher_scheme hiredisCluster"

section \<open>Operations\<close>

definition armConnectionRetryTimer :: "('cb, 'a, 'd, 'z) cd_state \<Rightarrow> ('cb, 'a, 'd, 'z) cd_state" where
  "armConnectionRetryTimer s = arm_retry connectionRetryTimerDuration RetryConnect s"

definition isValidCb :: "nat \<Rightarrow> ('cb, 'a, 'd, 'z) cd_state \<Rightarrow> bool" where
  "isValidCb a s = (a \<in> fst ` set (cbs s))"

definition removeCb :: "nat \<Rightarrow> ('cb, 'a, 'd, 'z) cd_state \<Rightarrow> ('cb, 'a, 'd, 'z) cd_state" where
  "removeCb a s = s\<lparr>cbs := erase_first a (cbs s)\<rparr>"

definition dispatch_checked ::
  "('cb, 'a, 'd, 'z) cd_lib \<Rightarrow> 'cb commandCb \<Rightarrow> namespace \<Rightarrow> contents \<Rightarrow> bool \<Rightarrow> ('cb, 'a, 'd, 'z) cd_state \<Rightarrow>
   ('cb, 'a, 'd, 'z) cd_state result" where
  "dispatch_checked lib commandCb ns c checkConnectionState s =
     (if checkConnectionState \<and> serviceState s \<noteq> CONNECTED
      then Inr (emit (Post (PostCommandError commandCb (make_error_code_dispatcher DEC_NOT_CONNECTED))) s)
      else let a = next_cb s; s1 = push_cb commandCb s
           in rbind (argv c) (\<lambda>args.
                let s2 = emit (HiCommandWithKey a ns args) s1
                in case cluster_command_argv lib a ns args s1 of
                     None \<Rightarrow> Inr s2
                   | Some (err, en) \<Rightarrow>
                       Inr (emit (Post (PostCommandError commandCb (getRedisError True en err None)))
                              (removeCb a s2))))"

definition dispatchAsync ::
  "('cb, 'a, 'd, 'z) cd_lib \<Rightarrow> 'cb commandCb \<Rightarrow> namespace \<Rightarrow> contents \<Rightarrow> ('cb, 'a, 'd, 'z) cd_state \<Rightarrow>
   ('cb, 'a, 'd, 'z) cd_state result" where
  "dispatchAsync lib commandCb ns c s = dispatch_checked lib commandCb ns c True s"

definition setConnected ::
  "('cb, 'a, 'd, 'z) cd_client \<Rightarrow> ('cb, 'a, 'd, 'z) cd_state \<Rightarrow> ('cb, 'a, 'd, 'z) cd_state result" where
  "setConnected u s =
     (let s1 = s\<lparr>serviceState := CONNECTED\<rparr>
      in case connectAck s1 of
           None \<Rightarrow> Inr s1
         | Some ack \<Rightarrow> rbind (on_connect u ack s1) (\<lambda>s2. Inr (s2\<lparr>connectAck := None\<rparr>)))"

definition disconnectHiredisCluster :: "('cb, 'a, 'd, 'z) cd_state \<Rightarrow> ('cb, 'a, 'd, 'z) cd_state" where
  "disconnectHiredisCluster s =
     (let s1 = (if serviceState s = CONNECTED then emit HiFree s else s)
      in s1\<lparr>serviceState := DISCONNECTED\<rparr>)"

definition verifyConnection ::
  "('cb, 'a, 'd, 'z) cd_lib \<Rightarrow> ('cb, 'a, 'd, 'z) cd_state \<Rightarrow> ('cb, 'a, 'd, 'z) cd_state result" where
  "verifyConnection lib s =
     (let nsForVerification = (case initialNamespace s of Some n \<Rightarrow> n | None \<Rightarrow> ''namespace'')
      in dispatch_checked lib VerifyConnectionReply nsForVerification (build1 ''COMMAND'') False s)"

definition connect ::
  "('cb, 'a, 'd, 'z) cd_lib \<Rightarrow> ('cb, 'a, 'd, 'z) cd_state \<Rightarrow> ('cb, 'a, 'd, 'z) cd_state result" where
  "connect lib s =
     (let s1 = disconnectHiredisCluster s;
          addrs = c_str (formatToClusterSyntax (addresses s1));
          r = cluster_async_connect lib addrs s1;
          s2 = emit (HiClusterConnect addrs) (s1\<lparr>acc := r\<rparr>)
      in if r = ConnectNull then Inr (armConnectionRetryTimer s2)
         else if r = ConnectErr then Inr (armConnectionRetryTimer s2)
         else verifyConnection lib
                (emit HiSetDisconnectCallback (emit HiSetConnectCallback (emit HiAttach s2))))"

definition verifyConnectionReply ::
  "('cb, 'a, 'd, 'z) cd_client \<Rightarrow> error_code \<Rightarrow> reply \<Rightarrow> ('cb, 'a, 'd, 'z) cd_state \<Rightarrow>
   ('cb, 'a, 'd, 'z) cd_state result" where
  "verifyConnectionReply u error r s =
     (if ec_bool error then Inr (armConnectionRetryTimer s)
      else rbind (parseCommandListReply r) (\<lambda>cmds.
             if checkRedisModuleCommands cmds then setConnected u s
             else Inl (Abort ''Required Redis module extension commands not available.'')))"

definition call_commandCb ::
  "('cb, 'a, 'd, 'z) cd_client \<Rightarrow> 'cb commandCb \<Rightarrow> error_code \<Rightarrow> reply \<Rightarrow> ('cb, 'a, 'd, 'z) cd_state \<Rightarrow>
   ('cb, 'a, 'd, 'z) cd_state result" where
  "call_commandCb u commandCb error r s =
     (case commandCb of
        VerifyConnectionReply \<Rightarrow> verifyConnectionReply u error r s
      | ClientCb c \<Rightarrow> on_reply u c error r s)"

definition callCommandCbWithError ::
  "('cb, 'a, 'd, 'z) cd_client \<Rightarrow> 'cb commandCb \<Rightarrow> error_code \<Rightarrow> ('cb, 'a, 'd, 'z) cd_state \<Rightarrow>
   ('cb, 'a, 'd, 'z) cd_state result" where
  "callCommandCbWithError u commandCb error s = call_commandCb u commandCb error AsyncRedisReply_default s"

definition waitConnectedAsync :: "'a \<Rightarrow> ('cb, 'a, 'd, 'z) cd_state \<Rightarrow> ('cb, 'a, 'd, 'z) cd_state" where
  "waitConnectedAsync ack s =
     (let s1 = s\<lparr>connectAck := Some ack\<rparr>
      in if serviceState s1 = CONNECTED then emit (Post (PostConnectAck ack)) s1 else s1)"

definition registerDisconnectCb :: "'d \<Rightarrow> ('cb, 'a, 'd, 'z) cd_state \<Rightarrow> ('cb, 'a, 'd, 'z) cd_state" where
  "registerDisconnectCb d s = s\<lparr>disconnectCallback := Some d\<rparr>"

definition disableCommandCallbacks :: "('cb, 'a, 'd, 'z) cd_state \<Rightarrow> ('cb, 'a, 'd, 'z) cd_state" where
  "disableCommandCallbacks s = s\<lparr>clientCallbacksEnabled := False\<rparr>"

definition isClientCallbacksEnabled :: "('cb, 'a, 'd, 'z) cd_state \<Rightarrow> bool" where
  "isClientCallbacksEnabled s = clientCallbacksEnabled s"

definition handleReply ::
  "('cb, 'a, 'd, 'z) cd_client \<Rightarrow> nat \<Rightarrow> error_code \<Rightarrow> redisReply option \<Rightarrow> ('cb, 'a, 'd, 'z) cd_state \<Rightarrow>
   ('cb, 'a, 'd, 'z) cd_state result" where
  "handleReply u a error rr s =
     (if \<not> isValidCb a s then Inl (Abort ''Invalid callback function.'')
      else let commandCb = the (map_of (cbs s) a)
           in rbind (if ec_bool error then call_commandCb u commandCb error AsyncRedisReply_default s
                     else case rr of
                            None \<Rightarrow> Inl Undefined
                          | Some r \<Rightarrow> call_commandCb u commandCb error (AsyncRedisReply r) s)
                (\<lambda>s1. Inr (if \<not> usePermanentCommandCallbacks s1 then removeCb a s1 else s1)))"

definition handleDisconnect ::
  "('cb, 'a, 'd, 'z) cd_client \<Rightarrow> int \<Rightarrow> ('cb, 'a, 'd, 'z) cd_state \<Rightarrow> ('cb, 'a, 'd, 'z) cd_state result" where
  "handleDisconnect u fd s =
     (let s1 = emit (HiDetach fd) s
      in case disconnectCallback s1 of None \<Rightarrow> Inr s1 | Some d \<Rightarrow> on_disconnect u d s1)"

section \<open>Entry points\<close>

definition disconnectCb ::
  "('cb, 'a, 'd, 'z) cd_client \<Rightarrow> int \<Rightarrow> ('cb, 'a, 'd, 'z) cd_state \<Rightarrow> ('cb, 'a, 'd, 'z) cd_state result" where
  "disconnectCb u fd s = handleDisconnect u fd s"

definition cluster_cb ::
  "('cb, 'a, 'd, 'z) cd_client \<Rightarrow> redis_context_err \<Rightarrow> errno \<Rightarrow> redisReply option \<Rightarrow> nat \<Rightarrow>
   ('cb, 'a, 'd, 'z) cd_state \<Rightarrow> ('cb, 'a, 'd, 'z) cd_state result" where
  "cluster_cb u err en rr a s =
     (if isClientCallbacksEnabled s then handleReply u a (getRedisError True en err rr) rr s else Inr s)"

definition retryTimerExpired ::
  "('cb, 'a, 'd, 'z) cd_lib \<Rightarrow> ('cb, 'a, 'd, 'z) cd_state \<Rightarrow> ('cb, 'a, 'd, 'z) cd_state result" where
  "retryTimerExpired lib s =
     (case retryTimer s of None \<Rightarrow> Inr s | Some _ \<Rightarrow> connect lib (s\<lparr>retryTimer := None\<rparr>))"

definition AsyncHiredisClusterCommandDispatcher ::
  "('cb, 'a, 'd, unit) cd_lib \<Rightarrow> namespace option \<Rightarrow> hostAndPort list \<Rightarrow> bool \<Rightarrow> ('cb, 'a, 'd, unit) cd_state result" where
  "AsyncHiredisClusterCommandDispatcher lib ns addrs permanent =
     connect lib
       \<lparr>cbs = [], next_cb = 0, connectAck = None, disconnectCallback = None, clientCallbacksEnabled = True,
        usePermanentCommandCallbacks = permanent, retryTimer = None, out = [], initialNamespace = ns,
        addresses = addrs, serviceState = DISCONNECTED, acc = ConnectNull\<rparr>"

text \<open>After the body of the destructor its timer member is destroyed, which disarms it.\<close>

definition AsyncHiredisClusterCommandDispatcher_destroy :: "('cb, 'a, 'd, 'z) cd_state \<Rightarrow> ('cb, 'a, 'd, 'z) cd_state" where
  "AsyncHiredisClusterCommandDispatcher_destroy s = disarm_retry (disconnectHiredisCluster s)"

section \<open>The contract\<close>

lemma emit_cd_parts [simp]:
  "serviceState (emit e s) = serviceState s" "acc (emit e s) = acc s" "addresses (emit e s) = addresses s"
  "initialNamespace (emit e s) = initialNamespace s"
  by (simp_all add: emit_def)

lemma push_cb_cd_parts [simp]: "serviceState (push_cb c s) = serviceState s"
  by (simp add: push_cb_def)

lemma removeCb_cd_parts [simp]:
  "cbs (removeCb a s) = erase_first a (cbs s)" "next_cb (removeCb a s) = next_cb s" "out (removeCb a s) = out s"
  "serviceState (removeCb a s) = serviceState s" "retryTimer (removeCb a s) = retryTimer s"
  by (simp_all add: removeCb_def)

lemma cluster_dispatch_checked_cases:
  assumes "\<not> (check \<and> serviceState s \<noteq> CONNECTED)" "sized c"
  shows "dispatch_checked lib cb ns c check s =
    Inr (case cluster_command_argv lib (next_cb s) ns (stack c) (push_cb cb s) of
           None \<Rightarrow> emit (HiCommandWithKey (next_cb s) ns (stack c)) (push_cb cb s)
         | Some (err, en) \<Rightarrow>
             emit (Post (PostCommandError cb (getRedisError True en err None)))
               (removeCb (next_cb s) (emit (HiCommandWithKey (next_cb s) ns (stack c)) (push_cb cb s))))"
  using assms(1)
  by (auto simp: dispatch_checked_def argv_sized [OF assms(2)] Let_def split: option.splits)

lemma cluster_dispatchAsync_connected:
  assumes "serviceState s = CONNECTED" "disp_inv s" "sized c"
  shows "\<exists>t. dispatchAsync lib cb ns c s = Inr t \<and> serviceState t = CONNECTED \<and>
      (\<exists>e. out t = out s @ e \<and>
         (map sent e = [Some (stack c)] \<and> cbs t = cbs s @ [(next_cb s, cb)] \<or>
          (\<exists>ec. map sent e = [Some (stack c), None] \<and> error_post cb (last e) = Some ec \<and> ec_bool ec \<and> cbs t = cbs s)))"
proof (cases "cluster_command_argv lib (next_cb s) ns (stack c) (push_cb cb s)")
  case None
  then show ?thesis using cluster_dispatch_checked_cases [of True s c lib cb ns] assms by (simp add: dispatchAsync_def)
next
  case (Some x)
  then show ?thesis using cluster_dispatch_checked_cases [of True s c lib cb ns] assms
    by (cases x) (simp add: dispatchAsync_def disp_inv_def erase_first_last getRedisError_def)
qed

interpretation cluster_dispatcher: command_dispatcher "dispatchAsync lib" "\<lambda>s. serviceState s = CONNECTED" for lib
proof unfold_locales
  show "dispatchAsync lib cb ns c s = Inr (emit (Post (PostCommandError cb (make_error_code_dispatcher DEC_NOT_CONNECTED))) s)"
    if "serviceState s \<noteq> CONNECTED" for s cb ns c
    using that by (simp add: dispatchAsync_def dispatch_checked_def)
qed (rule cluster_dispatchAsync_connected, assumption+, simp)

section \<open>Reconnecting\<close>

lemma cluster_sized_COMMAND [simp]: "sized (build1 ''COMMAND'')"
  by (simp add: build1_def)

lemma verifyConnection_out:
  assumes "verifyConnection lib s = Inr t"
  shows "\<exists>es. out t = out s @ es \<and> HiFree \<notin> set es"
  using assms cluster_dispatch_checked_cases [of False s "build1 ''COMMAND''" lib VerifyConnectionReply]
  by (fastforce simp: verifyConnection_def Let_def split: option.splits)

text \<open>C28: reconnecting after a failed verification. The code frees the previous cluster context
  only in the connected state; a dispatcher that connected to the cluster but was not yet
  verified replaces its context with a new one without freeing it.\<close>

theorem reconnect_does_not_free_unverified_context:
  assumes "serviceState s = DISCONNECTED" "connect lib s = Inr t"
  shows "\<exists>es. out t = out s @ es \<and> HiClusterConnect (c_str (formatToClusterSyntax (addresses s))) \<in> set es \<and>
    HiFree \<notin> set es"
proof -
  let ?a = "c_str (formatToClusterSyntax (addresses s))"
  define s2 where "s2 = emit (HiClusterConnect ?a) (disconnectHiredisCluster s
    \<lparr>acc := cluster_async_connect lib ?a (disconnectHiredisCluster s)\<rparr>)"
  have o: "out s2 = out s @ [HiClusterConnect ?a]"
    using assms(1) by (simp add: s2_def disconnectHiredisCluster_def)
  have "addresses (disconnectHiredisCluster s) = addresses s"
    by (simp add: disconnectHiredisCluster_def)
  then consider "t = armConnectionRetryTimer s2"
    | "verifyConnection lib (emit HiSetDisconnectCallback (emit HiSetConnectCallback (emit HiAttach s2))) = Inr t"
    using assms(2) by (auto simp: connect_def Let_def s2_def split: if_splits)
  then show ?thesis
  proof cases
    case 1
    then show ?thesis using o by (simp add: armConnectionRetryTimer_def arm_retry_def)
  next
    case 2
    then show ?thesis using verifyConnection_out [OF 2] o by auto
  qed
qed

definition sample_cd_lib :: "(nat, nat, nat, unit) cd_lib" where
  "sample_cd_lib = \<lparr>cluster_async_connect = \<lambda>_ _. ConnectOk, cluster_command_argv = \<lambda>_ _ _ _. None\<rparr>"

definition sample_cd_state :: "(nat, nat, nat, unit) cd_state" where
  "sample_cd_state = \<lparr>cbs = [], next_cb = 1, connectAck = None, disconnectCallback = None, clientCallbacksEnabled = True,
     usePermanentCommandCallbacks = False, retryTimer = None, out = [], initialNamespace = None, addresses = [],
     serviceState = DISCONNECTED, acc = ConnectOk\<rparr>"

theorem reconnect_does_not_free_unverified_context_witness:
  "\<exists>t. connect sample_cd_lib sample_cd_state = Inr t \<and> HiFree \<notin> set (out t)"
proof -
  have "\<exists>t. verifyConnection sample_cd_lib s = Inr t" for s
    using cluster_dispatch_checked_cases [of False s "build1 ''COMMAND''" sample_cd_lib VerifyConnectionReply]
    by (simp add: verifyConnection_def Let_def)
  then have "\<exists>t. connect sample_cd_lib sample_cd_state = Inr t"
    by (simp add: connect_def Let_def)
  then obtain t where t: "connect sample_cd_lib sample_cd_state = Inr t" ..
  from reconnect_does_not_free_unverified_context [OF _ t] t show ?thesis
    by (fastforce simp: sample_cd_state_def)
qed

text \<open>A failed verification and a failed connect arm the retry timer.\<close>

lemma failure_arms_retry_timer:
  "ec_bool error \<Longrightarrow> verifyConnectionReply u error r s = Inr t \<Longrightarrow>
     retryTimer t = Some (connectionRetryTimerDuration, RetryConnect)"
  "cluster_async_connect lib (c_str (formatToClusterSyntax (addresses s))) (disconnectHiredisCluster s) \<noteq> ConnectOk \<Longrightarrow>
     connect lib s = Inr t \<Longrightarrow> retryTimer t = Some (connectionRetryTimerDuration, RetryConnect)"
proof -
  have a: "retryTimer (armConnectionRetryTimer x) = Some (connectionRetryTimerDuration, RetryConnect)"
    for x :: "('e, 'f, 'g, 'h) cd_state"
    by (simp add: armConnectionRetryTimer_def arm_retry_def)
  show "ec_bool error \<Longrightarrow> verifyConnectionReply u error r s = Inr t \<Longrightarrow>
     retryTimer t = Some (connectionRetryTimerDuration, RetryConnect)"
    using a by (auto simp: verifyConnectionReply_def)
  have "addresses (disconnectHiredisCluster s) = addresses s"
    by (simp add: disconnectHiredisCluster_def)
  then show "cluster_async_connect lib (c_str (formatToClusterSyntax (addresses s))) (disconnectHiredisCluster s) \<noteq> ConnectOk \<Longrightarrow>
     connect lib s = Inr t \<Longrightarrow> retryTimer t = Some (connectionRetryTimerDuration, RetryConnect)"
    using a by (cases "cluster_async_connect lib (c_str (formatToClusterSyntax (addresses s))) (disconnectHiredisCluster s)")
      (auto simp: connect_def Let_def)
qed

end
