(* ===== verification/Cluster_Storage.thy ===== *)
theory Cluster_Storage
  imports Event_Queue Cluster_Dispatcher
begin

text \<open>
  \<open>AsyncRedisStorage\<close> on top of \<open>AsyncHiredisClusterCommandDispatcher\<close>, with a Redis Cluster behind it.
  Every command carries its namespace as the key that selects the node. The nodes hold disjoint
  parts of the database keys, and their replies arrive in any order.

  A database key is the namespace in braces, a comma and the key. Redis Cluster selects the node of
  a key by the part in braces, if there is one (the hash tag), so all keys of a namespace are on the
  node that the namespace itself selects: \<open>tags_ok\<close>. This is why the storage works on a cluster.
\<close>

section \<open>The cluster\<close>

definition tags_ok :: "(string \<Rightarrow> nat) \<Rightarrow> bool" where
  "tags_ok node \<longleftrightarrow> (\<forall>t k. t \<noteq> [] \<longrightarrow> CHR ''{'' \<notin> set t \<longrightarrow> CHR ''}'' \<notin> set t \<longrightarrow> node (''{'' @ t @ ''}'' @ k) = node t)"

text \<open>A command is executed by the node of the namespace, on the keys of that node.\<close>

definition on_node :: "(string \<Rightarrow> nat) \<Rightarrow> redis \<Rightarrow> namespace \<Rightarrow> redis" where
  "on_node node redis n args db =
     (let here = {k. node k = node n}; (rr, part) = redis args (db |` here) in (rr, (db |` (- here)) ++ part))"

lemma node_enc: "tags_ok node \<Longrightarrow> isValidNamespace n \<Longrightarrow> node (enc n k) = node n"
  by (simp add: tags_ok_def isValidNamespace_iff key_content_def)

lemma map_add_put_all: "f ++ put_all enc n m p = put_all enc n m (f ++ p)"
  unfolding put_all_def by (induction m arbitrary: p) (auto simp: split_beta)

lemma map_add_del: "f x = None \<Longrightarrow> f ++ p(x := None) = (f ++ p)(x := None)"
  by (auto simp: map_add_def fun_eq_iff)

lemma map_add_del_all: "\<forall>k. f (enc n k) = None \<Longrightarrow> f ++ del_all enc n ks p = del_all enc n ks (f ++ p)"
  unfolding del_all_def by (induction ks arbitrary: p) (auto simp: map_add_del)

lemma map_add_parts [simp]: "(db |` (- here)) ++ (db |` here) = db"
  by (auto simp: map_add_def restrict_map_def fun_eq_iff split: option.splits)

lemma on_node_eq:
  "redis args (db |` {k. node k = node n}) = (rr, part) \<Longrightarrow> on_node node redis n args db = (rr, (db |` (- {k. node k = node n})) ++ part)"
  by (simp add: on_node_def)

text \<open>Each node is a Redis, so the cluster serves every namespace.\<close>

lemma on_node_serves:
  assumes ok: "redis_ok glob redis" and tags: "tags_ok node" and n: "isValidNamespace n"
  shows "serves glob (on_node node redis n) n"
proof -
  note enc = node_enc [OF tags n] and served = servesD [OF redis_ok_serves [OF ok]]
  let ?H = "{k. node k = node n}"
  have away: "(db |` (- ?H)) (enc n k) = None" for db :: store and k by (simp add: enc)
  have here: "(db |` ?H) (enc n k) = db (enc n k)" for db :: store and k by (simp add: enc)
  have conditional: "on_node node redis n args db = (if c then (r1, db(enc n k := v)) else (r2, db))"
    if "redis args (db |` ?H) = (if c then (r1, (db |` ?H)(enc n k := v)) else (r2, db |` ?H))"
    for args db c r1 r2 k and v :: "string option"
    using that map_add_del [of "db |` (- ?H)" "enc n k" "db |` ?H"] away by (cases c; cases v) (simp_all add: on_node_eq)
  show ?thesis unfolding serves_def
  proof (intro conjI allI impI)
    fix m args db
    assume "m \<noteq> []" "command_form ''MSET'' (kv_args (map (\<lambda>(k, d). (enc n k, data_string d)) m)) args"
    from on_node_eq [where redis = redis, OF served(1) [OF this]]
    show "on_node node redis n args db = (status_reply, put_all enc n m db)" by (simp add: map_add_put_all)
  next
    fix ks :: keys and db
    assume "ks \<noteq> []"
    from on_node_eq [where redis = redis, OF served(2) [OF this]]
    show "on_node node redis n (''MGET'' # map (enc n) ks) db = (array_reply (map (\<lambda>k. value_reply (db (enc n k))) ks), db)"
      by (simp add: here)
  next
    fix ks args db
    assume "ks \<noteq> []" "command_form ''DEL'' (map (enc n) ks) args"
    from served(3) [OF this] obtain i where "redis args (db |` ?H) = (integer_reply i, del_all enc n ks (db |` ?H))" by blast
    from on_node_eq [where redis = redis, OF this]
    show "\<exists>i. on_node node redis n args db = (integer_reply i, del_all enc n ks db)"
      using map_add_del_all [of "db |` (- ?H)" n] away by auto
  next
    fix p and db :: store
    assume fin: "finite (dom db)" and p: "\<forall>x. glob p x \<longrightarrow> (\<exists>k. x = enc n k)"
    have "finite (dom (db |` ?H))" using fin by (simp add: dom_restrict)
    then obtain xs where xs: "redis [''KEYS'', p] (db |` ?H) = (array_reply (map string_reply xs), db |` ?H)"
      "set xs = {k \<in> dom (db |` ?H). glob p k}" using served(4) [of "db |` ?H" p n] p by blast
    have "{k \<in> dom (db |` ?H). glob p k} = {k \<in> dom db. glob p k}" using p by (auto simp: enc)
    with xs on_node_eq [where redis = redis, OF xs(1)]
    show "\<exists>xs. on_node node redis n [''KEYS'', p] db = (array_reply (map string_reply xs), db) \<and> set xs = {k \<in> dom db. glob p k}" by auto
  next
    fix k new old args db
    assume "command_form ''SETIE'' [enc n k, new, old] args"
    from conditional [OF served(5) [OF this, of "db |` ?H", unfolded here]]
    show "on_node node redis n args db = (if db (enc n k) = Some old then (status_reply, db(enc n k \<mapsto> new)) else (value_reply None, db))" .
  next
    fix k v args db
    assume "command_form ''SETNX'' [enc n k, v] args"
    from conditional [OF served(6) [OF this, of "db |` ?H", unfolded here]]
    show "on_node node redis n args db = (if db (enc n k) = None then (integer_reply 1, db(enc n k \<mapsto> v)) else (integer_reply 0, db))" .
  next
    fix k v args db
    assume "command_form ''DELIE'' [enc n k, v] args"
    from conditional [OF served(7) [OF this, of "db |` ?H", unfolded here]]
    show "on_node node redis n args db = (if db (enc n k) = Some v then (integer_reply 1, db(enc n k := None)) else (integer_reply 0, db))" .
  qed
qed

lemma cluster_serves_all: "redis_ok glob redis \<Longrightarrow> tags_ok node \<Longrightarrow> serves_all glob (on_node node redis)"
  by (simp add: serves_all_def on_node_serves)

section \<open>The composition\<close>

type_synonym 'u cluster_dispatcher = "('u storageCb, 'u connectCb, unit) clusterDispatcher"

record ('u, 'x) cluster_hosting = "('u storageCb, 'u connectCb, unit) clusterDispatcher" +
  cluster_host :: "'u env \<times> ('u, unit, 'x) redisStorage"

definition enter_cluster :: "'u cluster_dispatcher \<Rightarrow> ('u, 'u cluster_dispatcher, 'x) storage_state \<Rightarrow> ('u, 'x) cluster_hosting" where
  "enter_cluster d = (\<lambda>(e, s). clusterDispatcher.extend d \<lparr>cluster_host = (e, without_dispatcher s)\<rparr>)"

definition leave_cluster :: "('u, 'x) cluster_hosting \<Rightarrow> ('u, 'u cluster_dispatcher, 'x) storage_state" where
  "leave_cluster h = (fst (cluster_host h), (without_dispatcher (snd (cluster_host h)))\<lparr>rs_dispatcher := Some (clusterDispatcher.truncate h)\<rparr>)"

text \<open>hiredis-vip accepts every command. The dispatcher exists and no other is created.\<close>

definition working_cluster :: "'s hiredisCluster" where
  "working_cluster = \<lparr>cluster_async_connect = \<lambda>_ _. ConnectOk, cluster_command_argv = \<lambda>_ _ _ _. None\<rparr>"

definition cluster_ops :: "('u, 'u cluster_dispatcher) storage_disp" where
  "cluster_ops = \<lparr>create_op = \<lambda>_ _ _. Inl Undefined,
     dispatch_op = \<lambda>cb n c d. dispatchAsync working_cluster (ClientCb cb) n c d,
     wait_op = waitConnectedAsync, register_op = registerDisconnectCb, disable_op = disableCommandCallbacks\<rparr>"

fun reenter_cluster :: "('u, 'u cluster_dispatcher, 'x) storage_state \<Rightarrow> ('u, 'x) cluster_hosting result" where
  "reenter_cluster (e, s) = (case rs_dispatcher s of None \<Rightarrow> Inl Undefined | Some d \<Rightarrow> Inr (enter_cluster d (e, s)))"

definition cluster_client :: "('u storageCb, 'u connectCb, unit, ('u, 'x) cluster_hosting) client_code" where
  "cluster_client = \<lparr>on_reply = \<lambda>cb ec r h. rbind (storage_reply cluster_ops cb ec r (leave_cluster h)) reenter_cluster,
     on_connect = \<lambda>cb h. rbind (connected_callback cb (leave_cluster h)) reenter_cluster, on_disconnect = \<lambda>_ h. Inr h\<rparr>"

text \<open>The commands handed to hiredis-vip, each with the address of its callback and the namespace. The
  addresses of those that have been answered are known.\<close>

definition key_commands :: "('cb, 'a) effect list \<Rightarrow> (nat \<times> namespace \<times> string list) list" where
  "key_commands es = concat (map (\<lambda>e. case e of HiCommandWithKey a n args \<Rightarrow> [(a, n, args)] | _ \<Rightarrow> []) es)"

definition outstanding :: "nat list \<Rightarrow> ('cb, 'a, 'd, 'z) cd_state \<Rightarrow> (nat \<times> namespace \<times> string list) list" where
  "outstanding replied d = filter (\<lambda>c. fst c \<notin> set replied) (key_commands (out d))"

type_synonym ('u, 'x) cluster_world = "(('u, 'u cluster_dispatcher, 'x) storage_state \<times> nat list) \<times> store"

definition cluster_reply :: "(namespace \<Rightarrow> redis) \<Rightarrow> nat \<Rightarrow> ('u, 'x) cluster_world \<Rightarrow> ('u, 'x) cluster_world result" where
  "cluster_reply cl i = (\<lambda>(((e, s), replied), db).
     case rs_dispatcher s of
       None \<Rightarrow> Inr (((e, s), replied), db)
     | Some d \<Rightarrow>
         if i < length (outstanding replied d)
         then (let (a, n, args) = outstanding replied d ! i; (rr, db') = cl n args db
               in rbind (cluster_cb cluster_client (REDIS_ERR_VALUE 0) (Errno 0) (Some rr) a (enter_cluster d (e, s)))
                    (\<lambda>h. Inr ((leave_cluster h, a # replied), db')))
         else Inr (((e, s), replied), db))"

fun cluster_pipelined1 :: "(namespace \<Rightarrow> redis) \<Rightarrow> 'u event \<Rightarrow> ('u, 'x) cluster_world \<Rightarrow> ('u, 'x) cluster_world result" where
  "cluster_pipelined1 cl (Issue r) ((es, replied), db) = rbind (perform cluster_ops r es) (\<lambda>es'. Inr ((es', replied), db))"
| "cluster_pipelined1 cl (Answer i) ((es, replied), db) = cluster_reply cl i ((es, replied), db)"
| "cluster_pipelined1 cl (Others db') ((es, replied), db) = Inr ((es, replied), db')"

definition cluster_pipelined ::
  "(string \<Rightarrow> nat) \<Rightarrow> redis \<Rightarrow> 'u event list \<Rightarrow> ('u, 'x) cluster_world \<Rightarrow> ('u, 'x) cluster_world result" where
  "cluster_pipelined node redis evs = for_each (cluster_pipelined1 (on_node node redis)) evs"

section \<open>The queue and the dispatcher\<close>

definition cluster_entry :: "'u queued \<Rightarrow> nat \<times> 'u storageCb \<times> namespace \<times> string list \<Rightarrow> bool" where
  "cluster_entry x i \<longleftrightarrow> (case i of (a, cb, n, args) \<Rightarrow> \<exists>c. x = Command cb n c \<and> sized c \<and> stack c = args)"

text \<open>The callbacks of the queue are those of the dispatcher, except the ones that are being called.\<close>

definition tracks ::
  "nat set \<Rightarrow> nat list \<Rightarrow> 'u cmds \<Rightarrow> ('u storageCb, 'u connectCb, unit, 'z) cd_state \<Rightarrow> bool" where
  "tracks calling replied q d \<longleftrightarrow> serviceState d = CONNECTED \<and> disp_inv d \<and> clientCallbacksEnabled d \<and> \<not> usePermanentCommandCallbacks d \<and>
     calling \<subseteq> set replied \<and> (\<forall>a\<in>set replied. a < next_cb d) \<and>
     (\<exists>items. list_all2 cluster_entry q items \<and>
        filter (\<lambda>c. fst c \<notin> calling) (cbs d) = map (\<lambda>(a, cb, _, _). (a, ClientCb cb)) items \<and>
        outstanding replied d = map (\<lambda>(a, _, n, args). (a, n, args)) items)"

lemma key_commands_append [simp]: "key_commands (xs @ ys) = key_commands xs @ key_commands ys"
  by (simp add: key_commands_def)

lemma key_commands_single [simp]: "key_commands [HiCommandWithKey a n args] = [(a, n, args)]"
  by (simp add: key_commands_def)

lemma tracks_dispatch:
  assumes "tracks calling replied q d" "sized c"
  shows "\<exists>d'. dispatchAsync working_cluster (ClientCb cb) n c d = Inr d' \<and> tracks calling replied (q @ [Command cb n c]) d'"
proof -
  let ?d = "emit (HiCommandWithKey (next_cb d) n (stack c)) (push_cb (ClientCb cb) d)" and ?i = "(next_cb d, cb, n, stack c)"
  have d: "serviceState d = CONNECTED" "calling \<subseteq> set replied" "\<forall>a\<in>set replied. a < next_cb d" using assms(1) by (simp_all add: tracks_def)
  have fresh: "next_cb d \<notin> set replied" "next_cb d \<notin> calling" using d(2,3) by auto
  obtain items where items: "list_all2 cluster_entry q items"
    "filter (\<lambda>c. fst c \<notin> calling) (cbs d) = map (\<lambda>(a, cb, _, _). (a, ClientCb cb)) items"
    "outstanding replied d = map (\<lambda>(a, _, n, args). (a, n, args)) items" using assms(1) by (auto simp: tracks_def)
  have "list_all2 cluster_entry (q @ [Command cb n c]) (items @ [?i])"
    using items(1) assms(2) by (auto simp: cluster_entry_def intro: list_all2_appendI)
  then have "tracks calling replied (q @ [Command cb n c]) ?d"
    unfolding tracks_def using assms(1) d(3) items(2,3) fresh
    by (intro conjI exI [of _ "items @ [?i]"]) (auto simp: tracks_def outstanding_def)
  then show ?thesis using cluster_dispatch_checked_cases [of True d c working_cluster "ClientCb cb" n] d(1) assms(2)
    by (simp add: dispatchAsync_def working_cluster_def)
qed

interpretation cluster_recorded: recorded_dispatcher cluster_ops "tracks calling replied" for calling replied
  by unfold_locales (auto simp: cluster_ops_def intro: tracks_dispatch)

text \<open>The command that is answered leaves the queue; its callback stays until it has been called.\<close>

lemma filter_remove_at:
  "distinct (map f xs) \<Longrightarrow> i < length xs \<Longrightarrow> filter (\<lambda>x. f x \<noteq> f (xs ! i)) xs = remove_at i xs"
proof -
  assume "distinct (map f xs)" "i < length xs"
  then have xs: "xs = take i xs @ xs ! i # drop (Suc i) xs" and d: "distinct (map f (take i xs @ xs ! i # drop (Suc i) xs))"
    by (simp_all add: id_take_nth_drop [symmetric])
  have "f (xs ! i) \<notin> f ` set (take i xs)" "f (xs ! i) \<notin> f ` set (drop (Suc i) xs)" using d by auto
  then have "filter (\<lambda>x. f x \<noteq> f (xs ! i)) (take i xs) = take i xs" "filter (\<lambda>x. f x \<noteq> f (xs ! i)) (drop (Suc i) xs) = drop (Suc i) xs"
    by (metis (mono_tags, lifting) filter_True imageI)+
  then show ?thesis using arg_cong [OF xs, of "filter (\<lambda>x. f x \<noteq> f (xs ! i))"] by (simp add: remove_at_def)
qed

lemma map_remove_at: "map f (remove_at i xs) = remove_at i (map f xs)"
  by (simp add: remove_at_def take_map drop_map)

lemma tracks_answered:
  assumes "tracks {} replied q d" "i < length q"
  obtains a cb n c where "q ! i = Command cb n c" "sized c" "i < length (outstanding replied d)" "outstanding replied d ! i = (a, n, stack c)"
    "isValidCb a d" "map_of (cbs d) a = Some (ClientCb cb)" "tracks {a} (a # replied) (remove_at i q) d"
proof -
  obtain items where items: "list_all2 cluster_entry q items" "cbs d = map (\<lambda>(a, cb, _, _). (a, ClientCb cb)) items"
    "outstanding replied d = map (\<lambda>(a, _, n, args). (a, n, args)) items" using assms(1) by (auto simp: tracks_def)
  have len: "i < length items" using items(1) assms(2) by (simp add: list_all2_lengthD)
  obtain a cb n c where i: "items ! i = (a, cb, n, stack c)" "q ! i = Command cb n c" "sized c"
    using list_all2_nthD [OF items(1) assms(2)] by (auto simp: cluster_entry_def)
  have inv: "distinct (map fst (cbs d))" "\<forall>a\<in>fst ` set (cbs d). a < next_cb d" using assms(1) by (auto simp: tracks_def disp_inv_def)
  have "map fst (cbs d) = map fst items" by (simp add: items(2) o_def split_beta)
  then have dist: "distinct (map fst items)" using inv(1) by simp
  have at: "cbs d ! i = (a, ClientCb cb)" "outstanding replied d ! i = (a, n, stack c)" using i len by (simp_all add: items(2,3))
  have mem: "(a, ClientCb cb) \<in> set (cbs d)" using at(1) len by (metis items(2) length_map nth_mem)
  have keep: "filter (\<lambda>x. fst x \<noteq> a) items = remove_at i items" using filter_remove_at [OF dist len] i(1) by simp
  have "filter (\<lambda>c. fst c \<notin> {a}) (cbs d) = map (\<lambda>(a, cb, _, _). (a, ClientCb cb)) (remove_at i items)"
    unfolding items(2) by (simp add: filter_map o_def split_beta flip: keep)
  moreover have "outstanding (a # replied) d = filter (\<lambda>c. fst c \<noteq> a) (outstanding replied d)" by (simp add: outstanding_def conj_commute)
  then have "outstanding (a # replied) d = map (\<lambda>(a, _, n, args). (a, n, args)) (remove_at i items)"
    unfolding items(3) by (simp add: filter_map o_def split_beta flip: keep)
  moreover have "list_all2 cluster_entry (remove_at i q) (remove_at i items)" using items(1) by (rule list_all2_remove_at)
  moreover have "a < next_cb d" using inv(2) mem by force
  ultimately have "tracks {a} (a # replied) (remove_at i q) d" using assms(1) by (auto simp: tracks_def)
  moreover have "isValidCb a d" "map_of (cbs d) a = Some (ClientCb cb)" using mem inv(1) by (force simp: isValidCb_def)+
  ultimately show thesis using that i(2,3) at(2) len by (simp add: items(3))
qed

lemma tracks_removed:
  assumes "tracks {a} replied q d"
  shows "tracks {} replied q (removeCb a d)"
proof -
  have inv: "disp_inv d" using assms by (simp add: tracks_def)
  have "disp_inv (removeCb a d)" using inv by (auto simp: disp_inv_def erase_first_filter distinct_map_filter)
  moreover have "cbs (removeCb a d) = filter (\<lambda>c. fst c \<notin> {a}) (cbs d)" using inv by (simp add: disp_inv_def erase_first_filter)
  ultimately show ?thesis using assms by (simp add: tracks_def outstanding_def removeCb_def)
qed

section \<open>Replies\<close>

abbreviation same_cluster ::
  "nat list \<Rightarrow> ('u, 'u cmds, 'x) storage_state \<Rightarrow> ('u, 'u cluster_dispatcher, 'x) storage_state \<Rightarrow> bool" where
  "same_cluster replied \<equiv> same_storage (tracks {} replied)"

lemma enter_cluster_parts [simp]:
  "cbs (enter_cluster d es) = cbs d" "clientCallbacksEnabled (enter_cluster d es) = clientCallbacksEnabled d"
  "usePermanentCommandCallbacks (enter_cluster d es) = usePermanentCommandCallbacks d"
  by (simp_all add: enter_cluster_def clusterDispatcher.defs split: prod.split)

lemma leave_enter_cluster: "leave_cluster (enter_cluster d (e, s)) = (e, (without_dispatcher s)\<lparr>rs_dispatcher := Some d\<rparr>)"
  by (simp add: leave_cluster_def enter_cluster_def clusterDispatcher.defs without_dispatcher_def)

lemma leave_removed_cluster:
  "leave_cluster (removeCb a (enter_cluster d (e, s))) = (e, (without_dispatcher s)\<lparr>rs_dispatcher := Some (removeCb a d)\<rparr>)"
  by (simp add: leave_cluster_def enter_cluster_def clusterDispatcher.defs without_dispatcher_def removeCb_def)

text \<open>The dispatcher calls the callback of a command with the reply, and then forgets it.\<close>

lemma cluster_cb_answered:
  fixes s :: "('u, 'u cluster_dispatcher, 'x) redisStorage" and cb :: "'u storageCb"
  defines "ec rr \<equiv> getRedisError False (Errno 0) (REDIS_ERR_VALUE 0) (Some rr)"
  assumes "clientCallbacksEnabled d" "isValidCb a d" "map_of (cbs d) a = Some (ClientCb cb)" "\<not> usePermanentCommandCallbacks d1"
    "storage_reply cluster_ops cb (ec rr) (delivered_reply (ec rr) rr) (leave_cluster (enter_cluster d (e, s))) = Inr (e1, s2)" "rs_dispatcher s2 = Some d1"
  shows "cluster_cb cluster_client (REDIS_ERR_VALUE 0) (Errno 0) (Some rr) a (enter_cluster d (e, s)) = Inr (removeCb a (enter_cluster d1 (e1, s2)))"
proof -
  have client: "on_reply cluster_client cb (ec rr) (delivered_reply (ec rr) rr) (enter_cluster d (e, s)) = Inr (enter_cluster d1 (e1, s2))"
    using assms(6,7) by (simp add: cluster_client_def)
  have "getRedisError True (Errno 0) (REDIS_ERR_VALUE 0) (Some rr) = ec rr" unfolding ec_def by (rule getRedisError_reply)
  then show ?thesis using assms(2-5) client
    by (cases "ec_bool (ec rr)") (simp_all add: delivered_reply_def cluster_cb_def isClientCallbacksEnabled_def handleReply_def isValidCb_def call_commandCb_def Let_def)
qed

lemma cluster_reply_same:
  assumes same: "same_cluster replied (e, s) (e', s')" and served: "serve_at cl i ((e, s), db) = Inr ((e1, s1), db1)"
  shows "\<exists>x replied'. cluster_reply cl i (((e', s'), replied), db) = Inr ((x, replied'), db1) \<and> same_cluster replied' (e1, s1) x"
proof -
  obtain q d where q: "rs_dispatcher s = Some q" "rs_dispatcher s' = Some d" "tracks {} replied q d"
    and e': "e' = e" and rest: "without_dispatcher s' = (without_dispatcher s :: ('a, unit, 'b) redisStorage)"
    using same by (auto simp: same_storage_def)
  have len: "length (outstanding replied d) = length q" using q(3) by (auto simp: tracks_def dest: list_all2_lengthD)
  show ?thesis
  proof (cases "i < length q")
    case False
    then show ?thesis using served same q len by (simp add: cluster_reply_def serve_at_def)
  next
    case True
    obtain a cb n c where a: "q ! i = Command cb n c" "sized c" "i < length (outstanding replied d)" "outstanding replied d ! i = (a, n, stack c)"
      "isValidCb a d" "map_of (cbs d) a = Some (ClientCb cb)" "tracks {a} (a # replied) (remove_at i q) d"
      by (rule tracks_answered [OF q(3) True])
    obtain rr db' where rr: "cl n (stack c) db = (rr, db')" by fastforce
    let ?ec = "getRedisError False (Errno 0) (REDIS_ERR_VALUE 0) (Some rr)"
    let ?rep = "delivered_reply ?ec rr"
    let ?s = "s\<lparr>rs_dispatcher := Some (remove_at i q)\<rparr>"
    have abs: "storage_reply recorder cb ?ec ?rep (e, ?s) = Inr (e1, s1)" "db1 = db'"
      using served q(1) True a(1,2) rr by (auto simp: serve_at_def serve1_def argv_sized rbind_Inr_iff Let_def)
    have left: "same_storage (tracks {a} (a # replied)) (e, ?s) (e, (without_dispatcher s')\<lparr>rs_dispatcher := Some d\<rparr>)"
      using a(7) rest by (simp add: same_storage_def)
    obtain s2 where s2: "storage_reply cluster_ops cb ?ec ?rep (e, (without_dispatcher s')\<lparr>rs_dispatcher := Some d\<rparr>) = Inr (e1, s2)"
      "same_storage (tracks {a} (a # replied)) (e1, s1) (e1, s2)"
      by (rule cluster_recorded.reply_succeeds [OF left abs(1)])
    obtain q1 d1 where d1: "rs_dispatcher s1 = Some q1" "rs_dispatcher s2 = Some d1" "tracks {a} (a # replied) q1 d1"
      "without_dispatcher s2 = (without_dispatcher s1 :: ('a, unit, 'b) redisStorage)"
      using s2(2) by (auto simp: same_storage_def)
    have "clientCallbacksEnabled d" "\<not> usePermanentCommandCallbacks d1" using q(3) d1(3) by (simp_all add: tracks_def)
    then have "cluster_cb cluster_client (REDIS_ERR_VALUE 0) (Errno 0) (Some rr) a (enter_cluster d (e, s')) = Inr (removeCb a (enter_cluster d1 (e1, s2)))"
      using a(5,6) s2(1) d1(2) by (intro cluster_cb_answered) (simp_all add: leave_enter_cluster)
    then have "cluster_reply cl i (((e', s'), replied), db) = Inr ((leave_cluster (removeCb a (enter_cluster d1 (e1, s2))), a # replied), db1)"
      using q(2) a(3,4) rr abs(2) by (simp add: cluster_reply_def e')
    moreover have "same_cluster (a # replied) (e1, s1) (leave_cluster (removeCb a (enter_cluster d1 (e1, s2))))"
      using d1 tracks_removed [OF d1(3)] by (simp add: same_storage_def leave_removed_cluster)
    ultimately show ?thesis by blast
  qed
qed

lemma cluster_pipelined1_same:
  assumes "same_cluster replied (e, s) (e', s')" "pipelined1 cl ev ((e, s), db) = Inr ((e1, s1), db1)"
  shows "\<exists>x replied'. cluster_pipelined1 cl ev (((e', s'), replied), db) = Inr ((x, replied'), db1) \<and> same_cluster replied' (e1, s1) x"
proof (cases ev)
  case (Issue r)
  then have "perform recorder r (e, s) = Inr (e1, s1)" and db1: "db1 = db" using assms(2) by (auto simp: rbind_Inr_iff)
  then obtain s2 where "perform cluster_ops r (e', s') = Inr (e1, s2)" "same_cluster replied (e1, s1) (e1, s2)"
    using cluster_recorded.perform_succeeds [OF assms(1)] by blast
  then show ?thesis by (simp add: Issue db1)
next
  case (Answer i)
  then show ?thesis using cluster_reply_same [OF assms(1)] assms(2) by simp
qed (use assms in auto)

interpretation cluster_events: pipelined_dispatcher cl "cluster_pipelined1 cl" same_cluster "\<lambda>_. True" for cl
proof unfold_locales
  show "\<exists>x' k'. cluster_pipelined1 cl ev ((x, k), db) = Inr ((x', k'), db1) \<and> same_cluster k' (e1, s1) x'"
    if "same_cluster k (e, s) x" "pipelined1 cl ev ((e, s), db) = Inr ((e1, s1), db1)"
    for k e s x ev db e1 s1 db1
    using cluster_pipelined1_same [of k e s "fst x" "snd x"] that by simp
qed

section \<open>Operations on a cluster\<close>

text \<open>A dispatcher that is connected and has nothing to do.\<close>

definition cluster_idle :: "nat list \<Rightarrow> ('u storageCb, 'u connectCb, unit) clusterDispatcher \<Rightarrow> bool" where
  "cluster_idle replied d \<longleftrightarrow> serviceState d = CONNECTED \<and> clientCallbacksEnabled d \<and> \<not> usePermanentCommandCallbacks d \<and> cbs d = [] \<and>
     outstanding replied d = [] \<and> (\<forall>a\<in>set replied. a < next_cb d)"

lemma cluster_idle_tracks: "cluster_idle replied d \<Longrightarrow> tracks {} replied [] d"
  by (simp add: cluster_idle_def tracks_def disp_inv_def)

lemma tracks_outstanding:
  assumes "tracks {} replied q d"
  shows "serviceState d = CONNECTED" "length (outstanding replied d) = length q" "map fst (cbs d) = map fst (outstanding replied d)"
  using assms by (auto simp: tracks_def o_def split_beta dest: list_all2_lengthD)

text \<open>How such a dispatcher comes about: it is created, and a node answers the verification query.\<close>

lemma verified_cluster_idle:
  assumes "AsyncHiredisClusterCommandDispatcher working_cluster ns addrs False = Inr d0" "rr_type r \<noteq> REDIS_REPLY_ERROR"
    "parseCommandListReply (AsyncRedisReply r) = Inr cmds" "checkRedisModuleCommands cmds"
  shows "\<exists>d. cluster_cb u (REDIS_ERR_VALUE 0) (Errno 0) (Some r) 0 d0 = Inr d \<and> cluster_idle [0] d"
proof -
  define n where "n = (case ns of None \<Rightarrow> ''namespace'' | Some n \<Rightarrow> n)"
  have sent: "dispatch_checked working_cluster VerifyConnectionReply n (build1 ''COMMAND'') False s =
    Inr (emit (HiCommandWithKey (next_cb s) n [''COMMAND'']) (push_cb VerifyConnectionReply s))" for s :: "('a storageCb, 'a connectCb, unit, unit) cd_state"
    by (subst cluster_dispatch_checked_cases) (simp_all add: working_cluster_def stack_build)
  have d0: "cbs d0 = [(0, VerifyConnectionReply)]" "next_cb d0 = 1" "clientCallbacksEnabled d0" "\<not> usePermanentCommandCallbacks d0" "connectAck d0 = None"
    "key_commands (out d0) = [(0, n, [''COMMAND''])]"
    using assms(1)
    by (auto simp: AsyncHiredisClusterCommandDispatcher_def connect_def disconnectHiredisCluster_def verifyConnection_def Let_def
        working_cluster_def [THEN arg_cong [where f = cluster_async_connect]] sent n_def [symmetric])
      (simp_all add: emit_def push_cb_def key_commands_def)
  then show ?thesis using assms(2-4)
    by (simp add: cluster_cb_def isClientCallbacksEnabled_def handleReply_def isValidCb_def getRedisError_def call_commandCb_def
        verifyConnectionReply_def setConnected_def cluster_idle_def outstanding_def removeCb_def no_error_def ec_bool_def)
qed

text \<open>C8: the storage on a Redis Cluster. Whatever operations on whatever namespaces are started, in
  whatever order the nodes answer, and whatever other clients do to the database in between, every
  operation of \<open>AsyncRedisStorage\<close> with a connected \<open>AsyncHiredisClusterCommandDispatcher\<close> takes effect
  at one moment between its start and its acknowledgement, on the data of that moment, and is
  acknowledged with what it did. The keys of a namespace are on one node, the node to which the
  dispatcher sends the commands of the namespace, so operations on several keys are not torn, and
  searches for keys find all keys of the namespace. The callbacks the dispatcher keeps are exactly
  those of the commands that no node has answered.\<close>

theorem cluster_operations_linearizable:
  assumes "glob_ok glob" "redis_ok glob redis" "tags_ok node" "nc_inv (ns_confs e)" "finite (dom db)" "\<forall>ev\<in>set evs. event_ok ev"
    "rs_dispatcher s = Some d" "cluster_idle replied d" "pipe_spec glob evs ([], sdl_view db, []) = (pending, A, acks)"
  shows "\<exists>e' s' replied' db' d'. cluster_pipelined node redis evs (((e, s), replied), db) = Inr (((e', s'), replied'), db') \<and>
    posted e' = posted e \<and> called e' = called e @ acks \<and> sdl_view db' = A \<and>
    rs_dispatcher s' = Some d' \<and> serviceState d' = CONNECTED \<and> length (outstanding replied' d') = length pending \<and>
    map fst (cbs d') = map fst (outstanding replied' d')"
proof -
  let ?s = "(without_dispatcher s)\<lparr>rs_dispatcher := Some []\<rparr>"
  have start: "same_cluster replied (e, ?s) (e, s)" "pipe_ok glob (on_node node redis) [] ((e, ?s), db)"
    using assms(4,5,7) cluster_idle_tracks [OF assms(8)] by (simp_all add: same_storage_def pipe_ok_def)
  have "\<forall>ev\<in>set evs. event_ok ev \<and> True" using assms(6) by simp
  from cluster_events.runs [OF assms(1) cluster_serves_all [OF assms(2,3)] start this]
  obtain e1 s1 e' s' replied' db1 rs1 cs where run: "cluster_pipelined node redis evs (((e, s), replied), db) = Inr (((e', s'), replied'), db1)"
    "same_cluster replied' (e1, s1) (e', s')" "pipe_ok glob (on_node node redis) rs1 ((e1, s1), db1)" "posted e1 = posted e" "called e1 = called e @ cs"
    "pipe_spec glob evs ([], sdl_view db, []) = (rs1, sdl_view db1, [] @ cs)"
    by (fastforce simp: cluster_pipelined_def)
  obtain q d' where d': "e' = e1" "rs_dispatcher s1 = Some q" "rs_dispatcher s' = Some d'" "tracks {} replied' q d'"
    using run(2) by (auto simp: same_storage_def)
  have "length q = length rs1" using run(3) d'(2) by (auto simp: pipe_ok_def dest: list_all2_lengthD)
  then show ?thesis using run(1,4-6) d'(1,3) tracks_outstanding [OF d'(4)] assms(9) by auto
qed

text \<open>Two namespaces on two nodes; the younger command is answered first.\<close>

definition sample_node :: "string \<Rightarrow> nat" where
  "sample_node k = length (if take 1 k = ''{'' then takeWhile (\<lambda>c. c \<noteq> CHR ''}'') (tl k) else k)"

lemma sample_node_ok: "tags_ok sample_node"
  unfolding tags_ok_def
proof (intro allI impI)
  fix t k :: string
  assume t: "t \<noteq> []" "CHR ''{'' \<notin> set t" "CHR ''}'' \<notin> set t"
  then have "takeWhile (\<lambda>c. c \<noteq> CHR ''}'') (t @ CHR ''}'' # k) = t" by (subst takeWhile_append2) auto
  moreover have "take 1 t \<noteq> ''{''" using t(1,2) by (cases t) auto
  ultimately show "sample_node (''{'' @ t @ ''}'' @ k) = sample_node t" by (simp add: sample_node_def)
qed

definition sample_cluster_dispatcher :: "nat cluster_dispatcher" where
  "sample_cluster_dispatcher = \<lparr>cbs = [], next_cb = 1, connectAck = None, disconnectCallback = None, clientCallbacksEnabled = True,
     usePermanentCommandCallbacks = False, retryTimer = None, out = [HiAttach, HiCommandWithKey 0 ''namespace'' [''COMMAND'']],
     initialNamespace = None, addresses = [], serviceState = CONNECTED, acc = ConnectOk\<rparr>"

abbreviation cluster_sample_events :: "nat event list" where
  "cluster_sample_events \<equiv> [Issue (Set ''abc'' [(''k'', [1])] 0), Issue (Set ''b'' [(''k'', [2])] 1), Answer 1,
     Issue (Get ''abc'' [''k''] 2), Answer 0, Answer 0]"

theorem cluster_operations_linearizable_witness:
  "\<exists>e' s' replied' db'. cluster_pipelined sample_node sample_redis cluster_sample_events
       (((sample_env, \<lparr>rs_dispatcher = Some sample_cluster_dispatcher, rs_discovery = (None :: unit option), publisherId = None,
          readyAck = None, dbInfo = None\<rparr>), [0]), Map.empty) = Inr (((e', s'), replied'), db') \<and>
     called e' = [CallModify 1 no_error, CallModify 0 no_error, CallGet 2 no_error [(''k'', [1])]]"
proof -
  let ?s = "\<lparr>rs_dispatcher = Some sample_cluster_dispatcher, rs_discovery = (None :: unit option), publisherId = None, readyAck = None, dbInfo = None\<rparr>"
  have ok: "\<forall>ev\<in>set cluster_sample_events. event_ok ev" by (simp add: isValidNamespace_iff)
  have idle: "cluster_idle [0] sample_cluster_dispatcher"
    by (simp add: cluster_idle_def sample_cluster_dispatcher_def outstanding_def key_commands_def)
  have view: "sdl_view Map.empty = (\<lambda>_. Map.empty)" by (simp add: sdl_view_def fun_eq_iff)
  obtain A where A: "pipe_spec sample_glob cluster_sample_events ([], sdl_view Map.empty, []) =
      ([], A, [CallModify 1 no_error, CallModify 0 no_error, CallGet 2 no_error [(''k'', [1])]])"
    by (simp add: pipe_spec_def remove_at_def view)
  have "rs_dispatcher ?s = Some sample_cluster_dispatcher" by simp
  from cluster_operations_linearizable [OF sample_glob_ok sample_redis_ok sample_node_ok sample_env_inv _ ok this idle A]
  show ?thesis by (auto simp: sample_env_def)
qed

end
