(* ===== verification/Configuration_Reader.thy ===== *)
theory Configuration_Reader
  imports Database_Configuration Namespace_Configurations
begin

text \<open>
  \<open>ConfigurationReader\<close> (\<open>src/configurationreader.cpp\<close>) and the search for configuration files
  (\<open>src/configurationpaths.cpp\<close>): how the environment variables and the JSON files become a
  \<open>DatabaseConfigurationImpl\<close> and a \<open>NamespaceConfigurationsImpl\<close>.

  The JSON trees are boost's \<open>property_tree\<close>: an abstract type \<open>'pt\<close> with the accessors the
  code calls, the fields of \<open>ptree_ops\<close>. The parser, the directory listing and the environment
  are arguments too. The iteration order of the \<open>unordered_map\<close> of namespace configurations is
  the argument \<open>iter\<close>. The loops over comma separated strings are the code's own loops on
  positions; they are shown equal to loops over the list of elements.
\<close>

datatype 'a get_result = Found 'a | BadPath | BadData string

record 'pt ptree_ops =
  get_child_optional :: "'pt \<Rightarrow> string \<Rightarrow> 'pt option"
  ptree_children :: "'pt \<Rightarrow> (string \<times> 'pt) list"
  get_string :: "'pt \<Rightarrow> string \<Rightarrow> string get_result"
  get_bool :: "'pt \<Rightarrow> string \<Rightarrow> bool get_result"

datatype 'pt json_result = Parsed 'pt | ParserError nat string

section \<open>Error texts and validated settings\<close>

definition configuration_error :: "string \<Rightarrow> string \<Rightarrow> failure" where
  "configuration_error source msg =
     Throw (SdlException (''Configuration error in '' @ source @ '': '' @ msg))"

definition get :: "('pt \<Rightarrow> string \<Rightarrow> 'a get_result) \<Rightarrow> 'pt \<Rightarrow> string \<Rightarrow> string \<Rightarrow> 'a result" where
  "get accessor ptree param source =
     (case accessor ptree param of
        Found v \<Rightarrow> Inr v
      | BadPath \<Rightarrow> Inl (configuration_error source (''missing '' @ dquote @ param @ dquote))
      | BadData d \<Rightarrow> Inl (configuration_error source
          (''invalid '' @ dquote @ param @ dquote @ '': '' @ dquote @ d @ dquote)))"

definition validateAndSetDbType ::
  "string \<Rightarrow> databaseConfiguration \<Rightarrow> string \<Rightarrow> databaseConfiguration result" where
  "validateAndSetDbType type c source =
     (case checkAndApplyDbType type c of
        Inl (Throw e) \<Rightarrow> Inl (configuration_error source (what e))
      | r \<Rightarrow> r)"

definition validateAndSetDbServerAddress ::
  "'l conf_lib_scheme \<Rightarrow> string \<Rightarrow> databaseConfiguration \<Rightarrow> string \<Rightarrow> databaseConfiguration result" where
  "validateAndSetDbServerAddress lib address c source =
     (case checkAndApplyServerAddress lib address c of
        Inl (Throw e) \<Rightarrow> Inl (configuration_error source
          (''invalid '' @ dquote @ ''address'' @ dquote @ '': '' @ dquote @ address @ dquote @ '' '' @ what e))
      | r \<Rightarrow> r)"

section \<open>The JSON database section\<close>

definition parseDatabaseServerConfiguration ::
  "'l conf_lib_scheme \<Rightarrow> 'pt ptree_ops \<Rightarrow> databaseConfiguration \<Rightarrow> 'pt \<Rightarrow> string \<Rightarrow>
   databaseConfiguration result" where
  "parseDatabaseServerConfiguration lib ops c ptree source =
     rbind (get (get_string ops) ptree ''address'' source)
       (\<lambda>address. validateAndSetDbServerAddress lib address c source)"

definition parseDatabaseServersConfiguration ::
  "'l conf_lib_scheme \<Rightarrow> 'pt ptree_ops \<Rightarrow> databaseConfiguration \<Rightarrow> 'pt \<Rightarrow> string \<Rightarrow>
   databaseConfiguration result" where
  "parseDatabaseServersConfiguration lib ops c ptree source =
     (case get_child_optional ops ptree ''servers'' of
        Some servers \<Rightarrow>
          for_each (\<lambda>server c. parseDatabaseServerConfiguration lib ops c (snd server) source)
            (ptree_children ops servers) c
      | None \<Rightarrow> Inl (configuration_error source (''missing '' @ dquote @ ''servers'' @ dquote)))"

definition parseDatabaseConfiguration ::
  "'l conf_lib_scheme \<Rightarrow> 'pt ptree_ops \<Rightarrow> databaseConfiguration \<Rightarrow> 'pt \<Rightarrow> string \<Rightarrow>
   databaseConfiguration result" where
  "parseDatabaseConfiguration lib ops c ptree source =
     rbind (get (get_string ops) ptree ''type'' source)
       (\<lambda>type. rbind (validateAndSetDbType type c source)
          (\<lambda>c'. parseDatabaseServersConfiguration lib ops c' ptree source))"

definition parseDatabaseConfigurationTree ::
  "'l conf_lib_scheme \<Rightarrow> 'pt ptree_ops \<Rightarrow> databaseConfiguration \<Rightarrow> 'pt option \<Rightarrow> string \<Rightarrow>
   databaseConfiguration result" where
  "parseDatabaseConfigurationTree lib ops c tree source =
     (case tree of
        Some ptree \<Rightarrow> parseDatabaseConfiguration lib ops c ptree source
      | None \<Rightarrow> Inr c)"

section \<open>Comma separated lists\<close>

lemma str_find_bounds: "str_find c base s = Some i \<Longrightarrow> base \<le> i \<and> i < length s"
  by (auto simp: str_find_def dest: index_of_less)

text \<open>The do-while loop of \<open>parseDatabaseServersConfigurationFromString\<close>, from position
  \<open>base\<close>.\<close>

function servers_loop ::
  "'l conf_lib_scheme \<Rightarrow> string \<Rightarrow> string \<Rightarrow> nat \<Rightarrow> databaseConfiguration \<Rightarrow>
   databaseConfiguration result" where
  "servers_loop lib conf source base c =
     (case str_find CHR '','' base conf of
        None \<Rightarrow> validateAndSetDbServerAddress lib (substr_from base conf) c source
      | Some pos \<Rightarrow>
          rbind (validateAndSetDbServerAddress lib (substr base (pos - base) conf) c source)
            (\<lambda>c'. servers_loop lib conf source (pos + 1) c'))"
  by pat_completeness auto
termination
  by (relation "measure (\<lambda>(lib, conf, source, base, c). length conf + 1 - base)")
     (auto dest: str_find_bounds)

declare servers_loop.simps [simp del]

definition parseDatabaseServersConfigurationFromString ::
  "'l conf_lib_scheme \<Rightarrow> databaseConfiguration \<Rightarrow> string \<Rightarrow> string \<Rightarrow> databaseConfiguration result" where
  "parseDatabaseServersConfigurationFromString lib c serverConfiguration source =
     servers_loop lib serverConfiguration source 0 c"

definition DEFAULT_REDIS_PORT :: string where
  "DEFAULT_REDIS_PORT = ''6379''"

text \<open>The while loop of \<open>appendDBPortToAddrList\<close>: the list is edited in place.\<close>

function append_port_loop :: "string \<Rightarrow> string \<Rightarrow> nat \<Rightarrow> string" where
  "append_port_loop redisPort addresses base =
     (case str_find CHR '','' base addresses of
        None \<Rightarrow> addresses
      | Some pos \<Rightarrow>
          append_port_loop redisPort (str_insert pos ('':'' @ redisPort) addresses)
            (pos + 2 + length redisPort))"
  by pat_completeness auto
termination
proof (relation "measure (\<lambda>(redisPort, addresses, base). length addresses - base)")
  fix redisPort addresses :: string and base pos :: nat
  assume "str_find CHR '','' base addresses = Some pos"
  then have "base \<le> pos" "pos < length addresses" by (auto dest: str_find_bounds)
  then show "((redisPort, str_insert pos ('':'' @ redisPort) addresses, pos + 2 + length redisPort),
      (redisPort, addresses, base)) \<in> measure (\<lambda>(redisPort, addresses, base). length addresses - base)"
    by (simp add: str_insert_def)
qed simp

declare append_port_loop.simps [simp del]

definition appendDBPortToAddrList :: "'l conf_lib_scheme \<Rightarrow> string \<Rightarrow> string \<Rightarrow> string" where
  "appendDBPortToAddrList lib addresses p =
     (let portList = split lib '','' p;
          idx = (0 :: nat);
          redisPort = (if 0 < length portList \<and> idx < length portList then portList ! idx
                       else DEFAULT_REDIS_PORT)
      in append_port_loop redisPort addresses 0 @ '':'' @ redisPort)"

section \<open>Namespace configurations\<close>

definition validateNamespacePrefix :: "string \<Rightarrow> string \<Rightarrow> unit result" where
  "validateNamespacePrefix prefix source =
     (if \<not> isValidNamespaceSyntax prefix
      then Inl (configuration_error source
        (dquote @ ''namespacePrefix'' @ dquote @ '': '' @ dquote @ prefix @ dquote @
         '' contains some of these disallowed characters: '' @ getDisallowedCharactersInNamespace))
      else Inr ())"

definition validateEnableNotifications :: "bool \<Rightarrow> bool \<Rightarrow> string \<Rightarrow> unit result" where
  "validateEnableNotifications enableNotifications useDbBackend source =
     (if enableNotifications \<and> \<not> useDbBackend
      then Inl (configuration_error source
        (dquote @ ''enableNotifications'' @ dquote @ '' cannot be true, when '' @ dquote @
         ''useDbBackend'' @ dquote @ '' is false''))
      else Inr ())"

definition parseNsConfiguration ::
  "'pt ptree_ops \<Rightarrow> namespaceConfigurationsImpl \<Rightarrow> string \<Rightarrow> 'pt \<Rightarrow> string \<Rightarrow>
   namespaceConfigurationsImpl result" where
  "parseNsConfiguration ops ncs prefix ptree source =
     rbind (get (get_bool ops) ptree ''useDbBackend'' source) (\<lambda>useDbBackend.
     rbind (get (get_bool ops) ptree ''enableNotifications'' source) (\<lambda>enableNotifications.
     rbind (validateNamespacePrefix prefix source) (\<lambda>_.
     rbind (validateEnableNotifications enableNotifications useDbBackend source) (\<lambda>_.
     addNamespaceConfiguration
       \<lparr>namespacePrefix = prefix, dbBackendIsUsed = useDbBackend,
        notificationsAreEnabled = enableNotifications, sourceName = source\<rparr> ncs))))"

definition parseNsConfigurationMap ::
  "'pt ptree_ops \<Rightarrow> ((string \<times> 'pt \<times> string) list \<Rightarrow> (string \<times> 'pt \<times> string) list) \<Rightarrow>
   namespaceConfigurationsImpl \<Rightarrow> (string \<times> 'pt \<times> string) list \<Rightarrow> namespaceConfigurationsImpl result" where
  "parseNsConfigurationMap ops iter ncs m =
     for_each (\<lambda>(prefix, ptree, source) ncs. parseNsConfiguration ops ncs prefix ptree source) (iter m) ncs"

section \<open>The reader\<close>

abbreviation "DB_HOST_ENV_VAR_NAME \<equiv> ''DBAAS_SERVICE_HOST''"
abbreviation "DB_PORT_ENV_VAR_NAME \<equiv> ''DBAAS_SERVICE_PORT''"
abbreviation "SENTINEL_PORT_ENV_VAR_NAME \<equiv> ''DBAAS_SERVICE_SENTINEL_PORT''"
abbreviation "SENTINEL_MASTER_NAME_ENV_VAR_NAME \<equiv> ''DBAAS_MASTER_NAME''"
abbreviation "DB_CLUSTER_ADDR_LIST_ENV_VAR_NAME \<equiv> ''DBAAS_CLUSTER_ADDR_LIST''"

record 'pt configurationReader =
  dbHostEnvVariableValue :: string
  dbPortEnvVariableValue :: string
  sentinelPortEnvVariableValue :: string
  sentinelMasterNameEnvVariableValue :: string
  dbClusterAddrListEnvVariableValue :: string
  jsonDatabaseConfiguration :: "'pt option"
  sourceForDatabaseConfiguration :: string
  jsonNamespaceConfigurations :: "(string \<times> 'pt \<times> string) list"

text \<open>Configuration files: the regular, non-hidden \<open>.json\<close> entries of the directories, by
  name, sorted. \<open>listing\<close> is the result of \<open>opendir\<close>/\<open>readdir\<close>.\<close>

record dir_entry =
  is_regular :: bool
  d_name :: string

definition findConfigurationFilesFromDirectory ::
  "(string \<Rightarrow> string \<Rightarrow> bool) \<Rightarrow> (string \<Rightarrow> dir_entry list option) \<Rightarrow> string \<Rightarrow> string list \<Rightarrow> string list" where
  "findConfigurationFilesFromDirectory ends_with listing path paths =
     (case listing path of
        None \<Rightarrow> paths
      | Some entries \<Rightarrow>
          paths @ map d_name (filter (\<lambda>e. is_regular e \<and> take 1 (d_name e) \<noteq> ''.'' \<and>
            ends_with (d_name e) ''.json'') entries))"

definition findConfigurationFiles ::
  "(string \<Rightarrow> string \<Rightarrow> bool) \<Rightarrow> (string \<Rightarrow> dir_entry list option) \<Rightarrow> string list \<Rightarrow> string list" where
  "findConfigurationFiles ends_with listing directories =
     sort (fold (findConfigurationFilesFromDirectory ends_with listing) directories [])"

definition readConfiguration ::
  "'pt ptree_ops \<Rightarrow> 'pt json_result \<Rightarrow> string \<Rightarrow> 'pt configurationReader \<Rightarrow>
   'pt configurationReader result" where
  "readConfiguration ops input currentSourceName r =
     (case input of
        ParserError line message \<Rightarrow>
          Inl (Throw (SdlException (''error in SDL configuration '' @ currentSourceName @
            '' at line '' @ show_nat line @ '': '' @ message)))
      | Parsed propertyTree \<Rightarrow>
          (let r' = (if sourceForDatabaseConfiguration r \<noteq> DB_HOST_ENV_VAR_NAME
                     then case get_child_optional ops propertyTree ''database'' of
                            Some t \<Rightarrow> r\<lparr>jsonDatabaseConfiguration := Some t,
                                       sourceForDatabaseConfiguration := currentSourceName\<rparr>
                          | None \<Rightarrow> r
                     else r)
           in case get_child_optional ops propertyTree ''sharedDataLayer'' of
                None \<Rightarrow> Inr r'
              | Some nss \<Rightarrow>
                  for_each (\<lambda>nsc r.
                      rbind (get (get_string ops) (snd nsc) ''namespacePrefix'' currentSourceName)
                        (\<lambda>prefix. Inr (r\<lparr>jsonNamespaceConfigurations :=
                           AList.update prefix (snd nsc, currentSourceName)
                             (jsonNamespaceConfigurations r)\<rparr>)))
                    (ptree_children ops nss) r'))"

definition readConfigurationFromDirectories ::
  "'pt ptree_ops \<Rightarrow> (string \<Rightarrow> 'pt json_result) \<Rightarrow> string list \<Rightarrow> 'pt configurationReader \<Rightarrow>
   'pt configurationReader result" where
  "readConfigurationFromDirectories ops read_json files r =
     for_each (\<lambda>i. readConfiguration ops (read_json i) i) files r"

definition readConfigurationFromInputStream ::
  "'pt ptree_ops \<Rightarrow> 'pt json_result \<Rightarrow> 'pt configurationReader \<Rightarrow> 'pt configurationReader result" where
  "readConfigurationFromInputStream ops input r =
     readConfiguration ops input ''<istream>'' (r\<lparr>jsonNamespaceConfigurations := []\<rparr>)"

definition env_value :: "(string \<Rightarrow> string option) \<Rightarrow> string \<Rightarrow> string" where
  "env_value getenv n = (case getenv n of Some v \<Rightarrow> v | None \<Rightarrow> [])"

text \<open>The constructor: the environment is consulted only if the host variable is set.\<close>

definition ConfigurationReader ::
  "'pt ptree_ops \<Rightarrow> (string \<Rightarrow> 'pt json_result) \<Rightarrow> (string \<Rightarrow> string \<Rightarrow> bool) \<Rightarrow>
   (string \<Rightarrow> dir_entry list option) \<Rightarrow> (string \<Rightarrow> string option) \<Rightarrow> string list \<Rightarrow>
   'pt configurationReader result" where
  "ConfigurationReader ops read_json ends_with listing getenv directories =
     (let r0 = \<lparr>dbHostEnvVariableValue = [], dbPortEnvVariableValue = [],
                sentinelPortEnvVariableValue = [], sentinelMasterNameEnvVariableValue = [],
                dbClusterAddrListEnvVariableValue = [], jsonDatabaseConfiguration = None,
                sourceForDatabaseConfiguration = [], jsonNamespaceConfigurations = []\<rparr>;
          r1 = (case getenv DB_HOST_ENV_VAR_NAME of
                  None \<Rightarrow> r0
                | Some v \<Rightarrow>
                    r0\<lparr>dbHostEnvVariableValue := v,
                       sourceForDatabaseConfiguration := DB_HOST_ENV_VAR_NAME,
                       dbPortEnvVariableValue := env_value getenv DB_PORT_ENV_VAR_NAME,
                       sentinelPortEnvVariableValue := env_value getenv SENTINEL_PORT_ENV_VAR_NAME,
                       sentinelMasterNameEnvVariableValue :=
                         env_value getenv SENTINEL_MASTER_NAME_ENV_VAR_NAME,
                       dbClusterAddrListEnvVariableValue :=
                         env_value getenv DB_CLUSTER_ADDR_LIST_ENV_VAR_NAME\<rparr>)
      in readConfigurationFromDirectories ops read_json
           (findConfigurationFiles ends_with listing directories) r1)"

text \<open>The database type and the address list selected by the environment.\<close>

definition env_db_type_and_addresses ::
  "'pt configurationReader \<Rightarrow> databaseConfiguration \<Rightarrow> (databaseConfiguration \<times> string) result" where
  "env_db_type_and_addresses r c =
     (let source = sourceForDatabaseConfiguration r;
          set_type = (\<lambda>type addrs.
            rbind (validateAndSetDbType type c source) (\<lambda>c'. Inr (c', addrs)))
      in if dbHostEnvVariableValue r \<noteq> [] \<and> sentinelPortEnvVariableValue r = [] \<and>
            dbClusterAddrListEnvVariableValue r = []
         then set_type ''redis-standalone'' (dbHostEnvVariableValue r)
         else if dbHostEnvVariableValue r \<noteq> [] \<and> sentinelPortEnvVariableValue r \<noteq> [] \<and>
            dbClusterAddrListEnvVariableValue r = []
         then set_type ''redis-sentinel'' (dbHostEnvVariableValue r)
         else if sentinelPortEnvVariableValue r = [] \<and> dbClusterAddrListEnvVariableValue r \<noteq> []
         then set_type ''sdl-standalone-cluster'' (dbClusterAddrListEnvVariableValue r)
         else if sentinelPortEnvVariableValue r \<noteq> [] \<and> dbClusterAddrListEnvVariableValue r \<noteq> []
         then set_type ''sdl-sentinel-cluster'' (dbClusterAddrListEnvVariableValue r)
         else Inl (configuration_error source ''Missing environment variable configuration!''))"

definition readDatabaseConfiguration ::
  "'l conf_lib_scheme \<Rightarrow> 'pt ptree_ops \<Rightarrow> 'pt configurationReader \<Rightarrow> databaseConfiguration \<Rightarrow>
   databaseConfiguration result" where
  "readDatabaseConfiguration lib ops r c =
     (if \<not> Database_Configuration.isEmpty c
      then Inl (Abort ''Database configuration can be read only to empty container'')
      else if sourceForDatabaseConfiguration r = DB_HOST_ENV_VAR_NAME
      then rbind (env_db_type_and_addresses r c) (\<lambda>(c1, addrs).
             let dbHostAddrs = (if dbPortEnvVariableValue r \<noteq> []
                                then appendDBPortToAddrList lib addrs (dbPortEnvVariableValue r)
                                else addrs)
             in rbind (parseDatabaseServersConfigurationFromString lib c1 dbHostAddrs
                         (sourceForDatabaseConfiguration r))
                  (\<lambda>c2. if getDbType c2 = REDIS_SENTINEL \<or> getDbType c2 = SDL_SENTINEL_CLUSTER
                        then Inr (checkAndApplySentinelMasterNames lib
                                    (sentinelMasterNameEnvVariableValue r)
                                    (checkAndApplySentinelPorts lib
                                       (sentinelPortEnvVariableValue r) c2))
                        else Inr c2))
      else parseDatabaseConfigurationTree lib ops c (jsonDatabaseConfiguration r)
             (sourceForDatabaseConfiguration r))"

definition readNamespaceConfigurations ::
  "'pt ptree_ops \<Rightarrow> ((string \<times> 'pt \<times> string) list \<Rightarrow> (string \<times> 'pt \<times> string) list) \<Rightarrow>
   'pt configurationReader \<Rightarrow> namespaceConfigurationsImpl \<Rightarrow> namespaceConfigurationsImpl result" where
  "readNamespaceConfigurations ops iter r ncs =
     (if \<not> Namespace_Configurations.isEmpty ncs
      then Inl (Abort ''Namespace configurations can be read only to empty container'')
      else parseNsConfigurationMap ops iter ncs (jsonNamespaceConfigurations r))"

section \<open>Comma separated lists, element by element\<close>

lemma index_of_at_sep: "c \<notin> set t \<Longrightarrow> index_of ((=) c) (t @ c # r) = Some (length t)"
  by (simp add: index_of_append index_of_absent)

lemma str_find_from:
  "c \<notin> set t \<Longrightarrow> str_find c (length pre) (pre @ t @ c # r) = Some (length pre + length t)"
  "c \<notin> set t \<Longrightarrow> str_find c (length pre) (pre @ t) = None"
  by (simp_all add: str_find_def index_of_at_sep index_of_absent)

lemma servers_loop_elements:
  assumes "ts \<noteq> []" "\<forall>t\<in>set ts. CHR '','' \<notin> set t"
  shows "servers_loop lib (pre @ join CHR '','' ts) source (length pre) c
     = for_each (\<lambda>t c. validateAndSetDbServerAddress lib t c source) ts c"
  using assms
proof (induction ts arbitrary: pre c)
  case (Cons t ts)
  show ?case
  proof (cases "ts = []")
    case True
    with Cons.prems show ?thesis
      by (cases "validateAndSetDbServerAddress lib t c source")
         (simp_all add: servers_loop.simps [of lib _ source] str_find_from substr_from_def)
  next
    case False
    let ?v = "validateAndSetDbServerAddress lib t c source"
    let ?s = "pre @ t @ CHR '','' # join CHR '','' ts"
    have "servers_loop lib ?s source (length pre) c
        = rbind ?v (\<lambda>c'. servers_loop lib ?s source (length pre + length t + 1) c')"
      using Cons.prems
      by (subst servers_loop.simps) (simp add: str_find_from substr_def)
    also have "\<dots> = rbind ?v (\<lambda>c'. for_each (\<lambda>t c. validateAndSetDbServerAddress lib t c source) ts c')"
      using Cons.IH [OF False, of "pre @ t @ '',''"] Cons.prems by simp
    finally show ?thesis using False by (simp add: join_Cons)
  qed
qed simp

text \<open>C27: the position-based loop over \<open>DBAAS_SERVICE_HOST\<close> or \<open>DBAAS_CLUSTER_ADDR_LIST\<close>
  applies exactly the elements of the comma separated list, in order, and stops with the error
  of the first one that is not a valid address.\<close>

theorem servers_from_string_elements:
  assumes "ts \<noteq> []" "\<And>t. t \<in> set ts \<Longrightarrow> CHR '','' \<notin> set t"
  shows "parseDatabaseServersConfigurationFromString lib c (join CHR '','' ts) source
     = for_each (\<lambda>t c. validateAndSetDbServerAddress lib t c source) ts c"
  using servers_loop_elements [of ts lib "[]" source c] assms
  by (simp add: parseDatabaseServersConfigurationFromString_def)

theorem servers_from_string_elements_witness:
  "parseDatabaseServersConfigurationFromString sample_conf_lib DatabaseConfigurationImpl
     (join CHR '','' [''db0'', []]) ''E''
   = Inl (configuration_error ''E''
       (''invalid '' @ dquote @ ''address'' @ dquote @ '': '' @ dquote @ dquote @ '' empty host''))"
proof -
  have "validateAndSetDbServerAddress sample_conf_lib ''db0'' DatabaseConfigurationImpl ''E'' =
      Inr (DatabaseConfigurationImpl\<lparr>serverAddresses :=
        [\<lparr>host = ''db0'', port = htons DEFAULT_PORT, literalIPv6 = False\<rparr>]\<rparr>)"
    by (simp add: validateAndSetDbServerAddress_def checkAndApplyServerAddress_def HostAndPort_def
        isInBrackets_def parse_def str_rfind_def DatabaseConfigurationImpl_def)
  moreover have "validateAndSetDbServerAddress sample_conf_lib [] c ''E'' = Inl (configuration_error ''E''
       (''invalid '' @ dquote @ ''address'' @ dquote @ '': '' @ dquote @ dquote @ '' empty host''))" for c
    by (simp add: validateAndSetDbServerAddress_def checkAndApplyServerAddress_def HostAndPort_def
        isInBrackets_def parse_def str_rfind_def)
  ultimately show ?thesis
    by (subst servers_from_string_elements) auto
qed

lemma append_port_loop_elements:
  assumes "ts \<noteq> []" "\<forall>t\<in>set ts. CHR '','' \<notin> set t"
  shows "append_port_loop p (pre @ join CHR '','' ts) (length pre) @ '':'' @ p
     = pre @ join CHR '','' (map (\<lambda>t. t @ '':'' @ p) ts)"
  using assms
proof (induction ts arbitrary: pre)
  case (Cons t ts)
  show ?case
  proof (cases "ts = []")
    case True
    with Cons.prems show ?thesis
      by (simp add: append_port_loop.simps [of p _ "length pre"] str_find_from)
  next
    case False
    let ?pre = "pre @ t @ '':'' @ p @ '',''"
    have "append_port_loop p (pre @ t @ CHR '','' # join CHR '','' ts) (length pre)
        = append_port_loop p (?pre @ join CHR '','' ts) (length ?pre)"
      using Cons.prems
      by (subst append_port_loop.simps) (simp add: str_find_from str_insert_def ac_simps)
    then show ?thesis
      using Cons.IH [OF False, of ?pre] Cons.prems False by (simp add: join_Cons)
  qed
qed simp

text \<open>The port list. Every address of the list gets the first element of
  \<open>DBAAS_SERVICE_PORT\<close> as its port, whatever ports follow it: the port index is never advanced
  to the next element.\<close>

theorem append_port_uses_first_port:
  assumes "split_ok lib" "ts \<noteq> []" "\<And>t. t \<in> set ts \<Longrightarrow> CHR '','' \<notin> set t"
    "\<And>p. p \<in> set (p0 # ps) \<Longrightarrow> CHR '','' \<notin> set p"
  shows "appendDBPortToAddrList lib (join CHR '','' ts) (join CHR '','' (p0 # ps))
     = join CHR '','' (map (\<lambda>t. t @ '':'' @ p0) ts)"
  using append_port_loop_elements [of ts p0 "[]"] assms split_join [OF assms(1), of "p0 # ps" "CHR '',''"]
  by (simp add: appendDBPortToAddrList_def Let_def)

theorem append_port_uses_first_port_witness:
  "appendDBPortToAddrList sample_conf_lib (join CHR '','' [''dbaas-0'', ''dbaas-1''])
     (join CHR '','' [''6379'', ''6380''])
   = ''dbaas-0:6379,dbaas-1:6379''"
  by (subst append_port_uses_first_port) (auto simp: sample_conf_lib_ok)

end
