(* ===== verification/Discovery.thy ===== *)
theory Discovery
  imports Redis_Storage Database_Configuration
begin

text \<open>
  Database discovery (\<open>src/redis/asyncdatabasediscovery.cpp\<close>,
  \<open>src/redis/asynchiredisdatabasediscovery.cpp\<close>, \<open>src/redis/asyncsentineldatabasediscovery.cpp\<close>): how
  the storage learns the address of its database.

  The static discovery posts the configured address once. The Sentinel discovery subscribes to
  master switches with one dispatcher, asks for the current master with another, and retries with
  a timer when a command fails. Its callbacks are constructors of \<open>sentinelCb\<close>,
  \<open>sentinelConnectCb\<close> and \<open>sentinelDisconnectCb\<close>. The calls of the storage's state change callback
  are recorded in \<open>stateChanges\<close>; the timers are \<open>Some\<close> duration while armed.
\<close>

section \<open>Static addresses\<close>

record hiredisDiscovery =
  hd_ns :: "namespace option"
  databaseType :: db_info_type
  databaseAddresses :: "hostAndPort list"
  postedChanges :: "databaseInfo list"

definition AsyncHiredisDatabaseDiscovery ::
  "namespace option \<Rightarrow> db_info_type \<Rightarrow> hostAndPort list \<Rightarrow> hiredisDiscovery" where
  "AsyncHiredisDatabaseDiscovery n type addrs =
     \<lparr>hd_ns = n, databaseType = type, databaseAddresses = addrs, postedChanges = []\<rparr>"

definition hiredis_setStateChangedCb :: "hiredisDiscovery \<Rightarrow> hiredisDiscovery" where
  "hiredis_setStateChangedCb s =
     s\<lparr>postedChanges := postedChanges s @
        [\<lparr>hosts = databaseAddresses s, db_info_type = databaseType s, db_ns = hd_ns s, discovery = HIREDIS\<rparr>]\<rparr>"

definition hiredis_clearStateChangedCb :: "hiredisDiscovery \<Rightarrow> hiredisDiscovery" where
  "hiredis_clearStateChangedCb s = s"

section \<open>Sentinel\<close>

datatype sentinelCb = SubscribeAck | MasterInquiryAck
datatype sentinelConnectCb = SubscribeNotifications | SendMasterInquiry
datatype sentinelDisconnectCb = WaitAndSubscribe

type_synonym 'd sentinel_disp = "(sentinelCb, sentinelConnectCb, sentinelDisconnectCb, 'd) disp_ops"

record 'd sentinelDiscovery =
  stateChangedCb :: bool
  sentinelMasterName :: string
  subscriber :: 'd
  inquirer :: 'd
  subscribeRetryTimer :: "int option"
  masterInquiryRetryTimer :: "int option"
  stateChanges :: "databaseInfo list"

definition sentinelInfo :: "hostAndPort \<Rightarrow> databaseInfo" where
  "sentinelInfo a = \<lparr>hosts = [a], db_info_type = SINGLE, db_ns = None, discovery = SENTINEL\<rparr>"

definition subscribeRetryTimerDuration :: int where "subscribeRetryTimerDuration = 1"
definition masterInquiryRetryTimerDuration :: int where "masterInquiryRetryTimerDuration = 1"

definition AsyncSentinelDatabaseDiscovery ::
  "'d sentinel_disp \<Rightarrow> hostAndPort \<Rightarrow> string \<Rightarrow> 'd sentinelDiscovery result" where
  "AsyncSentinelDatabaseDiscovery ops sentinelAddress masterName =
     rbind (create_op ops (sentinelInfo sentinelAddress) True True) (\<lambda>sub.
     rbind (create_op ops (sentinelInfo sentinelAddress) False True) (\<lambda>inq.
       Inr \<lparr>stateChangedCb = False, sentinelMasterName = masterName, subscriber = sub, inquirer = inq,
            subscribeRetryTimer = None, masterInquiryRetryTimer = None, stateChanges = []\<rparr>))"

definition AsyncSentinelDatabaseDiscovery_destroy ::
  "'d sentinel_disp \<Rightarrow> 'd sentinelDiscovery \<Rightarrow> 'd sentinelDiscovery" where
  "AsyncSentinelDatabaseDiscovery_destroy ops s =
     s\<lparr>subscriber := disable_op ops (subscriber s), inquirer := disable_op ops (inquirer s), stateChangedCb := False,
       subscribeRetryTimer := None, masterInquiryRetryTimer := None\<rparr>"

text \<open>The disconnect callback of the subscriber.\<close>

definition subscriberDisconnected :: "'d sentinel_disp \<Rightarrow> 'd sentinelDiscovery \<Rightarrow> 'd sentinelDiscovery" where
  "subscriberDisconnected ops s = s\<lparr>subscriber := wait_op ops SubscribeNotifications (subscriber s)\<rparr>"

definition setStateChangedCb :: "'d sentinel_disp \<Rightarrow> 'd sentinelDiscovery \<Rightarrow> 'd sentinelDiscovery" where
  "setStateChangedCb ops s =
     s\<lparr>stateChangedCb := True,
       subscriber := wait_op ops SubscribeNotifications (register_op ops WaitAndSubscribe (subscriber s))\<rparr>"

definition clearStateChangedCb :: "'d sentinelDiscovery \<Rightarrow> 'd sentinelDiscovery" where
  "clearStateChangedCb s = s\<lparr>stateChangedCb := False\<rparr>"

definition subscribeNotifications :: "'d sentinel_disp \<Rightarrow> 'd sentinelDiscovery \<Rightarrow> 'd sentinelDiscovery result" where
  "subscribeNotifications ops s =
     rbind (dispatch_op ops SubscribeAck ''dummyNamespace'' (build2 ''SUBSCRIBE'' ''+switch-master'') (subscriber s))
       (\<lambda>d. Inr (s\<lparr>subscriber := d\<rparr>))"

definition sendMasterInquiry :: "'d sentinel_disp \<Rightarrow> 'd sentinelDiscovery \<Rightarrow> 'd sentinelDiscovery result" where
  "sendMasterInquiry ops s =
     rbind (dispatch_op ops MasterInquiryAck ''dummyNamespace''
              (build3 ''SENTINEL'' ''get-master-addr-by-name'' (sentinelMasterName s)) (inquirer s))
       (\<lambda>d. Inr (s\<lparr>inquirer := d\<rparr>))"

datatype subscribeReplyType = UnknownReply | SubscribeReply | Notification

record subscribeReply =
  sr_type :: subscribeReplyType
  sr_message :: string

definition parseSubscribeReply :: "reply \<Rightarrow> subscribeReply option result" where
  "parseSubscribeReply r =
     rbind (type_is r ARRAY) (\<lambda>is_array.
       if \<not> is_array then Inr None
       else rbind (vec_index (getArray r) 0) (\<lambda>first.
            rbind (type_is first STRING) (\<lambda>is_string.
              if \<not> is_string then Inr None
              else let kind = di_str (getString first)
                   in if kind = ''subscribe'' then Inr (Some \<lparr>sr_type = SubscribeReply, sr_message = []\<rparr>)
                      else if kind = ''message''
                      then rbind (vec_index (getArray r) 2) (\<lambda>third.
                           rbind (type_is third STRING) (\<lambda>is_msg.
                             if is_msg then Inr (Some \<lparr>sr_type = Notification, sr_message = di_str (getString third)\<rparr>)
                             else Inr None))
                      else Inr None)))"

text \<open>\<open>catch (const std::exception&)\<close> around the constructor.\<close>

definition try_HostAndPort :: "'l conf_lib_scheme \<Rightarrow> string \<Rightarrow> hostAndPort option result" where
  "try_HostAndPort lib addr =
     (case HostAndPort lib addr 0 of Inr hp \<Rightarrow> Inr (Some hp) | Inl (Throw _) \<Rightarrow> Inr None | Inl f \<Rightarrow> Inl f)"

definition parseMasterInquiryReply :: "'l conf_lib_scheme \<Rightarrow> reply \<Rightarrow> hostAndPort option result" where
  "parseMasterInquiryReply lib r =
     rbind (type_is r ARRAY) (\<lambda>is_array.
       if \<not> is_array then Inr None
       else rbind (vec_index (getArray r) 0) (\<lambda>hostElement.
            rbind (type_is hostElement STRING) (\<lambda>is_host.
              if \<not> is_host then Inr None
              else rbind (vec_index (getArray r) 1) (\<lambda>portElement.
                   rbind (type_is portElement STRING) (\<lambda>is_port.
                     if is_port
                     then try_HostAndPort lib (di_str (getString hostElement) @ '':'' @ di_str (getString portElement))
                     else Inr None)))))"

definition parseNotificationMessage :: "'l conf_lib_scheme \<Rightarrow> string \<Rightarrow> hostAndPort option result" where
  "parseNotificationMessage lib message =
     (let splittedMessage = split lib '' '' message
      in if length splittedMessage = 5
         then try_HostAndPort lib (splittedMessage ! 3 @ '':'' @ splittedMessage ! 4) else Inr None)"

definition callStateChanged :: "databaseInfo \<Rightarrow> 'd sentinelDiscovery \<Rightarrow> 'd sentinelDiscovery" where
  "callStateChanged info s = (if stateChangedCb s then s\<lparr>stateChanges := stateChanges s @ [info]\<rparr> else s)"

definition subscribeAck ::
  "'l conf_lib_scheme \<Rightarrow> 'd sentinel_disp \<Rightarrow> error_code \<Rightarrow> reply \<Rightarrow> 'd sentinelDiscovery \<Rightarrow> 'd sentinelDiscovery result" where
  "subscribeAck lib ops error r s =
     (if \<not> ec_bool error
      then rbind (parseSubscribeReply r) (\<lambda>parsed.
             case parsed of
               None \<Rightarrow> Inl (Abort ''SUBSCRIBE command reply parsing error.'')
             | Some sr \<Rightarrow>
                 (case sr_type sr of
                    SubscribeReply \<Rightarrow> Inr (s\<lparr>inquirer := wait_op ops SendMasterInquiry (inquirer s)\<rparr>)
                  | Notification \<Rightarrow>
                      rbind (parseNotificationMessage lib (sr_message sr)) (\<lambda>hp.
                        case hp of
                          Some a \<Rightarrow> Inr (callStateChanged (sentinelInfo a) s)
                        | None \<Rightarrow> Inl (Abort ''Notification message parsing error.''))
                  | UnknownReply \<Rightarrow> Inl (Abort ''Invalid SUBSCRIBE command reply type.'')))
      else Inr (s\<lparr>subscribeRetryTimer := Some subscribeRetryTimerDuration\<rparr>))"

definition masterInquiryAck ::
  "'l conf_lib_scheme \<Rightarrow> error_code \<Rightarrow> reply \<Rightarrow> 'd sentinelDiscovery \<Rightarrow> 'd sentinelDiscovery result" where
  "masterInquiryAck lib error r s =
     (if \<not> ec_bool error
      then rbind (parseMasterInquiryReply lib r) (\<lambda>hp.
             case hp of
               Some a \<Rightarrow> Inr (callStateChanged (sentinelInfo a) s)
             | None \<Rightarrow> Inl (Abort ''Master inquiry reply parsing error.''))
      else Inr (s\<lparr>masterInquiryRetryTimer := Some masterInquiryRetryTimerDuration\<rparr>))"

text \<open>The expiry of the two timers.\<close>

definition subscribeRetryTimerExpired :: "'d sentinel_disp \<Rightarrow> 'd sentinelDiscovery \<Rightarrow> 'd sentinelDiscovery result" where
  "subscribeRetryTimerExpired ops s = subscribeNotifications ops (s\<lparr>subscribeRetryTimer := None\<rparr>)"

definition masterInquiryRetryTimerExpired :: "'d sentinel_disp \<Rightarrow> 'd sentinelDiscovery \<Rightarrow> 'd sentinelDiscovery result" where
  "masterInquiryRetryTimerExpired ops s = sendMasterInquiry ops (s\<lparr>masterInquiryRetryTimer := None\<rparr>)"

section \<open>The choice of a discovery\<close>

datatype 'd databaseDiscovery = HiredisDiscovery hiredisDiscovery | SentinelDiscovery "'d sentinelDiscovery"

definition create_discovery ::
  "bool \<Rightarrow> bool \<Rightarrow> 'l conf_lib_scheme \<Rightarrow> 'd sentinel_disp \<Rightarrow> namespace option \<Rightarrow> databaseConfiguration \<Rightarrow> nat option \<Rightarrow>
   'd databaseDiscovery result" where
  "create_discovery HAVE_HIREDIS_VIP HAVE_HIREDIS lib ops n conf addressIndex =
     rbind (getServerAddresses_at addressIndex conf) (\<lambda>addrs.
     rbind (if addrs = [] then getDefaultServerAddresses lib conf else Inr addrs) (\<lambda>staticAddresses.
       let staticDbType = getDbType conf
       in if staticDbType = REDIS_CLUSTER
          then if HAVE_HIREDIS_VIP
               then Inr (HiredisDiscovery (AsyncHiredisDatabaseDiscovery n CLUSTER staticAddresses))
               else Inl (Abort ''No Hiredis vip for Redis cluster configuration'')
          else if \<not> HAVE_HIREDIS then Inl (Abort ''No Hiredis'')
          else if staticDbType = REDIS_SENTINEL \<or> staticDbType = SDL_SENTINEL_CLUSTER
          then rbind (getSentinelAddress lib addressIndex conf) (\<lambda>sentinelAddress.
                 case sentinelAddress of
                   Some a \<Rightarrow> rbind (AsyncSentinelDatabaseDiscovery ops a (getSentinelMasterName addressIndex conf))
                              (\<lambda>d. Inr (SentinelDiscovery d))
                 | None \<Rightarrow> Inl (Abort ''Sentinel address not configured.''))
          else Inr (HiredisDiscovery (AsyncHiredisDatabaseDiscovery n SINGLE staticAddresses))))"

text \<open>The interface the storage uses.\<close>

fun discovery_set :: "'d sentinel_disp \<Rightarrow> 'd databaseDiscovery \<Rightarrow> 'd databaseDiscovery result" where
  "discovery_set ops (HiredisDiscovery h) = Inr (HiredisDiscovery (hiredis_setStateChangedCb h))"
| "discovery_set ops (SentinelDiscovery s) = Inr (SentinelDiscovery (setStateChangedCb ops s))"

fun discovery_clear :: "'d databaseDiscovery \<Rightarrow> 'd databaseDiscovery" where
  "discovery_clear (HiredisDiscovery h) = HiredisDiscovery (hiredis_clearStateChangedCb h)"
| "discovery_clear (SentinelDiscovery s) = SentinelDiscovery (clearStateChangedCb s)"

definition databaseDiscovery_ops :: "'d sentinel_disp \<Rightarrow> 'd databaseDiscovery discovery_ops" where
  "databaseDiscovery_ops ops = \<lparr>set_state_cb = discovery_set ops, clear_state_cb = discovery_clear\<rparr>"

section \<open>Properties\<close>

lemma reply_kinds [simp]:
  "type_is (AsyncRedisReply (array_reply rs)) ARRAY = Inr True"
  by (simp add: type_is_def reply_of reply_defs)

text \<open>C30: a master switch is followed. A notification of Sentinel about a switch, whose message is
  the master's name, its old and its new address, makes the discovery report the new address to
  the storage, and nothing else. The name in the message is not compared with the configured
  master name: the switch of any master that the Sentinel monitors is taken for a switch of this
  one.\<close>

theorem master_switch_followed:
  assumes "split_ok lib" "stateChangedCb s" "\<not> ec_bool error"
    and "CHR '' '' \<notin> set name \<union> set oldIp \<union> set oldPort \<union> set ip \<union> set p"
    and "HostAndPort lib (ip @ '':'' @ p) 0 = Inr hp"
  shows "subscribeAck lib ops error (AsyncRedisReply (array_reply [string_reply ''message'', string_reply ''+switch-master'',
      string_reply (join CHR '' '' [name, oldIp, oldPort, ip, p])])) s =
    Inr (s\<lparr>stateChanges := stateChanges s @ [\<lparr>hosts = [hp], db_info_type = SINGLE, db_ns = None, discovery = SENTINEL\<rparr>]\<rparr>)"
proof -
  have "split lib '' '' (join CHR '' '' [name, oldIp, oldPort, ip, p]) = [name, oldIp, oldPort, ip, p]"
    using assms(4) by (intro split_join [OF assms(1)]) auto
  then have "parseNotificationMessage lib (join CHR '' '' [name, oldIp, oldPort, ip, p]) = Inr (Some hp)"
    unfolding parseNotificationMessage_def Let_def using assms(5) by (simp add: try_HostAndPort_def)
  then show ?thesis using assms(2,3)
    by (simp del: join.simps add: subscribeAck_def parseSubscribeReply_def vec_index_def callStateChanged_def sentinelInfo_def)
qed

definition sample_sentinel_ops :: "string list list sentinel_disp" where
  "sample_sentinel_ops = \<lparr>create_op = \<lambda>_ _ _. Inr [], dispatch_op = \<lambda>cb n c q. Inr (q @ [stack c]),
     wait_op = \<lambda>_ q. q, register_op = \<lambda>_ q. q, disable_op = \<lambda>q. q\<rparr>"

definition sample_sentinel :: "string list list sentinelDiscovery" where
  "sample_sentinel = \<lparr>stateChangedCb = True, sentinelMasterName = ''mymaster'', subscriber = [], inquirer = [],
     subscribeRetryTimer = None, masterInquiryRetryTimer = None, stateChanges = []\<rparr>"

theorem master_switch_followed_witness:
  "subscribeAck sample_conf_lib sample_sentinel_ops no_error
     (AsyncRedisReply (array_reply [string_reply ''message'', string_reply ''+switch-master'',
      string_reply (join CHR '' '' [''another'', ''h1'', ''1'', ''h2'', show_nat (unat (6379 :: 16 word))])])) sample_sentinel =
   Inr (sample_sentinel\<lparr>stateChanges := [\<lparr>hosts = [\<lparr>host = ''h2'', port = htons 6379, literalIPv6 = False\<rparr>],
     db_info_type = SINGLE, db_ns = None, discovery = SENTINEL\<rparr>]\<rparr>)"
proof -
  let ?p = "show_nat (unat (6379 :: 16 word))"
  have space: "CHR '' '' \<notin> set ?p" using show_nat_digits [of "unat (6379 :: 16 word)"] by auto
  have "stringToPort sample_conf_lib ?p = Inr (htons 6379)"
    using stringToPort_show [OF sample_conf_lib_ok(1), of "htons 6379"] by (simp only: byte_simps)
  moreover have "CHR '':'' \<notin> set ?p" using show_nat_digits [of "unat (6379 :: 16 word)"] by auto
  moreover have lit: "\<not> isLiteralIPv6 sample_conf_lib (CHR ''h'' # x)" for x
    by (simp add: isLiteralIPv6_def c_str_def sample_net_lib_def)
  moreover have "\<not> isInBrackets (CHR ''h'' # x)" for x by (simp add: isInBrackets_def)
  ultimately have "HostAndPort sample_conf_lib (''h2'' @ CHR '':'' # ?p) 0 = Inr \<lparr>host = ''h2'', port = htons 6379, literalIPv6 = False\<rparr>"
    using parse_at_last_colon [of ?p sample_conf_lib "''h2''" 0] by (simp add: HostAndPort_def)
  then show ?thesis
    using master_switch_followed [OF sample_conf_lib_ok(2), of sample_sentinel no_error "''another''" "''h1''" "''1''" "''h2''" ?p]
      space by (simp add: sample_sentinel_def)
qed

section \<open>The subscription is never lost\<close>

text \<open>The discovery with what its two dispatchers owe it: a connect acknowledgement (\<open>p_wait\<close>), the
  callbacks of the commands sent on the present connection (\<open>p_sent\<close>), and those of the commands
  that were dispatched without a connection, whose errors are posted (\<open>p_failed\<close>). The callback of
  the subscription is permanent: it stays after a reply, and is gone after an error. What is sent
  belongs to its connection: after a disconnect nothing of it arrives any more, whether or not
  hiredis had time to call the callbacks with an error, and the disconnect callback, if there is
  one (\<open>p_registered\<close>), is called. The acknowledgement of a connect is called when the connection is
  up, or from the engine's queue when it was up at the request, and then the connection may be gone
  again.\<close>

record pending =
  p_wait :: "sentinelConnectCb option"
  p_connected :: bool
  p_registered :: bool
  p_sent :: "sentinelCb list"
  p_failed :: "sentinelCb list"

definition pending_ops :: "pending sentinel_disp" where
  "pending_ops = \<lparr>create_op = \<lambda>_ _ _. Inr \<lparr>p_wait = None, p_connected = False, p_registered = False, p_sent = [], p_failed = []\<rparr>,
     dispatch_op = \<lambda>cb n c d. Inr (if p_connected d then d\<lparr>p_sent := p_sent d @ [cb]\<rparr> else d\<lparr>p_failed := p_failed d @ [cb]\<rparr>),
     wait_op = \<lambda>cb d. d\<lparr>p_wait := Some cb\<rparr>, register_op = \<lambda>_ d. d\<lparr>p_registered := True\<rparr>, disable_op = \<lambda>d. d\<rparr>"

definition p_disconnect :: "pending \<Rightarrow> pending" where
  "p_disconnect d = d\<lparr>p_connected := False, p_sent := []\<rparr>"

inductive sentinel_step :: "'l conf_lib_scheme \<Rightarrow> pending sentinelDiscovery \<Rightarrow> pending sentinelDiscovery \<Rightarrow> bool" for lib where
  subscriber_up: "t = s\<lparr>subscriber := (subscriber s)\<lparr>p_connected := True\<rparr>\<rparr> \<Longrightarrow> sentinel_step lib s t"
| inquirer_up: "t = s\<lparr>inquirer := (inquirer s)\<lparr>p_connected := True\<rparr>\<rparr> \<Longrightarrow> sentinel_step lib s t"
| subscriber_acked: "p_wait (subscriber s) = Some SubscribeNotifications \<Longrightarrow>
    subscribeNotifications pending_ops (s\<lparr>subscriber := (subscriber s)\<lparr>p_wait := None\<rparr>\<rparr>) = Inr t \<Longrightarrow> sentinel_step lib s t"
| inquirer_acked: "p_wait (inquirer s) = Some SendMasterInquiry \<Longrightarrow>
    sendMasterInquiry pending_ops (s\<lparr>inquirer := (inquirer s)\<lparr>p_wait := None\<rparr>\<rparr>) = Inr t \<Longrightarrow> sentinel_step lib s t"
| subscribe_reply: "SubscribeAck \<in> set (p_sent (subscriber s)) \<Longrightarrow> \<not> ec_bool error \<Longrightarrow>
    subscribeAck lib pending_ops error r s = Inr t \<Longrightarrow> sentinel_step lib s t"
| subscribe_error: "SubscribeAck \<in> set (p_sent (subscriber s)) \<Longrightarrow> ec_bool error \<Longrightarrow>
    subscribeAck lib pending_ops error r (s\<lparr>subscriber := (subscriber s)\<lparr>p_sent := remove1 SubscribeAck (p_sent (subscriber s))\<rparr>\<rparr>) = Inr t \<Longrightarrow>
    sentinel_step lib s t"
| subscribe_not_sent: "SubscribeAck \<in> set (p_failed (subscriber s)) \<Longrightarrow> ec_bool error \<Longrightarrow>
    subscribeAck lib pending_ops error r (s\<lparr>subscriber := (subscriber s)\<lparr>p_failed := remove1 SubscribeAck (p_failed (subscriber s))\<rparr>\<rparr>) = Inr t \<Longrightarrow>
    sentinel_step lib s t"
| inquiry_reply: "MasterInquiryAck \<in> set (p_sent (inquirer s)) \<Longrightarrow>
    masterInquiryAck lib error r (s\<lparr>inquirer := (inquirer s)\<lparr>p_sent := remove1 MasterInquiryAck (p_sent (inquirer s))\<rparr>\<rparr>) = Inr t \<Longrightarrow>
    sentinel_step lib s t"
| inquiry_not_sent: "MasterInquiryAck \<in> set (p_failed (inquirer s)) \<Longrightarrow> ec_bool error \<Longrightarrow>
    masterInquiryAck lib error r (s\<lparr>inquirer := (inquirer s)\<lparr>p_failed := remove1 MasterInquiryAck (p_failed (inquirer s))\<rparr>\<rparr>) = Inr t \<Longrightarrow>
    sentinel_step lib s t"
| subscriber_disconnected: "t = (let s' = s\<lparr>subscriber := p_disconnect (subscriber s)\<rparr>
      in if p_registered (subscriber s) then subscriberDisconnected pending_ops s' else s') \<Longrightarrow> sentinel_step lib s t"
| inquirer_disconnected: "t = s\<lparr>inquirer := p_disconnect (inquirer s)\<rparr> \<Longrightarrow> sentinel_step lib s t"
| subscribe_timer: "subscribeRetryTimer s \<noteq> None \<Longrightarrow> subscribeRetryTimerExpired pending_ops s = Inr t \<Longrightarrow> sentinel_step lib s t"
| inquiry_timer: "masterInquiryRetryTimer s \<noteq> None \<Longrightarrow> masterInquiryRetryTimerExpired pending_ops s = Inr t \<Longrightarrow> sentinel_step lib s t"
| cleared: "clearStateChangedCb s = t \<Longrightarrow> sentinel_step lib s t"

inductive sentinel_reachable :: "'l conf_lib_scheme \<Rightarrow> pending sentinelDiscovery \<Rightarrow> bool" for lib where
  init: "AsyncSentinelDatabaseDiscovery pending_ops a name = Inr s \<Longrightarrow> sentinel_reachable lib (setStateChangedCb pending_ops s)"
| step: "sentinel_reachable lib s \<Longrightarrow> sentinel_step lib s t \<Longrightarrow> sentinel_reachable lib t"

definition listening :: "pending sentinelDiscovery \<Rightarrow> bool" where
  "listening s \<longleftrightarrow> p_registered (subscriber s) \<and> (p_sent (subscriber s) \<noteq> [] \<longrightarrow> p_connected (subscriber s)) \<and>
     (p_wait (subscriber s) = Some SubscribeNotifications \<or> SubscribeAck \<in> set (p_sent (subscriber s)) \<or>
      SubscribeAck \<in> set (p_failed (subscriber s)) \<or> subscribeRetryTimer s \<noteq> None)"

lemmas sentinel_defs = subscribeNotifications_def sendMasterInquiry_def
  subscriberDisconnected_def subscribeRetryTimerExpired_def masterInquiryRetryTimerExpired_def clearStateChangedCb_def
  pending_ops_def p_disconnect_def Let_def

lemma callStateChanged_parts [simp]:
  "subscriber (callStateChanged info s) = subscriber s"
  "subscribeRetryTimer (callStateChanged info s) = subscribeRetryTimer s"
  by (simp_all add: callStateChanged_def)

lemma subscribeAck_parts:
  assumes "\<not> ec_bool error" "subscribeAck lib ops error r s = Inr t"
  shows "subscriber t = subscriber s \<and> subscribeRetryTimer t = subscribeRetryTimer s"
proof -
  obtain sr where sr: "parseSubscribeReply r = Inr (Some sr)"
    using assms by (cases "parseSubscribeReply r") (auto simp: subscribeAck_def split: option.splits)
  show ?thesis
  proof (cases "sr_type sr")
    case Notification
    then obtain a where "parseNotificationMessage lib (sr_message sr) = Inr (Some a)"
      using assms sr by (cases "parseNotificationMessage lib (sr_message sr)") (auto simp: subscribeAck_def split: option.splits)
    then show ?thesis using assms sr Notification by (auto simp: subscribeAck_def)
  qed (use assms sr in \<open>auto simp: subscribeAck_def\<close>)
qed

lemma masterInquiryAck_parts:
  assumes "masterInquiryAck lib error r s = Inr t"
  shows "subscriber t = subscriber s \<and> subscribeRetryTimer t = subscribeRetryTimer s"
  using assms by (cases "parseMasterInquiryReply lib r") (auto simp: masterInquiryAck_def split: option.splits if_splits)

lemma listening_step: "sentinel_step lib s t \<Longrightarrow> listening s \<Longrightarrow> listening t"
proof (induction rule: sentinel_step.induct)
  case (subscribe_reply s error r t)
  then show ?case using subscribeAck_parts [OF subscribe_reply(2,3)] by (simp add: listening_def)
next
  case (inquiry_reply s error r t)
  then show ?case using masterInquiryAck_parts [OF inquiry_reply(2)] by (simp add: listening_def)
next
  case (inquiry_not_sent s error r t)
  then show ?case using masterInquiryAck_parts [OF inquiry_not_sent(3)] by (simp add: listening_def)
next
  case (subscribe_error s error r t)
  then show ?case by (auto simp: listening_def subscribeAck_def)
qed (auto simp: listening_def sentinel_defs subscribeAck_def split: if_splits)

text \<open>C29: the discovery never goes deaf. From the moment the storage sets its callback, in every
  state that connects, disconnects, replies, errors and timers can lead to, the subscription to
  master switches is in place or under way: it was sent on the connection that is up and not
  refused, or it will be sent when the connection is up or when the retry timer expires, or the
  error that arms the retry timer is about to be delivered. A disconnect loses what was sent, with
  or without an error; then the subscription is sent again on the next connection.\<close>

theorem subscription_never_lost:
  assumes "sentinel_reachable lib s"
  shows "p_wait (subscriber s) = Some SubscribeNotifications \<or>
    p_connected (subscriber s) \<and> SubscribeAck \<in> set (p_sent (subscriber s)) \<or>
    SubscribeAck \<in> set (p_failed (subscriber s)) \<or>
    subscribeRetryTimer s = Some subscribeRetryTimerDuration"
proof -
  have "listening s \<and> subscribeRetryTimer s \<in> {None, Some subscribeRetryTimerDuration}"
    using assms
  proof (induction rule: sentinel_reachable.induct)
    case (init a name s)
    then show ?case by (auto simp: listening_def setStateChangedCb_def AsyncSentinelDatabaseDiscovery_def pending_ops_def)
  next
    case (step s t)
    have "subscribeRetryTimer t \<in> {subscribeRetryTimer s, None, Some subscribeRetryTimerDuration}"
      using step.hyps(2)
    proof cases
      case (subscribe_error error r)
      then show ?thesis by (auto simp: subscribeAck_def)
    next
      case (subscribe_not_sent error r)
      then show ?thesis by (auto simp: subscribeAck_def)
    next
      case (subscribe_reply error r)
      then show ?thesis using subscribeAck_parts [of error lib pending_ops r s t] by simp
    next
      case (inquiry_reply error r)
      then show ?thesis using masterInquiryAck_parts by fastforce
    next
      case (inquiry_not_sent error r)
      then show ?thesis using masterInquiryAck_parts by fastforce
    qed (auto simp: sentinel_defs)
    with step listening_step show ?case by auto
  qed
  then show ?thesis by (auto simp: listening_def)
qed

text \<open>A subscription that was sent, and then the connection is lost: it is waiting for the next one.\<close>

theorem subscription_never_lost_witness:
  "\<exists>s t. sentinel_reachable sample_conf_lib s \<and> p_sent (subscriber s) = [SubscribeAck] \<and> p_wait (subscriber s) = None \<and>
     sentinel_step sample_conf_lib s t \<and> p_sent (subscriber t) = [] \<and> p_failed (subscriber t) = [] \<and>
     subscribeRetryTimer t = None \<and> p_wait (subscriber t) = Some SubscribeNotifications"
proof -
  let ?a = "\<lparr>host = ''s'', port = 1, literalIPv6 = False\<rparr>"
  obtain s where s: "AsyncSentinelDatabaseDiscovery pending_ops ?a ''m'' = Inr s"
    by (simp add: AsyncSentinelDatabaseDiscovery_def pending_ops_def)
  let ?s1 = "setStateChangedCb pending_ops s"
  let ?s2 = "?s1\<lparr>subscriber := (subscriber ?s1)\<lparr>p_connected := True\<rparr>\<rparr>"
  obtain s3 where s3: "subscribeNotifications pending_ops (?s2\<lparr>subscriber := (subscriber ?s2)\<lparr>p_wait := None\<rparr>\<rparr>) = Inr s3"
    by (simp add: subscribeNotifications_def pending_ops_def)
  let ?s4 = "s3\<lparr>subscriber := p_disconnect (subscriber s3)\<rparr>"
  let ?t = "if p_registered (subscriber s3) then subscriberDisconnected pending_ops ?s4 else ?s4"
  have "sentinel_step sample_conf_lib ?s1 ?s2" by (rule subscriber_up) simp
  moreover have w: "p_wait (subscriber ?s2) = Some SubscribeNotifications" by (simp add: setStateChangedCb_def pending_ops_def)
  ultimately have r: "sentinel_reachable sample_conf_lib s3"
    using sentinel_reachable.step [OF sentinel_reachable.step [OF sentinel_reachable.init [OF s]] subscriber_acked [OF w s3]] by blast
  have st: "sentinel_step sample_conf_lib s3 ?t" by (rule subscriber_disconnected) (simp only: Let_def)
  have parts: "p_sent (subscriber s3) = [SubscribeAck]" "p_wait (subscriber s3) = None" "p_failed (subscriber s3) = []"
    "subscribeRetryTimer s3 = None"
    using s s3 by (auto simp: subscribeNotifications_def pending_ops_def setStateChangedCb_def AsyncSentinelDatabaseDiscovery_def)
  have t: "p_sent (subscriber ?t) = []" "p_failed (subscriber ?t) = []" "subscribeRetryTimer ?t = None"
    using parts by (simp_all add: p_disconnect_def subscriberDisconnected_def pending_ops_def)
  have "p_wait (subscriber ?t) = Some SubscribeNotifications"
    using subscription_never_lost [OF sentinel_reachable.step [OF r st]] t by simp
  with r st parts t show ?thesis by blast
qed

text \<open>The choice of the discovery. A Redis cluster is discovered statically with all its
  addresses, only in a build with its client library; for the Sentinel types both connections of
  the discovery go to the sentinel of the address index under its master name; every other type
  is one static address, the default one if none is configured.\<close>

theorem discovery_by_db_type:
  assumes "getServerAddresses_at i conf = Inr addrs" "addrs \<noteq> []"
  shows "(getDbType conf = REDIS_CLUSTER \<longrightarrow> create_discovery vip hi lib ops n conf i =
      (if vip then Inr (HiredisDiscovery \<lparr>hd_ns = n, databaseType = CLUSTER, databaseAddresses = addrs, postedChanges = []\<rparr>)
       else Inl (Abort ''No Hiredis vip for Redis cluster configuration''))) \<and>
    (getDbType conf \<in> {REDIS_STANDALONE, SDL_STANDALONE_CLUSTER, UNKNOWN} \<longrightarrow> create_discovery vip True lib ops n conf i =
      Inr (HiredisDiscovery \<lparr>hd_ns = n, databaseType = SINGLE, databaseAddresses = addrs, postedChanges = []\<rparr>)) \<and>
    (getDbType conf \<in> {REDIS_SENTINEL, SDL_SENTINEL_CLUSTER} \<longrightarrow> getSentinelAddress lib i conf = Inr (Some a) \<longrightarrow>
      create_discovery vip True lib ops n conf i =
        rbind (create_op ops (sentinelInfo a) True True) (\<lambda>sub. rbind (create_op ops (sentinelInfo a) False True) (\<lambda>inq.
          Inr (SentinelDiscovery \<lparr>stateChangedCb = False, sentinelMasterName = getSentinelMasterName i conf, subscriber = sub,
            inquirer = inq, subscribeRetryTimer = None, masterInquiryRetryTimer = None, stateChanges = []\<rparr>))))"
proof -
  have "rbind (rbind x (\<lambda>sub. rbind y (\<lambda>inq. Inr (f sub inq)))) (\<lambda>d. Inr (SentinelDiscovery d)) =
    rbind x (\<lambda>sub. rbind y (\<lambda>inq. Inr (SentinelDiscovery (f sub inq))))" for x y and f :: "'a \<Rightarrow> 'a \<Rightarrow> 'a sentinelDiscovery"
    by (cases x; cases y) simp_all
  then show ?thesis using assms
    by (auto simp: create_discovery_def AsyncHiredisDatabaseDiscovery_def AsyncSentinelDatabaseDiscovery_def Let_def)
qed

theorem discovery_by_db_type_witness:
  "create_discovery False True sample_conf_lib sample_sentinel_ops (Some ''ab'')
     (DatabaseConfigurationImpl\<lparr>dbType := REDIS_STANDALONE, serverAddresses := [\<lparr>host = ''db'', port = 1, literalIPv6 = False\<rparr>]\<rparr>) None =
   Inr (HiredisDiscovery \<lparr>hd_ns = Some ''ab'', databaseType = SINGLE,
     databaseAddresses = [\<lparr>host = ''db'', port = 1, literalIPv6 = False\<rparr>], postedChanges = []\<rparr>)"
  using discovery_by_db_type [of None "DatabaseConfigurationImpl\<lparr>dbType := REDIS_STANDALONE,
      serverAddresses := [\<lparr>host = ''db'', port = 1, literalIPv6 = False\<rparr>]\<rparr>" "[\<lparr>host = ''db'', port = 1, literalIPv6 = False\<rparr>]"
      False True sample_conf_lib sample_sentinel_ops "Some ''ab''"]
  by (simp add: getServerAddresses_at_def getDbType_def)

end
