(* ===== verification/Async_Storage.thy ===== *)
theory Async_Storage
  imports Storage_Semantics Configuration_Reader Discovery
begin

text \<open>
  \<open>AsyncStorageImpl\<close> (\<open>src/asyncstorageimpl.cpp\<close>) and \<open>AsyncDummyStorage\<close>
  (\<open>src/asyncdummystorage.cpp\<close>): the storage of the client. It looks up whether the namespace uses
  the database, creates one Redis storage, or one per server in the cluster types, on first use,
  and gives each operation to the storage that the hash of the namespace selects, or to the dummy.

  Two variables of the code are static, shared by all instances of a process: the number of servers
  and the dummy storage with the engine of the instance that used it first. They are fields of the
  state; engines are numbered, and callbacks given to another instance's engine are recorded in
  \<open>foreign_posts\<close>. \<open>boost::crc_32_type\<close> is an argument, as are the dispatchers and the discovery.
\<close>

section \<open>AsyncDummyStorage\<close>

definition dummy_waitReadyAsync :: "namespace \<Rightarrow> 'u \<Rightarrow> 'u ack_call" where
  "dummy_waitReadyAsync n ack = CallReady ack no_error"

definition dummy_setAsync :: "namespace \<Rightarrow> dataMap \<Rightarrow> 'u \<Rightarrow> 'u ack_call" where
  "dummy_setAsync n m ack = CallModify ack no_error"

definition dummy_setIfAsync :: "namespace \<Rightarrow> key \<Rightarrow> data \<Rightarrow> data \<Rightarrow> 'u \<Rightarrow> 'u ack_call" where
  "dummy_setIfAsync n k old new ack = CallModifyIf ack no_error True"

definition dummy_setIfNotExistsAsync :: "namespace \<Rightarrow> key \<Rightarrow> data \<Rightarrow> 'u \<Rightarrow> 'u ack_call" where
  "dummy_setIfNotExistsAsync n k d ack = CallModifyIf ack no_error True"

definition dummy_getAsync :: "namespace \<Rightarrow> keys \<Rightarrow> 'u \<Rightarrow> 'u ack_call" where
  "dummy_getAsync n ks ack = CallGet ack no_error []"

definition dummy_removeAsync :: "namespace \<Rightarrow> keys \<Rightarrow> 'u \<Rightarrow> 'u ack_call" where
  "dummy_removeAsync n ks ack = CallModify ack no_error"

definition dummy_removeIfAsync :: "namespace \<Rightarrow> key \<Rightarrow> data \<Rightarrow> 'u \<Rightarrow> 'u ack_call" where
  "dummy_removeIfAsync n k d ack = CallModifyIf ack no_error True"

definition dummy_findKeysAsync :: "namespace \<Rightarrow> string \<Rightarrow> 'u \<Rightarrow> 'u ack_call" where
  "dummy_findKeysAsync n p ack = CallFindKeys ack no_error []"

definition dummy_listKeys :: "namespace \<Rightarrow> string \<Rightarrow> 'u \<Rightarrow> 'u ack_call" where
  "dummy_listKeys n p ack = CallFindKeys ack no_error []"

definition dummy_removeAllAsync :: "namespace \<Rightarrow> 'u \<Rightarrow> 'u ack_call" where
  "dummy_removeAllAsync n ack = CallModify ack no_error"

section \<open>AsyncStorageImpl\<close>

record ('u, 'd, 'x) asyncStorageImpl =
  engine_id :: nat
  ai_env :: "'u env"
  databaseConfiguration :: databaseConfiguration
  ai_publisherId :: "string option"
  asyncStorages :: "('u, 'd, 'x) redisStorage list"
  static_serverCount :: "nat option"
  static_dummyEngine :: "nat option"
  foreign_posts :: "(nat \<times> 'u ack_call) list"

record ('u, 'd, 'x) impl_lib =
  storage_ops :: "('u, 'd) storage_disp"
  storage_discovery :: "'x discovery_ops"
  asyncDatabaseDiscoveryCreator :: "namespace \<Rightarrow> databaseConfiguration \<Rightarrow> nat option \<Rightarrow> 'x result"
  crc32 :: "string \<Rightarrow> 32 word"
  HAVE_REDIS :: bool

type_synonym ('u, 'd, 'x) impl_state = "('u, 'd, 'x) asyncStorageImpl"

text \<open>The constructor reads the configuration. Statics are those of the process.\<close>

definition AsyncStorageImpl ::
  "'l conf_lib_scheme \<Rightarrow> 'pt ptree_ops \<Rightarrow> ((string \<times> 'pt \<times> string) list \<Rightarrow> (string \<times> 'pt \<times> string) list) \<Rightarrow>
   'pt configurationReader \<Rightarrow> nat \<Rightarrow> string option \<Rightarrow> nat option \<times> nat option \<Rightarrow> ('u, 'd, 'x) impl_state result" where
  "AsyncStorageImpl lib ops iter reader eng pId statics =
     rbind (readDatabaseConfiguration lib ops reader DatabaseConfigurationImpl) (\<lambda>conf.
     rbind (readNamespaceConfigurations ops iter reader NamespaceConfigurationsImpl) (\<lambda>confs.
       Inr \<lparr>engine_id = eng, ai_env = \<lparr>ns_confs = confs, posted = [], called = []\<rparr>, databaseConfiguration = conf,
            ai_publisherId = pId, asyncStorages = [], static_serverCount = fst statics, static_dummyEngine = snd statics,
            foreign_posts = []\<rparr>))"

definition getClusterHashIndex :: "('u, 'd, 'x) impl_lib \<Rightarrow> string \<Rightarrow> nat \<Rightarrow> nat result" where
  "getClusterHashIndex lib s n_servers = (if n_servers = 0 then Inl Undefined else Inr (unat (crc32 lib s) mod n_servers))"

definition is_sdl_cluster :: "databaseConfiguration \<Rightarrow> bool" where
  "is_sdl_cluster conf \<longleftrightarrow> SDL_STANDALONE_CLUSTER = getDbType conf \<or> SDL_SENTINEL_CLUSTER = getDbType conf"

definition new_redis_storage ::
  "('u, 'd, 'x) impl_lib \<Rightarrow> namespace \<Rightarrow> nat option \<Rightarrow> ('u, 'd, 'x) impl_state \<Rightarrow> ('u, 'd, 'x) impl_state result" where
  "new_redis_storage lib n addressIndex st =
     rbind (asyncDatabaseDiscoveryCreator lib n (databaseConfiguration st) addressIndex) (\<lambda>disc.
     rbind (AsyncRedisStorage (storage_discovery lib) disc (ai_publisherId st)) (\<lambda>redisHandler.
       Inr (st\<lparr>asyncStorages := asyncStorages st @ [redisHandler]\<rparr>)))"

definition setAsyncRedisStorageHandlersForCluster ::
  "('u, 'd, 'x) impl_lib \<Rightarrow> namespace \<Rightarrow> ('u, 'd, 'x) impl_state \<Rightarrow> ('u, 'd, 'x) impl_state result" where
  "setAsyncRedisStorageHandlersForCluster lib n st =
     (let n_servers = (case static_serverCount st of
                     Some c \<Rightarrow> c | None \<Rightarrow> length (getServerAddresses (databaseConfiguration st)))
      in for_each (\<lambda>addrIndex. new_redis_storage lib n (Some addrIndex)) [0..<n_servers] (st\<lparr>static_serverCount := Some n_servers\<rparr>))"

definition setAsyncRedisStorageHandlers ::
  "('u, 'd, 'x) impl_lib \<Rightarrow> namespace \<Rightarrow> ('u, 'd, 'x) impl_state \<Rightarrow> ('u, 'd, 'x) impl_state result" where
  "setAsyncRedisStorageHandlers lib n st =
     (if is_sdl_cluster (databaseConfiguration st) then setAsyncRedisStorageHandlersForCluster lib n st
      else new_redis_storage lib n None st)"

text \<open>A handler is a position of \<open>asyncStorages\<close>, or the dummy.\<close>

datatype handlerRef = RedisHandler nat | DummyHandler

definition getAsyncRedisStorageHandler ::
  "('u, 'd, 'x) impl_lib \<Rightarrow> namespace \<Rightarrow> ('u, 'd, 'x) impl_state \<Rightarrow> handlerRef result" where
  "getAsyncRedisStorageHandler lib n st =
     rbind (if is_sdl_cluster (databaseConfiguration st)
            then getClusterHashIndex lib n (length (getServerAddresses (databaseConfiguration st))) else Inr 0) (\<lambda>handlerIndex.
     rbind (vec_at (asyncStorages st) handlerIndex) (\<lambda>_. Inr (RedisHandler handlerIndex)))"

definition getRedisHandler ::
  "('u, 'd, 'x) impl_lib \<Rightarrow> namespace \<Rightarrow> ('u, 'd, 'x) impl_state \<Rightarrow> (handlerRef \<times> ('u, 'd, 'x) impl_state) result" where
  "getRedisHandler lib n st =
     (if HAVE_REDIS lib
      then rbind (if asyncStorages st = [] then setAsyncRedisStorageHandlers lib n st else Inr st) (\<lambda>st'.
           rbind (getAsyncRedisStorageHandler lib n st') (\<lambda>h. Inr (h, st')))
      else Inl (Abort ''Invalid configuration.''))"

definition getDummyHandler :: "('u, 'd, 'x) impl_state \<Rightarrow> handlerRef \<times> ('u, 'd, 'x) impl_state" where
  "getDummyHandler st =
     (DummyHandler, st\<lparr>static_dummyEngine :=
        (case static_dummyEngine st of Some g \<Rightarrow> Some g | None \<Rightarrow> Some (engine_id st))\<rparr>)"

definition getOperationHandler ::
  "('u, 'd, 'x) impl_lib \<Rightarrow> namespace \<Rightarrow> ('u, 'd, 'x) impl_state \<Rightarrow> (handlerRef \<times> ('u, 'd, 'x) impl_state) result" where
  "getOperationHandler lib n st =
     rbind (isDbBackendUseEnabled n (ns_confs (ai_env st))) (\<lambda>(enabled, confs).
       let st' = st\<lparr>ai_env := (ai_env st)\<lparr>ns_confs := confs\<rparr>\<rparr>
       in if enabled then getRedisHandler lib n st' else Inr (getDummyHandler st'))"

text \<open>\<open>postCallback\<close> of the dummy: to the engine it was created with.\<close>

definition dummy_post :: "'u ack_call \<Rightarrow> ('u, 'd, 'x) impl_state \<Rightarrow> ('u, 'd, 'x) impl_state" where
  "dummy_post a st =
     (if static_dummyEngine st = Some (engine_id st) then st\<lparr>ai_env := post_ack a (ai_env st)\<rparr>
      else st\<lparr>foreign_posts := foreign_posts st @ [(the (static_dummyEngine st), a)]\<rparr>)"

definition on_handler ::
  "('u, 'd, 'x) impl_lib \<Rightarrow> namespace \<Rightarrow> (('u, 'd, 'x) storage_state \<Rightarrow> ('u, 'd, 'x) storage_state result) \<Rightarrow> 'u ack_call \<Rightarrow>
   ('u, 'd, 'x) impl_state \<Rightarrow> ('u, 'd, 'x) impl_state result" where
  "on_handler lib n redis_op dummy_ack st =
     rbind (getOperationHandler lib n st) (\<lambda>(h, st').
       case h of
         DummyHandler \<Rightarrow> Inr (dummy_post dummy_ack st')
       | RedisHandler i \<Rightarrow>
           rbind (redis_op (ai_env st', asyncStorages st' ! i)) (\<lambda>(e, s).
             Inr (st'\<lparr>ai_env := e, asyncStorages := (asyncStorages st')[i := s]\<rparr>)))"

definition impl_waitReadyAsync :: "('u, 'd, 'x) impl_lib \<Rightarrow> namespace \<Rightarrow> 'u \<Rightarrow> ('u, 'd, 'x) impl_state \<Rightarrow> ('u, 'd, 'x) impl_state result" where
  "impl_waitReadyAsync lib n ack = on_handler lib n (waitReadyAsync (storage_ops lib) n ack) (dummy_waitReadyAsync n ack)"

definition impl_setAsync :: "('u, 'd, 'x) impl_lib \<Rightarrow> namespace \<Rightarrow> dataMap \<Rightarrow> 'u \<Rightarrow> ('u, 'd, 'x) impl_state \<Rightarrow> ('u, 'd, 'x) impl_state result" where
  "impl_setAsync lib n m ack = on_handler lib n (setAsync (storage_ops lib) n m ack) (dummy_setAsync n m ack)"

definition impl_setIfAsync ::
  "('u, 'd, 'x) impl_lib \<Rightarrow> namespace \<Rightarrow> key \<Rightarrow> data \<Rightarrow> data \<Rightarrow> 'u \<Rightarrow> ('u, 'd, 'x) impl_state \<Rightarrow> ('u, 'd, 'x) impl_state result" where
  "impl_setIfAsync lib n k old new ack = on_handler lib n (setIfAsync (storage_ops lib) n k old new ack) (dummy_setIfAsync n k old new ack)"

definition impl_removeIfAsync ::
  "('u, 'd, 'x) impl_lib \<Rightarrow> namespace \<Rightarrow> key \<Rightarrow> data \<Rightarrow> 'u \<Rightarrow> ('u, 'd, 'x) impl_state \<Rightarrow> ('u, 'd, 'x) impl_state result" where
  "impl_removeIfAsync lib n k d ack = on_handler lib n (removeIfAsync (storage_ops lib) n k d ack) (dummy_removeIfAsync n k d ack)"

definition impl_setIfNotExistsAsync ::
  "('u, 'd, 'x) impl_lib \<Rightarrow> namespace \<Rightarrow> key \<Rightarrow> data \<Rightarrow> 'u \<Rightarrow> ('u, 'd, 'x) impl_state \<Rightarrow> ('u, 'd, 'x) impl_state result" where
  "impl_setIfNotExistsAsync lib n k d ack =
     on_handler lib n (setIfNotExistsAsync (storage_ops lib) n k d ack) (dummy_setIfNotExistsAsync n k d ack)"

definition impl_getAsync :: "('u, 'd, 'x) impl_lib \<Rightarrow> namespace \<Rightarrow> keys \<Rightarrow> 'u \<Rightarrow> ('u, 'd, 'x) impl_state \<Rightarrow> ('u, 'd, 'x) impl_state result" where
  "impl_getAsync lib n ks ack = on_handler lib n (getAsync (storage_ops lib) n ks ack) (dummy_getAsync n ks ack)"

definition impl_removeAsync :: "('u, 'd, 'x) impl_lib \<Rightarrow> namespace \<Rightarrow> keys \<Rightarrow> 'u \<Rightarrow> ('u, 'd, 'x) impl_state \<Rightarrow> ('u, 'd, 'x) impl_state result" where
  "impl_removeAsync lib n ks ack = on_handler lib n (removeAsync (storage_ops lib) n ks ack) (dummy_removeAsync n ks ack)"

definition impl_findKeysAsync :: "('u, 'd, 'x) impl_lib \<Rightarrow> namespace \<Rightarrow> string \<Rightarrow> 'u \<Rightarrow> ('u, 'd, 'x) impl_state \<Rightarrow> ('u, 'd, 'x) impl_state result" where
  "impl_findKeysAsync lib n p ack = on_handler lib n (findKeysAsync (storage_ops lib) n p ack) (dummy_findKeysAsync n p ack)"

definition impl_listKeys :: "('u, 'd, 'x) impl_lib \<Rightarrow> namespace \<Rightarrow> string \<Rightarrow> 'u \<Rightarrow> ('u, 'd, 'x) impl_state \<Rightarrow> ('u, 'd, 'x) impl_state result" where
  "impl_listKeys lib n p ack = on_handler lib n (listKeys (storage_ops lib) n p ack) (dummy_listKeys n p ack)"

definition impl_removeAllAsync :: "('u, 'd, 'x) impl_lib \<Rightarrow> namespace \<Rightarrow> 'u \<Rightarrow> ('u, 'd, 'x) impl_state \<Rightarrow> ('u, 'd, 'x) impl_state result" where
  "impl_removeAllAsync lib n ack = on_handler lib n (removeAllAsync (storage_ops lib) n ack) (dummy_removeAllAsync n ack)"

fun impl_perform :: "('u, 'd, 'x) impl_lib \<Rightarrow> 'u request \<Rightarrow> ('u, 'd, 'x) impl_state \<Rightarrow> ('u, 'd, 'x) impl_state result" where
  "impl_perform lib (Set n m a) = impl_setAsync lib n m a"
| "impl_perform lib (SetIf n k old new a) = impl_setIfAsync lib n k old new a"
| "impl_perform lib (SetIfNotExists n k d a) = impl_setIfNotExistsAsync lib n k d a"
| "impl_perform lib (Get n ks a) = impl_getAsync lib n ks a"
| "impl_perform lib (Remove n ks a) = impl_removeAsync lib n ks a"
| "impl_perform lib (RemoveIf n k d a) = impl_removeIfAsync lib n k d a"
| "impl_perform lib (FindKeys n p a) = impl_findKeysAsync lib n p a"
| "impl_perform lib (ListKeys n p a) = impl_listKeys lib n p a"
| "impl_perform lib (RemoveAll n a) = impl_removeAllAsync lib n a"


section \<open>The handler of a namespace\<close>

text \<open>How many Redis storages a configuration has, and which one serves a namespace.\<close>

definition server_count :: "databaseConfiguration \<Rightarrow> nat" where
  "server_count conf = (if is_sdl_cluster conf then length (getServerAddresses conf) else 1)"

definition server_of :: "('u, 'd, 'x) impl_lib \<Rightarrow> databaseConfiguration \<Rightarrow> namespace \<Rightarrow> nat" where
  "server_of lib conf n = (if is_sdl_cluster conf then unat (crc32 lib n) mod length (getServerAddresses conf) else 0)"

definition backend_used :: "('u, 'd, 'x) impl_state \<Rightarrow> namespace \<Rightarrow> bool" where
  "backend_used st n = dbBackendIsUsed (nc_policy (ns_confs (ai_env st)) n)"

lemma server_of_less: "server_count conf \<noteq> 0 \<Longrightarrow> server_of lib conf n < server_count conf"
  by (auto simp: server_of_def server_count_def split: if_splits)

lemma backend_lookup:
  assumes "nc_inv (ns_confs (ai_env st))"
  obtains confs where "isDbBackendUseEnabled n (ns_confs (ai_env st)) = Inr (backend_used st n, confs)" "nc_inv confs"
    "nc_policy confs = nc_policy (ns_confs (ai_env st))"
  using isDbBackendUseEnabled_policy [OF assms, of n] by (auto simp: backend_used_def)

text \<open>Looking up the handler changes only the lookup table of the namespace configurations.\<close>

definition looked_up :: "('u, 'd, 'x) impl_state \<Rightarrow> namespaceConfigurationsImpl \<Rightarrow> ('u, 'd, 'x) impl_state" where
  "looked_up st confs = st\<lparr>ai_env := (ai_env st)\<lparr>ns_confs := confs\<rparr>\<rparr>"

lemma looked_up_simps [simp]:
  "asyncStorages (looked_up st confs) = asyncStorages st"
  "databaseConfiguration (looked_up st confs) = databaseConfiguration st"
  "ns_confs (ai_env (looked_up st confs)) = confs" "engine_id (looked_up st confs) = engine_id st"
  "posted (ai_env (looked_up st confs)) = posted (ai_env st)" "called (ai_env (looked_up st confs)) = called (ai_env st)"
  "static_serverCount (looked_up st confs) = static_serverCount st" "ai_publisherId (looked_up st confs) = ai_publisherId st"
  "static_dummyEngine (looked_up st confs) = static_dummyEngine st" "foreign_posts (looked_up st confs) = foreign_posts st"
  by (simp_all add: looked_up_def)

lemma looked_up_env: "ai_env (looked_up st confs) = (ai_env st)\<lparr>ns_confs := confs\<rparr>"
  by (simp add: looked_up_def)

lemma handler_when_created:
  assumes "HAVE_REDIS lib" "nc_inv (ns_confs (ai_env st))" "backend_used st n"
    "length (asyncStorages st) = server_count (databaseConfiguration st)" "asyncStorages st \<noteq> []"
  obtains confs where "nc_inv confs" "nc_policy confs = nc_policy (ns_confs (ai_env st))"
    "getOperationHandler lib n st = Inr (RedisHandler (server_of lib (databaseConfiguration st) n), looked_up st confs)"
proof -
  obtain confs where confs: "isDbBackendUseEnabled n (ns_confs (ai_env st)) = Inr (backend_used st n, confs)" "nc_inv confs"
    "nc_policy confs = nc_policy (ns_confs (ai_env st))" using backend_lookup [OF assms(2)] .
  have "server_count (databaseConfiguration st) \<noteq> 0" using assms(4,5) by (metis length_0_conv)
  then have "getAsyncRedisStorageHandler lib n (looked_up st confs) = Inr (RedisHandler (server_of lib (databaseConfiguration st) n))"
    using assms(4) server_of_less [of "databaseConfiguration st" lib n]
    by (auto simp: getAsyncRedisStorageHandler_def getClusterHashIndex_def server_of_def server_count_def vec_at_def)
  then have "getOperationHandler lib n st = Inr (RedisHandler (server_of lib (databaseConfiguration st) n), looked_up st confs)"
    using assms(1,3,5) confs(1) by (simp add: getOperationHandler_def getRedisHandler_def looked_up_def [symmetric])
  with confs(2,3) show thesis by (rule that)
qed

text \<open>Every operation of the client is the same operation of the Redis storage or of the dummy.\<close>

fun dummy_ack :: "'u request \<Rightarrow> 'u ack_call" where
  "dummy_ack (Set n m a) = dummy_setAsync n m a"
| "dummy_ack (SetIf n k old new a) = dummy_setIfAsync n k old new a"
| "dummy_ack (SetIfNotExists n k d a) = dummy_setIfNotExistsAsync n k d a"
| "dummy_ack (Get n ks a) = dummy_getAsync n ks a"
| "dummy_ack (Remove n ks a) = dummy_removeAsync n ks a"
| "dummy_ack (RemoveIf n k d a) = dummy_removeIfAsync n k d a"
| "dummy_ack (FindKeys n p a) = dummy_findKeysAsync n p a"
| "dummy_ack (ListKeys n p a) = dummy_listKeys n p a"
| "dummy_ack (RemoveAll n a) = dummy_removeAllAsync n a"

lemmas impl_operation_defs = impl_setAsync_def impl_setIfAsync_def impl_setIfNotExistsAsync_def impl_getAsync_def
  impl_removeAsync_def impl_removeIfAsync_def impl_findKeysAsync_def impl_listKeys_def impl_removeAllAsync_def

lemmas dummy_defs = dummy_setAsync_def dummy_setIfAsync_def dummy_setIfNotExistsAsync_def dummy_getAsync_def
  dummy_removeAsync_def dummy_removeIfAsync_def dummy_findKeysAsync_def dummy_listKeys_def dummy_removeAllAsync_def

lemma impl_perform_on_handler:
  "impl_perform lib r = on_handler lib (request_ns r) (perform (storage_ops lib) r) (dummy_ack r)"
  by (cases r) (simp_all add: impl_operation_defs)

section \<open>Namespace configurations are only read\<close>

definition same_policy :: "'u env \<Rightarrow> 'u env \<Rightarrow> bool" where
  "same_policy e e' \<longleftrightarrow> (nc_inv (ns_confs e) \<longrightarrow> nc_inv (ns_confs e') \<and> nc_policy (ns_confs e') = nc_policy (ns_confs e))"

lemma same_policy_simps [simp]: "same_policy e e" "same_policy e (post_ack a e)" "same_policy e (call_ack a e)"
  by (simp_all add: same_policy_def post_ack_def call_ack_def)

lemma dispatch_notified_policy:
  assumes "dispatch_notified ops cb n c c' (e, s) = Inr (e', s')"
  shows "same_policy e e'"
  unfolding same_policy_def
proof
  assume "nc_inv (ns_confs e)"
  then obtain b confs where "areNotificationsEnabled n (ns_confs e) = Inr (b, confs)" "nc_inv confs"
    "nc_policy confs = nc_policy (ns_confs e)" using areNotificationsEnabled_policy by blast
  with assms show "nc_inv (ns_confs e') \<and> nc_policy (ns_confs e') = nc_policy (ns_confs e)"
    by (auto simp: dispatch_notified_def dispatch_command_def rbind_Inr_iff split: option.splits)
qed

lemma dispatch_command_policy: "dispatch_command ops cb n c (e, s) = Inr (e', s') \<Longrightarrow> same_policy e e'"
  by (auto simp: dispatch_command_def rbind_Inr_iff split: option.splits)

lemma perform_policy: "perform ops r (e, s) = Inr (e', s') \<Longrightarrow> same_policy e e'"
  by (cases r) (auto simp: operation_defs split: prod.splits if_splits dest: dispatch_notified_policy dispatch_command_policy)

lemma storage_reply_policy: "storage_reply ops cb error rep (e, s) = Inr (e', s') \<Longrightarrow> same_policy e e'"
  by (cases cb) (auto simp: modificationCommandCallback_def conditionalCommandCallback_def getCallback_def findKeysCallback_def
      removeAllCallback_def rbind_Inr_iff split: if_splits dest!: perform_policy [of _ "Remove _ _ _", simplified])

lemma serve1_policy: "serve1 redis ((e, s), db) = Inr ((e', s'), db') \<Longrightarrow> same_policy e e'"
  by (auto simp: serve1_def rbind_Inr_iff split_beta Let_def connected_callback_def
      split: option.splits list.splits queued.splits connectCb.splits dest: storage_reply_policy)

lemma same_policy_trans: "same_policy e e' \<Longrightarrow> same_policy e' e'' \<Longrightarrow> same_policy e e''"
  by (auto simp: same_policy_def)

lemma run1_policy: "run1 redis r ((e, s), db) = Inr ((e', s'), db') \<Longrightarrow> same_policy e e'"
  unfolding run1_def by (auto simp: rbind_Inr_iff dest!: perform_policy serve1_policy intro: same_policy_trans)


section \<open>All servers together\<close>

text \<open>The client's storage with one database per Redis storage. After an operation every database
  answers the commands that wait for it, in two rounds as in \<open>run1\<close>.\<close>

type_synonym ('u, 'x) servers = "('u, 'u cmds, 'x) impl_state \<times> store list"

definition serve_at :: "redis \<Rightarrow> nat \<Rightarrow> ('u, 'x) servers \<Rightarrow> ('u, 'x) servers result" where
  "serve_at redis i = (\<lambda>(st, dbs).
     rbind (serve1 redis ((ai_env st, asyncStorages st ! i), dbs ! i)) (\<lambda>((e, s), db).
       Inr (st\<lparr>ai_env := e, asyncStorages := (asyncStorages st)[i := s]\<rparr>, dbs[i := db])))"

definition serve_all :: "redis \<Rightarrow> ('u, 'x) servers \<Rightarrow> ('u, 'x) servers result" where
  "serve_all redis w = for_each (serve_at redis) [0..<length (snd w)] w"

definition impl_run1 :: "('u, 'u cmds, 'x) impl_lib \<Rightarrow> redis \<Rightarrow> 'u request \<Rightarrow> ('u, 'x) servers \<Rightarrow> ('u, 'x) servers result" where
  "impl_run1 lib redis r = (\<lambda>(st, dbs).
     rbind (impl_perform lib r st) (\<lambda>st'. rbind (serve_all redis (st', dbs)) (serve_all redis)))"

definition impl_run :: "('u, 'u cmds, 'x) impl_lib \<Rightarrow> redis \<Rightarrow> 'u request list \<Rightarrow> ('u, 'x) servers \<Rightarrow> ('u, 'x) servers result" where
  "impl_run lib redis rs = for_each (impl_run1 lib redis) rs"

definition servers_ok :: "('u, 'x) servers \<Rightarrow> bool" where
  "servers_ok = (\<lambda>(st, dbs). asyncStorages st \<noteq> [] \<and> length (asyncStorages st) = server_count (databaseConfiguration st) \<and>
     length dbs = length (asyncStorages st) \<and>
     (\<forall>i<length dbs. world_ok ((ai_env st, asyncStorages st ! i), dbs ! i)))"

text \<open>What a namespace holds is what the database of its server holds.\<close>

definition servers_view :: "('u, 'd, 'x) impl_lib \<Rightarrow> databaseConfiguration \<Rightarrow> store list \<Rightarrow> kv_maps" where
  "servers_view lib conf dbs n = sdl_view (dbs ! server_of lib conf n) n"

abbreviation idle :: "('u, 'x) servers \<Rightarrow> nat \<Rightarrow> bool" where
  "idle w i \<equiv> rs_dispatcher (asyncStorages (fst w) ! i) = Some []"

lemma serve_idle: "idle w i \<Longrightarrow> serve_at redis i w = Inr w"
  by (cases w) (simp add: serve_at_def serve1_idle)

lemma serve_idles: "(\<And>i. i \<in> set is \<Longrightarrow> idle w i) \<Longrightarrow> for_each (serve_at redis) is w = Inr w"
  by (induction "is") (simp_all add: serve_idle)

lemma serve_at_others:
  assumes "serve_at redis i w = Inr w'" "i < length (snd w)"
  shows "length (snd w') = length (snd w)" "\<And>j. j \<noteq> i \<Longrightarrow> asyncStorages (fst w') ! j = asyncStorages (fst w) ! j"
  using assms by (auto simp: serve_at_def rbind_Inr_iff split: prod.splits)

text \<open>Only one server has commands: all others serving makes no difference.\<close>

lemma serve_all_one:
  assumes "i < length (snd w)" "\<And>j. j < length (snd w) \<Longrightarrow> j \<noteq> i \<Longrightarrow> idle w j"
  shows "serve_all redis w = serve_at redis i w"
proof -
  have "[0..<length (snd w)] = [0..<i] @ i # [Suc i..<length (snd w)]"
    using assms(1) by (metis le_add1 less_imp_add_positive upt_add_eq_append upt_rec zero_le add_0)
  then have "serve_all redis w = rbind (serve_at redis i w) (for_each (serve_at redis) [Suc i..<length (snd w)])"
    using serve_idles [of "[0..<i]" w redis] assms by (simp add: serve_all_def for_each_append)
  also have "\<dots> = serve_at redis i w"
  proof (cases "serve_at redis i w")
    case (Inr w')
    have "for_each (serve_at redis) [Suc i..<length (snd w)] w' = Inr w'"
      using assms serve_at_others [OF Inr assms(1)] by (intro serve_idles) simp
    with Inr show ?thesis by simp
  qed simp
  finally show ?thesis .
qed


text \<open>The state in which one storage, its database and the shared environment have changed.\<close>

definition with_server :: "nat \<Rightarrow> ('u, 'x) servers \<Rightarrow> ('u, 'x) world \<Rightarrow> ('u, 'x) servers" where
  "with_server i = (\<lambda>(st, dbs) ((e, s), db). (st\<lparr>ai_env := e, asyncStorages := (asyncStorages st)[i := s]\<rparr>, dbs[i := db]))"

lemma with_server_parts [simp]:
  "snd (with_server i w v) = (snd w)[i := snd v]"
  "asyncStorages (fst (with_server i w v)) = (asyncStorages (fst w))[i := snd (fst v)]"
  "ai_env (fst (with_server i w v)) = fst (fst v)"
  "databaseConfiguration (fst (with_server i w v)) = databaseConfiguration (fst w)"
  by (simp_all add: with_server_def split_beta)

lemma serve_with_server:
  assumes "i < length (snd w)" "length (asyncStorages (fst w)) = length (snd w)"
    "\<And>j. j < length (snd w) \<Longrightarrow> j \<noteq> i \<Longrightarrow> idle w j"
  shows "serve_all redis (with_server i w v) = rbind (serve1 redis v) (\<lambda>v'. Inr (with_server i w v'))"
proof -
  have "serve_all redis (with_server i w v) = serve_at redis i (with_server i w v)"
    using assms by (intro serve_all_one) auto
  also have "\<dots> = rbind (serve1 redis v) (\<lambda>v'. Inr (with_server i w v'))"
    using assms(1,2) by (auto simp: serve_at_def with_server_def split_beta intro!: rbind_cong)
  finally show ?thesis .
qed

lemma servers_okD:
  assumes "servers_ok (st, dbs)"
  shows "asyncStorages st \<noteq> []" "length (asyncStorages st) = server_count (databaseConfiguration st)"
    "length dbs = length (asyncStorages st)" "0 < length dbs"
    "\<And>j. j < length dbs \<Longrightarrow> world_ok ((ai_env st, asyncStorages st ! j), dbs ! j)"
    "nc_inv (ns_confs (ai_env st))" "\<And>j. j < length dbs \<Longrightarrow> idle (st, dbs) j"
proof -
  show ok: "asyncStorages st \<noteq> []" "length (asyncStorages st) = server_count (databaseConfiguration st)"
    "length dbs = length (asyncStorages st)" "\<And>j. j < length dbs \<Longrightarrow> world_ok ((ai_env st, asyncStorages st ! j), dbs ! j)"
    using assms by (simp_all add: servers_ok_def)
  then show pos: "0 < length dbs" by (metis length_greater_0_conv)
  show "nc_inv (ns_confs (ai_env st))" using ok(4) [OF pos] by (simp add: world_ok_def)
  show "idle (st, dbs) j" if "j < length dbs" for j using ok(4) [OF that] by (simp add: world_ok_def)
qed

text \<open>An operation changes only the storage of its namespace and the shared environment, and only
  that storage's database has commands to answer.\<close>

lemma impl_server:
  assumes lib: "HAVE_REDIS lib" "storage_ops lib = recorder" and ok: "servers_ok (st, dbs)"
    and used: "backend_used st n" and i: "i = server_of lib (databaseConfiguration st) n"
  obtains confs where "nc_inv confs" "nc_policy confs = nc_policy (ns_confs (ai_env st))" "i < length dbs"
    "\<And>op dummy. on_handler lib n op dummy st = rbind (op ((ai_env st)\<lparr>ns_confs := confs\<rparr>, asyncStorages st ! i))
       (\<lambda>es. Inr (fst (with_server i (st, dbs) (es, dbs ! i))))"
    "\<And>redis v. serve_all redis (with_server i (st, dbs) v) = rbind (serve1 redis v) (\<lambda>v'. Inr (with_server i (st, dbs) v'))"
proof -
  note inv = servers_okD [OF ok]
  obtain confs where confs: "nc_inv confs" "nc_policy confs = nc_policy (ns_confs (ai_env st))"
    "getOperationHandler lib n st = Inr (RedisHandler (server_of lib (databaseConfiguration st) n), looked_up st confs)"
    using handler_when_created [OF lib(1) inv(6) used inv(2,1)] .
  have less: "i < length dbs" using server_of_less [of "databaseConfiguration st" lib n] inv(2-4) i by simp
  show thesis
  proof (rule that [OF confs(1,2) less])
    show "on_handler lib n op dummy st = rbind (op ((ai_env st)\<lparr>ns_confs := confs\<rparr>, asyncStorages st ! i))
       (\<lambda>es. Inr (fst (with_server i (st, dbs) (es, dbs ! i))))" for op dummy
      using confs(3) i by (auto simp: on_handler_def with_server_def looked_up_def intro!: rbind_cong)
    show "serve_all redis (with_server i (st, dbs) v) = rbind (serve1 redis v) (\<lambda>v'. Inr (with_server i (st, dbs) v'))" for redis v
      using less inv(3,7) by (intro serve_with_server) simp_all
  qed
qed

lemma impl_run1_server:
  assumes lib: "HAVE_REDIS lib" "storage_ops lib = recorder" and ok: "servers_ok (st, dbs)"
    and used: "backend_used st (request_ns r)" and i: "i = server_of lib (databaseConfiguration st) (request_ns r)"
  obtains confs where "nc_inv confs" "nc_policy confs = nc_policy (ns_confs (ai_env st))" "i < length dbs"
    "\<And>redis. impl_run1 lib redis r (st, dbs) =
       rbind (run1 redis r (((ai_env st)\<lparr>ns_confs := confs\<rparr>, asyncStorages st ! i), dbs ! i)) (\<lambda>v. Inr (with_server i (st, dbs) v))"
proof (rule impl_server [OF assms])
  fix confs
  let ?v = "((ai_env st)\<lparr>ns_confs := confs\<rparr>, asyncStorages st ! i)"
  assume confs: "nc_inv confs" "nc_policy confs = nc_policy (ns_confs (ai_env st))" "i < length dbs"
    and perf: "\<And>op dummy. on_handler lib (request_ns r) op dummy st = rbind (op ?v) (\<lambda>es. Inr (fst (with_server i (st, dbs) (es, dbs ! i))))"
    and served: "\<And>redis v. serve_all redis (with_server i (st, dbs) v) = rbind (serve1 redis v) (\<lambda>v'. Inr (with_server i (st, dbs) v'))"
  show thesis
  proof (rule that [OF confs])
    fix redis
    have "impl_run1 lib redis r (st, dbs) = rbind (perform recorder r ?v) (\<lambda>es.
      rbind (serve_all redis (with_server i (st, dbs) (es, dbs ! i))) (serve_all redis))"
      by (cases "perform recorder r ?v") (simp_all add: impl_run1_def with_server_def split_beta impl_perform_on_handler perf lib(2))
    also have "\<dots> = rbind (run1 redis r (?v, dbs ! i)) (\<lambda>v. Inr (with_server i (st, dbs) v))"
      by (simp add: run1_def served rbind_assoc)
    finally show "impl_run1 lib redis r (st, dbs) = rbind (run1 redis r (?v, dbs ! i)) (\<lambda>v. Inr (with_server i (st, dbs) v))" .
  qed
qed

text \<open>An operation of the specification reads and changes its own namespace only.\<close>

lemma spec1_local:
  assumes "A (request_ns r) = B (request_ns r)"
  shows "fst (spec1 glob r A) = fst (spec1 glob r B)" "snd (spec1 glob r B) = B(request_ns r := snd (spec1 glob r A) (request_ns r))"
  using assms by (cases r; simp)+


lemma servers_ok_with_server:
  assumes "servers_ok (st, dbs)" "world_ok v" "i < length dbs"
  shows "servers_ok (with_server i (st, dbs) v)"
  using servers_okD(1-3,5) [OF assms(1)] assms(2,3)
  by (cases v) (auto simp: servers_ok_def world_ok_def with_server_def nth_list_update split_beta)

text \<open>What the servers hold after an operation that changed one database as the specification says.\<close>

lemma servers_view_with_server:
  assumes "i = server_of lib conf (request_ns r)" "i < length dbs" "sdl_view db' = snd (spec1 glob r (sdl_view (dbs ! i)))"
  shows "servers_view lib conf (dbs[i := db']) = snd (spec1 glob r (servers_view lib conf dbs))"
    "fst (spec1 glob r (sdl_view (dbs ! i))) = fst (spec1 glob r (servers_view lib conf dbs))"
proof -
  have same: "sdl_view (dbs ! i) (request_ns r) = servers_view lib conf dbs (request_ns r)" using assms(1) by (simp add: servers_view_def)
  then show "fst (spec1 glob r (sdl_view (dbs ! i))) = fst (spec1 glob r (servers_view lib conf dbs))" by (rule spec1_local)
  show "servers_view lib conf (dbs[i := db']) = snd (spec1 glob r (servers_view lib conf dbs))"
  proof
    fix n'
    have other: "sdl_view db' n' = sdl_view (dbs ! i) n'" if "n' \<noteq> request_ns r"
      using spec1_local(2) [of "sdl_view (dbs ! i)" r "sdl_view (dbs ! i)" glob] that assms(3) by (metis fun_upd_apply)
    show "servers_view lib conf (dbs[i := db']) n' = snd (spec1 glob r (servers_view lib conf dbs)) n'"
      unfolding spec1_local(2) [of "sdl_view (dbs ! i)" r "servers_view lib conf dbs", OF same]
      using assms other by (auto simp: servers_view_def nth_list_update)
  qed
qed

lemma server_refines:
  assumes ok: "glob_ok glob" "redis_ok glob redis" "servers_ok (st, dbs)" "request_ok r"
    and lib: "HAVE_REDIS lib" "storage_ops lib = recorder" and used: "backend_used st (request_ns r)"
  shows "\<exists>st' dbs'. impl_run1 lib redis r (st, dbs) = Inr (st', dbs') \<and> servers_ok (st', dbs') \<and>
    databaseConfiguration st' = databaseConfiguration st \<and> backend_used st' = backend_used st \<and>
    posted (ai_env st') = posted (ai_env st) \<and>
    called (ai_env st') = called (ai_env st) @ [fst (spec1 glob r (servers_view lib (databaseConfiguration st) dbs))] \<and>
    servers_view lib (databaseConfiguration st) dbs' = snd (spec1 glob r (servers_view lib (databaseConfiguration st) dbs))"
proof -
  let ?n = "request_ns r" and ?conf = "databaseConfiguration st"
  define i where "i = server_of lib ?conf ?n"
  obtain confs where confs: "nc_inv confs" "nc_policy confs = nc_policy (ns_confs (ai_env st))"
    "impl_run1 lib redis r (st, dbs) =
       rbind (run1 redis r (((ai_env st)\<lparr>ns_confs := confs\<rparr>, asyncStorages st ! i), dbs ! i)) (\<lambda>v. Inr (with_server i (st, dbs) v))"
    and less: "i < length dbs" using impl_run1_server [OF lib ok(3) used i_def] by metis
  note sz = servers_okD(2,3,4) [OF ok(3)] and each = servers_okD(5) [OF ok(3)]
  let ?v = "(((ai_env st)\<lparr>ns_confs := confs\<rparr>, asyncStorages st ! i), dbs ! i)"
  have "world_ok ?v" using each [OF less] confs(1) by (simp add: world_ok_def)
  from request_refines [OF ok(1,2) this ok(4)] obtain e' s' db' where
    v: "run1 redis r ?v = Inr ((e', s'), db')" "world_ok ((e', s'), db')" "posted e' = posted (ai_env st)"
    "called e' = called (ai_env st) @ [fst (spec1 glob r (sdl_view (dbs ! i)))]" "sdl_view db' = snd (spec1 glob r (sdl_view (dbs ! i)))"
    unfolding refines1_def by auto
  let ?w = "with_server i (st, dbs) ((e', s'), db')"
  have "nc_policy (ns_confs e') = nc_policy (ns_confs (ai_env st))" "nc_inv (ns_confs e')"
    using run1_policy [OF v(1)] confs(1,2) by (simp_all add: same_policy_def)
  then have "backend_used (fst ?w) = backend_used st" by (simp add: backend_used_def fun_eq_iff)
  moreover have "servers_ok (fst ?w, snd ?w)" using servers_ok_with_server [OF ok(3) v(2) less] by (simp del: with_server_parts)
  ultimately show ?thesis using confs(3) v servers_view_with_server [OF i_def less v(5)]
    by (intro exI [of _ "fst ?w"] exI [of _ "snd ?w"]) (simp add: prod_eq_iff)
qed

text \<open>C1: the client's storage as a whole is a key-value store per namespace, however many servers
  the data is spread over. In every database type, for namespaces that use the database, any
  sequence of valid operations, each given to the Redis storage that the hash of its namespace
  selects and answered by that storage's database, calls exactly the acknowledgements of the
  specification, in order, and leaves in every namespace what the specification says; the choice
  of the server does not change with the history, so no namespace is ever split.\<close>

theorem sharded_storage_refines_spec:
  assumes "glob_ok glob" "redis_ok glob redis" "HAVE_REDIS lib" "storage_ops lib = recorder" "servers_ok (st, dbs)"
    "\<forall>r\<in>set rs. request_ok r \<and> backend_used st (request_ns r)"
  shows "\<exists>st' dbs'. impl_run lib redis rs (st, dbs) = Inr (st', dbs') \<and> servers_ok (st', dbs') \<and>
    databaseConfiguration st' = databaseConfiguration st \<and> posted (ai_env st') = posted (ai_env st) \<and>
    called (ai_env st') = called (ai_env st) @ fst (spec glob rs (servers_view lib (databaseConfiguration st) dbs)) \<and>
    servers_view lib (databaseConfiguration st) dbs' = snd (spec glob rs (servers_view lib (databaseConfiguration st) dbs))"
  using assms(5,6)
proof (induction rs arbitrary: st dbs)
  case (Cons r rs)
  from server_refines [OF assms(1,2) Cons.prems(1) _ assms(3,4), of r] Cons.prems(2) obtain st1 dbs1 where
    1: "impl_run1 lib redis r (st, dbs) = Inr (st1, dbs1)" "servers_ok (st1, dbs1)"
      "databaseConfiguration st1 = databaseConfiguration st" "backend_used st1 = backend_used st"
      "posted (ai_env st1) = posted (ai_env st)"
      "called (ai_env st1) = called (ai_env st) @ [fst (spec1 glob r (servers_view lib (databaseConfiguration st) dbs))]"
      "servers_view lib (databaseConfiguration st) dbs1 = snd (spec1 glob r (servers_view lib (databaseConfiguration st) dbs))"
    by auto
  from Cons.IH [OF 1(2)] Cons.prems(2) 1 show ?case by (simp add: impl_run_def split_beta Let_def)
qed (simp add: impl_run_def)


section \<open>Sample servers\<close>

definition sample_impl_lib :: "(nat, nat cmds, unit) impl_lib" where
  "sample_impl_lib = \<lparr>storage_ops = recorder, storage_discovery = \<lparr>set_state_cb = Inr, clear_state_cb = id\<rparr>,
     asyncDatabaseDiscoveryCreator = \<lambda>_ _ _. Inr (), crc32 = \<lambda>s. of_nat (length s), HAVE_REDIS = True\<rparr>"

definition sample_address :: hostAndPort where
  "sample_address = \<lparr>host = ''db'', port = 0, literalIPv6 = False\<rparr>"

definition sample_cluster :: databaseConfiguration where
  "sample_cluster = \<lparr>dbType = SDL_STANDALONE_CLUSTER, serverAddresses = [sample_address, sample_address\<lparr>host := ''dc''\<rparr>],
     sentinelPorts = [], sentinelMasterNames = []\<rparr>"

definition sample_impl :: "(nat, nat cmds, unit) redisStorage list \<Rightarrow> (nat, nat cmds, unit) impl_state" where
  "sample_impl storages = \<lparr>engine_id = 1, ai_env = sample_env, databaseConfiguration = sample_cluster, ai_publisherId = None,
     asyncStorages = storages, static_serverCount = None, static_dummyEngine = None, foreign_posts = []\<rparr>"

lemma sample_cluster_simps [simp]:
  "is_sdl_cluster sample_cluster" "server_count sample_cluster = 2" "length (getServerAddresses sample_cluster) = 2"
  by (simp_all add: is_sdl_cluster_def sample_cluster_def getDbType_def server_count_def getServerAddresses_def)

lemma sample_nc_inv: "nc_inv (ns_confs sample_env)"
  by (simp add: sample_env_def sample_nc_def nc_inv_def)

lemma sample_servers_ok: "servers_ok (sample_impl [sample_storage, sample_storage], [Map.empty, Map.empty])"
  using sample_nc_inv by (simp add: servers_ok_def sample_impl_def world_ok_def sample_storage_def nth_Cons split: nat.split)

lemma sample_backend_used:
  "backend_used (sample_impl ss) ''ab''" "backend_used (sample_impl ss) ''abc''" "\<not> backend_used (sample_impl ss) ''ax''"
  by (simp_all add: backend_used_def sample_impl_def sample_env_def nc_policy_def sample_nc_def search_index_def
      search_step_def defaultConfigurationIndex_def substr_def)

text \<open>Two namespaces on two servers.\<close>

theorem sharded_storage_refines_spec_witness:
  "\<exists>st' dbs'. impl_run sample_impl_lib sample_redis
       [Set ''ab'' [(''k'', [1])] 0, Set ''abc'' [(''k'', [2])] 1, RemoveAll ''ab'' 2, Get ''abc'' [''k''] 3]
       (sample_impl [sample_storage, sample_storage], [Map.empty, Map.empty]) = Inr (st', dbs') \<and>
     called (ai_env st') = [CallModify 0 no_error, CallModify 1 no_error, CallModify 2 no_error, CallGet 3 no_error [(''k'', [2])]]"
proof -
  let ?rs = "[Set ''ab'' [(''k'', [1])] 0, Set ''abc'' [(''k'', [2])] 1, RemoveAll ''ab'' 2, Get ''abc'' [''k''] (3::nat)]"
  have ok: "\<forall>r\<in>set ?rs. request_ok r \<and> backend_used (sample_impl [sample_storage, sample_storage]) (request_ns r)"
    by (simp add: isValidNamespace_iff plain_def redisSearchPatternCharacters_def sample_backend_used)
  have lib: "HAVE_REDIS sample_impl_lib" "storage_ops sample_impl_lib = recorder" by (simp_all add: sample_impl_lib_def)
  from sharded_storage_refines_spec [OF sample_glob_ok sample_redis_ok lib sample_servers_ok ok]
  show ?thesis by (auto simp: sample_impl_def sample_env_def)
qed


section \<open>Namespaces that do not use the database\<close>

text \<open>The acknowledgement of a successful operation that finds nothing.\<close>

fun success_ack :: "'u request \<Rightarrow> 'u ack_call" where
  "success_ack (Set n m a) = CallModify a no_error"
| "success_ack (SetIf n k old new a) = CallModifyIf a no_error True"
| "success_ack (SetIfNotExists n k d a) = CallModifyIf a no_error True"
| "success_ack (Get n ks a) = CallGet a no_error []"
| "success_ack (Remove n ks a) = CallModify a no_error"
| "success_ack (RemoveIf n k d a) = CallModifyIf a no_error True"
| "success_ack (FindKeys n p a) = CallFindKeys a no_error []"
| "success_ack (ListKeys n p a) = CallFindKeys a no_error []"
| "success_ack (RemoveAll n a) = CallModify a no_error"

lemma dummy_ack_success: "dummy_ack r = success_ack r"
  by (cases r) (simp_all add: dummy_defs)

text \<open>C32: an operation on a namespace configured not to use the database returns at once, touches
  no storage and sends nothing; its acknowledgement says success, whatever the keys and data are,
  with no data and no keys found and with the condition of a conditional operation met. The
  acknowledgement is given to the engine of the instance that first used such a namespace: an
  instance created later in the process gives it to the other instance's engine, not to its own.\<close>

theorem disabled_namespace_dummy:
  assumes "nc_inv (ns_confs (ai_env st))" "\<not> backend_used st (request_ns r)"
  shows "\<exists>st'. impl_perform lib r st = Inr st' \<and> asyncStorages st' = asyncStorages st \<and>
    called (ai_env st') = called (ai_env st) \<and> backend_used st' = backend_used st \<and>
    (case static_dummyEngine st of
       None \<Rightarrow> static_dummyEngine st' = Some (engine_id st) \<and> foreign_posts st' = foreign_posts st \<and>
         posted (ai_env st') = posted (ai_env st) @ [success_ack r]
     | Some g \<Rightarrow> static_dummyEngine st' = Some g \<and>
         (if g = engine_id st
          then posted (ai_env st') = posted (ai_env st) @ [success_ack r] \<and> foreign_posts st' = foreign_posts st
          else posted (ai_env st') = posted (ai_env st) \<and> foreign_posts st' = foreign_posts st @ [(g, success_ack r)]))"
proof -
  obtain confs where confs: "isDbBackendUseEnabled (request_ns r) (ns_confs (ai_env st)) = Inr (False, confs)"
    "nc_policy confs = nc_policy (ns_confs (ai_env st))" using backend_lookup [OF assms(1)] assms(2) by metis
  let ?st = "dummy_post (success_ack r) (snd (getDummyHandler (looked_up st confs)))"
  have "impl_perform lib r st = Inr ?st"
    using confs(1) by (simp add: impl_perform_on_handler dummy_ack_success on_handler_def getOperationHandler_def looked_up_def getDummyHandler_def Let_def)
  moreover have "backend_used ?st = backend_used st"
    using confs(2) by (simp add: fun_eq_iff backend_used_def dummy_post_def getDummyHandler_def post_ack_def)
  ultimately show ?thesis
    by (intro exI [of _ ?st]) (simp add: dummy_post_def getDummyHandler_def post_ack_def split: option.split)
qed

theorem disabled_namespace_dummy_witness:
  "\<exists>st'. impl_perform sample_impl_lib (SetIf ''ax'' ''k'' [1] [2] 7) (sample_impl []\<lparr>static_dummyEngine := Some 0\<rparr>) = Inr st' \<and>
     posted (ai_env st') = [] \<and> foreign_posts st' = [(0, CallModifyIf 7 no_error True)]"
  using disabled_namespace_dummy [of "sample_impl []\<lparr>static_dummyEngine := Some 0\<rparr>" "SetIf ''ax'' ''k'' [1] [2] 7" sample_impl_lib]
    sample_backend_used(3) [of "[]"] sample_nc_inv
  by (auto simp: sample_impl_def backend_used_def sample_env_def)

section \<open>First use\<close>

definition created_storage ::
  "('u, 'd, 'x) impl_lib \<Rightarrow> namespace \<Rightarrow> ('u, 'd, 'x) impl_state \<Rightarrow> nat option \<Rightarrow> ('u, 'd, 'x) redisStorage" where
  "created_storage lib n st addressIndex =
     \<lparr>rs_dispatcher = None, rs_discovery =
        (case rbind (asyncDatabaseDiscoveryCreator lib n (databaseConfiguration st) addressIndex) (set_state_cb (storage_discovery lib)) of
           Inr disc \<Rightarrow> Some disc | Inl _ \<Rightarrow> None),
      publisherId = ai_publisherId st, readyAck = None, dbInfo = None\<rparr>"

definition discovery_works :: "('u, 'd, 'x) impl_lib \<Rightarrow> namespace \<Rightarrow> ('u, 'd, 'x) impl_state \<Rightarrow> bool" where
  "discovery_works lib n st \<longleftrightarrow> ai_publisherId st \<noteq> Some [] \<and>
     (\<forall>i\<in>insert None (Some ` {..<length (getServerAddresses (databaseConfiguration st))}).
        \<not> isl (rbind (asyncDatabaseDiscoveryCreator lib n (databaseConfiguration st) i) (set_state_cb (storage_discovery lib))))"

lemma new_storage:
  assumes "ai_publisherId st \<noteq> Some []"
    "\<not> isl (rbind (asyncDatabaseDiscoveryCreator lib n (databaseConfiguration st) i) (set_state_cb (storage_discovery lib)))"
  shows "new_redis_storage lib n i st = Inr (st\<lparr>asyncStorages := asyncStorages st @ [created_storage lib n st i]\<rparr>)"
  using assms by (auto simp: new_redis_storage_def AsyncRedisStorage_def created_storage_def rbind_def split: sum.splits)

lemma new_storages:
  assumes "discovery_works lib n st" "m \<le> length (getServerAddresses (databaseConfiguration st))"
  shows "for_each (\<lambda>i. new_redis_storage lib n (Some i)) [0..<m] st =
    Inr (st\<lparr>asyncStorages := asyncStorages st @ map (\<lambda>i. created_storage lib n st (Some i)) [0..<m]\<rparr>)"
  using assms(2)
proof (induction m)
  case (Suc m)
  let ?st = "st\<lparr>asyncStorages := asyncStorages st @ map (\<lambda>i. created_storage lib n st (Some i)) [0..<m]\<rparr>"
  have "new_redis_storage lib n (Some m) ?st = Inr (?st\<lparr>asyncStorages := asyncStorages ?st @ [created_storage lib n ?st (Some m)]\<rparr>)"
    using assms(1) Suc.prems by (intro new_storage) (auto simp: discovery_works_def)
  with Suc show ?case by (simp add: for_each_append created_storage_def)
qed simp


definition counted_servers :: "('u, 'd, 'x) impl_state \<Rightarrow> nat" where
  "counted_servers st = (case static_serverCount st of Some c \<Rightarrow> c | None \<Rightarrow> length (getServerAddresses (databaseConfiguration st)))"

lemma counted_servers_simps [simp]:
  "counted_servers (looked_up st confs) = counted_servers st" "static_serverCount st = Some c \<Longrightarrow> counted_servers st = c"
  by (simp_all add: counted_servers_def split: option.split)

lemma handlers_set:
  assumes "discovery_works lib n st" "asyncStorages st = []"
    "is_sdl_cluster (databaseConfiguration st) \<Longrightarrow> m = counted_servers st"
    "m \<le> length (getServerAddresses (databaseConfiguration st))"
  obtains st' where "setAsyncRedisStorageHandlers lib n st = Inr st'" "databaseConfiguration st' = databaseConfiguration st"
    "ai_env st' = ai_env st"
    "asyncStorages st' = (if is_sdl_cluster (databaseConfiguration st)
       then map (\<lambda>i. created_storage lib n st (Some i)) [0..<m] else [created_storage lib n st None])"
proof (cases "is_sdl_cluster (databaseConfiguration st)")
  case True
  let ?st = "st\<lparr>static_serverCount := Some m\<rparr>"
  have "for_each (\<lambda>i. new_redis_storage lib n (Some i)) [0..<m] ?st =
    Inr (?st\<lparr>asyncStorages := asyncStorages ?st @ map (\<lambda>i. created_storage lib n ?st (Some i)) [0..<m]\<rparr>)"
    using assms(1,4) by (intro new_storages) (simp_all add: discovery_works_def)
  then have "setAsyncRedisStorageHandlers lib n st =
    Inr (?st\<lparr>asyncStorages := map (\<lambda>i. created_storage lib n ?st (Some i)) [0..<m]\<rparr>)"
    using assms(2) assms(3) [OF True] True
    by (simp add: setAsyncRedisStorageHandlers_def setAsyncRedisStorageHandlersForCluster_def Let_def flip: counted_servers_def)
  then show thesis by (rule that) (simp_all add: True created_storage_def)
next
  case False
  have "new_redis_storage lib n None st = Inr (st\<lparr>asyncStorages := asyncStorages st @ [created_storage lib n st None]\<rparr>)"
    using assms(1) by (intro new_storage) (simp_all add: discovery_works_def)
  then show thesis using that assms(2) False by (simp add: setAsyncRedisStorageHandlers_def)
qed

text \<open>The handler that the first operation of an instance gets, with \<open>m\<close> storages created.\<close>

lemma first_handler:
  assumes "HAVE_REDIS lib" "nc_inv (ns_confs (ai_env st))" "backend_used st n" "asyncStorages st = []" "discovery_works lib n st"
    "is_sdl_cluster (databaseConfiguration st) \<Longrightarrow> m = counted_servers st"
    "m \<le> length (getServerAddresses (databaseConfiguration st))"
  obtains st' confs where "databaseConfiguration st' = databaseConfiguration st"
    "asyncStorages st' = (if is_sdl_cluster (databaseConfiguration st)
       then map (\<lambda>i. created_storage lib n st (Some i)) [0..<m] else [created_storage lib n st None])"
    "getOperationHandler lib n st = rbind (getAsyncRedisStorageHandler lib n st') (\<lambda>h. Inr (h, st'))"
    "nc_inv confs" "nc_policy confs = nc_policy (ns_confs (ai_env st))" "ai_env st' = (ai_env st)\<lparr>ns_confs := confs\<rparr>"
proof -
  obtain confs where confs: "isDbBackendUseEnabled n (ns_confs (ai_env st)) = Inr (True, confs)" "nc_inv confs"
    "nc_policy confs = nc_policy (ns_confs (ai_env st))"
    using backend_lookup [OF assms(2)] assms(3) by metis
  have works: "discovery_works lib n (looked_up st confs)" using assms(5) by (simp add: discovery_works_def)
  obtain st' where st': "setAsyncRedisStorageHandlers lib n (looked_up st confs) = Inr st'"
    "databaseConfiguration st' = databaseConfiguration st" "ai_env st' = (ai_env st)\<lparr>ns_confs := confs\<rparr>"
    "asyncStorages st' = (if is_sdl_cluster (databaseConfiguration st)
       then map (\<lambda>i. created_storage lib n st (Some i)) [0..<m] else [created_storage lib n st None])"
    by (rule handlers_set [OF works, of m]) (use assms(4,6,7) in \<open>auto simp: created_storage_def looked_up_env\<close>)
  have "getOperationHandler lib n st = rbind (getAsyncRedisStorageHandler lib n st') (\<lambda>h. Inr (h, st'))"
    using assms(1,4) confs(1) st'(1) by (simp add: getOperationHandler_def getRedisHandler_def looked_up_def)
  with st'(2,4) show thesis using confs(2,3) st'(3) by (rule that)
qed

text \<open>The storages of an instance after its first operation.\<close>

definition created_storages :: "('u, 'd, 'x) impl_lib \<Rightarrow> namespace \<Rightarrow> ('u, 'd, 'x) impl_state \<Rightarrow> ('u, 'd, 'x) redisStorage list" where
  "created_storages lib n st = map (\<lambda>i. created_storage lib n st (if is_sdl_cluster (databaseConfiguration st) then Some i else None))
     [0..<server_count (databaseConfiguration st)]"

lemma first_use:
  assumes "HAVE_REDIS lib" "nc_inv (ns_confs (ai_env st))" "backend_used st n" "asyncStorages st = []"
    "discovery_works lib n st" "server_count (databaseConfiguration st) \<noteq> 0"
    "static_serverCount st \<in> {None, Some (server_count (databaseConfiguration st))}"
  obtains st' confs where "getOperationHandler lib n st = Inr (RedisHandler (server_of lib (databaseConfiguration st) n), st')"
    "databaseConfiguration st' = databaseConfiguration st" "asyncStorages st' = created_storages lib n st"
    "nc_inv confs" "nc_policy confs = nc_policy (ns_confs (ai_env st))" "ai_env st' = (ai_env st)\<lparr>ns_confs := confs\<rparr>"
proof -
  let ?conf = "databaseConfiguration st"
  let ?m = "length (getServerAddresses ?conf)"
  have m: "is_sdl_cluster ?conf \<Longrightarrow> ?m = counted_servers st"
    using assms(7) by (auto simp: counted_servers_def server_count_def)
  obtain st' confs where st': "databaseConfiguration st' = ?conf"
    "asyncStorages st' = (if is_sdl_cluster ?conf then map (\<lambda>i. created_storage lib n st (Some i)) [0..<?m] else [created_storage lib n st None])"
    "getOperationHandler lib n st = rbind (getAsyncRedisStorageHandler lib n st') (\<lambda>h. Inr (h, st'))"
    "nc_inv confs" "nc_policy confs = nc_policy (ns_confs (ai_env st))" "ai_env st' = (ai_env st)\<lparr>ns_confs := confs\<rparr>"
    using first_handler [OF assms(1-5) m order_refl] .
  have less: "server_of lib ?conf n < server_count ?conf" using assms(6) by (rule server_of_less)
  have storages: "asyncStorages st' = created_storages lib n st" using st'(2) by (simp add: server_count_def created_storages_def)
  then have "getAsyncRedisStorageHandler lib n st' = Inr (RedisHandler (server_of lib ?conf n))"
    using less assms(6) st'(1)
    by (auto simp: getAsyncRedisStorageHandler_def getClusterHashIndex_def server_of_def server_count_def vec_at_def created_storages_def)
  then show thesis using st'(3) by (intro that [OF _ st'(1) storages st'(4-6)]) simp
qed

text \<open>The first operation on a namespace that uses the database creates the storages: one per
  configured server in the cluster types, each with the discovery of its own server, and one for
  all servers otherwise; the operation then goes to the one the hash of the namespace selects,
  which exists.\<close>

theorem first_use_creates_servers:
  assumes "HAVE_REDIS lib" "nc_inv (ns_confs (ai_env st))" "backend_used st n" "asyncStorages st = []"
    "discovery_works lib n st" "server_count (databaseConfiguration st) \<noteq> 0"
    "static_serverCount st \<in> {None, Some (server_count (databaseConfiguration st))}"
  shows "\<exists>st'. getOperationHandler lib n st = Inr (RedisHandler (server_of lib (databaseConfiguration st) n), st') \<and>
    server_of lib (databaseConfiguration st) n < length (asyncStorages st') \<and>
    asyncStorages st' = map (\<lambda>i. created_storage lib n st (if is_sdl_cluster (databaseConfiguration st) then Some i else None))
      [0..<server_count (databaseConfiguration st)]"
proof (rule first_use [OF assms])
  fix st' confs
  assume "getOperationHandler lib n st = Inr (RedisHandler (server_of lib (databaseConfiguration st) n), st')"
    "asyncStorages st' = created_storages lib n st"
  then show ?thesis using server_of_less [OF assms(6), of lib n] by (simp add: created_storages_def)
qed

theorem first_use_creates_servers_witness:
  "\<exists>st'. getOperationHandler sample_impl_lib ''abc'' (sample_impl []) = Inr (RedisHandler 1, st') \<and> length (asyncStorages st') = 2"
  using first_use_creates_servers [of sample_impl_lib "sample_impl []" "''abc''"] sample_nc_inv sample_backend_used(2) [of "[]"]
  by (auto simp: sample_impl_def sample_impl_lib_def discovery_works_def server_of_def)

text \<open>C33: the number of servers is remembered in a static variable, so the first instance of the
  process decides how many storages every later instance creates. In an instance with more
  servers than that, the operations on a namespace whose hash selects one of the servers left
  out throw \<open>std::out_of_range\<close>.\<close>

theorem stale_server_count_throws:
  assumes "HAVE_REDIS lib" "nc_inv (ns_confs (ai_env st))" "backend_used st (request_ns r)" "asyncStorages st = []"
    "discovery_works lib (request_ns r) st" "is_sdl_cluster (databaseConfiguration st)"
    "static_serverCount st = Some c" "c \<le> server_of lib (databaseConfiguration st) (request_ns r)"
    "server_count (databaseConfiguration st) \<noteq> 0"
  shows "impl_perform lib r st = Inl (Throw StdOutOfRange)"
proof -
  let ?n = "request_ns r" and ?conf = "databaseConfiguration st"
  have "c \<le> length (getServerAddresses ?conf)"
    using assms(6,8) server_of_less [OF assms(9), of lib ?n] by (simp add: server_count_def)
  then obtain st' where st': "databaseConfiguration st' = ?conf" "length (asyncStorages st') = c"
      "getOperationHandler lib ?n st = rbind (getAsyncRedisStorageHandler lib ?n st') (\<lambda>h. Inr (h, st'))"
    by (rule first_handler [OF assms(1-5), of c, rotated]) (use assms(6,7) in simp_all)
  have "getAsyncRedisStorageHandler lib ?n st' = Inl (Throw StdOutOfRange)"
    using st'(1,2) assms(6,8,9) by (simp add: getAsyncRedisStorageHandler_def getClusterHashIndex_def server_of_def server_count_def vec_at_def)
  then show ?thesis using st'(3) by (simp add: impl_perform_on_handler on_handler_def)
qed

theorem stale_server_count_throws_witness:
  "impl_perform sample_impl_lib (Get ''abc'' [''k''] 0) (sample_impl []\<lparr>static_serverCount := Some 1\<rparr>) = Inl (Throw StdOutOfRange)"
  using stale_server_count_throws [of sample_impl_lib "sample_impl []\<lparr>static_serverCount := Some 1\<rparr>" "Get ''abc'' [''k''] 0" 1]
    sample_nc_inv sample_backend_used(2) [of "[]"]
  by (simp add: sample_impl_def sample_impl_lib_def discovery_works_def server_of_def backend_used_def)

end
