(* ===== verification/Sync_Storage.thy ===== *)
theory Sync_Storage
  imports Async_Storage
begin

text \<open>
  \<open>SyncStorageImpl\<close> (\<open>src/syncstorageimpl.cpp\<close>): the blocking interface. Every operation drains the
  pending events, waits until the storage is ready, starts the asynchronous operation, polls until
  its acknowledgement has been called and turns the error code into an exception.

  The asynchronous storage, \<open>poll\<close> and the clock are operations of \<open>sync_lib\<close> on a world \<open>'w\<close>. An
  operation of the storage also returns the acknowledgements it called meanwhile; all of them are
  bound to the same object. Loops that may run forever are partial functions: \<open>None\<close> is a call that
  does not return. A failure of \<open>poll\<close> or of the event handling ends the run; an exception that
  reports the outcome of an operation is a value, as the object can be used again after it.
\<close>

section \<open>State and environment\<close>

record syncStorageImpl =
  localMap :: dataMap
  localKeys :: keys
  localStatus :: bool
  localError :: error_code
  synced :: bool
  isReady :: bool
  operationTimeout :: int

text \<open>\<open>raw_poll\<close>: the return value of \<open>poll\<close>, whether \<open>revents\<close> has \<open>POLLIN\<close>, and \<open>errno\<close>.
  Durations of the steady clock are in nanoseconds.\<close>

record 'w sync_lib =
  raw_poll :: "int \<Rightarrow> 'w \<Rightarrow> (int \<times> bool \<times> int) \<times> 'w"
  steady_now :: "'w \<Rightarrow> int \<times> 'w"
  as_handleEvents :: "'w \<Rightarrow> (unit ack_call list \<times> 'w) result"
  as_waitReadyAsync :: "namespace \<Rightarrow> 'w \<Rightarrow> (unit ack_call list \<times> 'w) result"
  as_perform :: "unit request \<Rightarrow> 'w \<Rightarrow> (unit ack_call list \<times> 'w) result"
  sync_message :: std_messages

type_synonym 'w sync = "syncStorageImpl \<times> 'w"
type_synonym 'a run = "'a result option"

definition obind :: "'a run \<Rightarrow> ('a \<Rightarrow> 'b run) \<Rightarrow> 'b run" where
  "obind m f = (case m of None \<Rightarrow> None | Some (Inl e) \<Rightarrow> Some (Inl e) | Some (Inr x) \<Rightarrow> f x)"

lemma obind_simps [simp]: "obind None f = None" "obind (Some (Inl e)) f = Some (Inl e)" "obind (Some (Inr x)) f = f x"
  by (simp_all add: obind_def)

definition SyncStorageImpl :: syncStorageImpl where
  "SyncStorageImpl = \<lparr>localMap = [], localKeys = [], localStatus = False, localError = no_error, synced = False,
     isReady = False, operationTimeout = 0\<rparr>"

section \<open>Acknowledgements\<close>

definition waitReadyAck :: "error_code \<Rightarrow> syncStorageImpl \<Rightarrow> syncStorageImpl" where
  "waitReadyAck ec s = s\<lparr>isReady := True, localError := ec\<rparr>"

definition modifyAck :: "error_code \<Rightarrow> syncStorageImpl \<Rightarrow> syncStorageImpl" where
  "modifyAck ec s = s\<lparr>synced := True, localError := ec\<rparr>"

definition modifyIfAck :: "error_code \<Rightarrow> bool \<Rightarrow> syncStorageImpl \<Rightarrow> syncStorageImpl" where
  "modifyIfAck ec status s = s\<lparr>synced := True, localError := ec, localStatus := status\<rparr>"

definition getAck :: "error_code \<Rightarrow> dataMap \<Rightarrow> syncStorageImpl \<Rightarrow> syncStorageImpl" where
  "getAck ec m s = s\<lparr>synced := True, localError := ec, localMap := m\<rparr>"

definition findKeysAck :: "error_code \<Rightarrow> keys \<Rightarrow> syncStorageImpl \<Rightarrow> syncStorageImpl" where
  "findKeysAck ec ks s = s\<lparr>synced := True, localError := ec, localKeys := ks\<rparr>"

fun sync_ack :: "unit ack_call \<Rightarrow> syncStorageImpl \<Rightarrow> syncStorageImpl" where
  "sync_ack (CallReady _ ec) = waitReadyAck ec"
| "sync_ack (CallModify _ ec) = modifyAck ec"
| "sync_ack (CallModifyIf _ ec status) = modifyIfAck ec status"
| "sync_ack (CallGet _ ec m) = getAck ec m"
| "sync_ack (CallFindKeys _ ec ks) = findKeysAck ec ks"

definition verifyBackendResponse :: "'w sync_lib \<Rightarrow> syncStorageImpl \<Rightarrow> unit result" where
  "verifyBackendResponse lib s =
     (if ec_bool (localError s) then Inl (throwExceptionForErrorCode (sync_message lib) (localError s)) else Inr ())"

section \<open>Polling\<close>

definition EINTR :: int where "EINTR = 4"

definition NO_TIMEOUT :: int where "NO_TIMEOUT = -1"

definition system_poll :: "'w sync_lib \<Rightarrow> int \<Rightarrow> 'w \<Rightarrow> (int \<times> bool \<times> 'w) result" where
  "system_poll lib timeout w =
     (case raw_poll lib timeout w of ((ret, pollin, err), w') \<Rightarrow>
        if ret = -1 \<and> err \<noteq> EINTR then Inl (Throw (StdSystemError ''poll'' err)) else Inr (ret, pollin, w'))"

definition acked :: "syncStorageImpl \<Rightarrow> (unit ack_call list \<times> 'w) result \<Rightarrow> 'w sync result" where
  "acked s r = rbind r (\<lambda>(acks, w). Inr (fold sync_ack acks s, w))"

definition pollAndHandleEvents :: "'w sync_lib \<Rightarrow> int \<Rightarrow> 'w sync \<Rightarrow> 'w sync result" where
  "pollAndHandleEvents lib timeout_ms = (\<lambda>(s, w).
     rbind (system_poll lib timeout_ms w) (\<lambda>(ret, pollin, w').
       if 0 < ret \<and> pollin then acked s (as_handleEvents lib w') else Inr (s, w')))"

partial_function (option) waitForOperationCallback :: "'w sync_lib \<Rightarrow> 'w sync \<Rightarrow> 'w sync run" where
  "waitForOperationCallback lib sw =
     (if synced (fst sw) then Some (Inr sw)
      else case pollAndHandleEvents lib NO_TIMEOUT sw of
             Inl e \<Rightarrow> Some (Inl e) | Inr sw' \<Rightarrow> waitForOperationCallback lib sw')"

partial_function (option) ready_loop :: "'w sync_lib \<Rightarrow> 'w sync \<Rightarrow> 'w sync run" where
  "ready_loop lib sw =
     (if isReady (fst sw) then Some (Inr sw)
      else case pollAndHandleEvents lib NO_TIMEOUT sw of
             Inl e \<Rightarrow> Some (Inl e) | Inr sw' \<Rightarrow> ready_loop lib sw')"

partial_function (option) timed_ready_loop :: "'w sync_lib \<Rightarrow> int \<Rightarrow> int \<Rightarrow> int \<Rightarrow> 'w sync \<Rightarrow> 'w sync run" where
  "timed_ready_loop lib start timeout_ms pollTimeout_ms sw =
     (if isReady (fst sw) then Some (Inr sw)
      else case steady_now lib (snd sw) of (now, w) \<Rightarrow>
        if now - start < timeout_ms * 1000000
        then case pollAndHandleEvents lib pollTimeout_ms (fst sw, w) of
               Inl e \<Rightarrow> Some (Inl e) | Inr sw' \<Rightarrow> timed_ready_loop lib start timeout_ms pollTimeout_ms sw'
        else Some (Inr (fst sw, w)))"

text \<open>Division truncates towards zero; the timeout of \<open>poll\<close> is an \<open>int\<close>.\<close>

definition truncated_div :: "int \<Rightarrow> int \<Rightarrow> int" where
  "truncated_div a b = sgn a * (\<bar>a\<bar> div b)"

definition to_int32 :: "int \<Rightarrow> int" where
  "to_int32 i = sint (word_of_int i :: 32 word)"

definition waitForReadinessCheckCallback :: "'w sync_lib \<Rightarrow> int \<Rightarrow> 'w sync \<Rightarrow> 'w sync run" where
  "waitForReadinessCheckCallback lib timeout sw =
     (if timeout = 0 then ready_loop lib sw
      else let timeout_ms = truncated_div timeout 1000000;
               pollTimeout_ms = truncated_div timeout_ms 10;
               (start, w) = steady_now lib (snd sw)
           in timed_ready_loop lib start timeout_ms (to_int32 pollTimeout_ms) (fst sw, w))"

definition waitSdlToBeReady_timeout :: "'w sync_lib \<Rightarrow> namespace \<Rightarrow> int \<Rightarrow> 'w sync \<Rightarrow> 'w sync run" where
  "waitSdlToBeReady_timeout lib n timeout = (\<lambda>(s, w).
     obind (Some (acked (s\<lparr>isReady := False\<rparr>) (as_waitReadyAsync lib n w))) (waitForReadinessCheckCallback lib timeout))"

definition waitSdlToBeReady :: "'w sync_lib \<Rightarrow> namespace \<Rightarrow> 'w sync \<Rightarrow> 'w sync run" where
  "waitSdlToBeReady lib n sw = waitSdlToBeReady_timeout lib n (operationTimeout (fst sw)) sw"

partial_function (option) handlePendingEvents :: "'w sync_lib \<Rightarrow> 'w sync \<Rightarrow> 'w sync run" where
  "handlePendingEvents lib sw =
     (case system_poll lib 0 (snd sw) of
        Inl e \<Rightarrow> Some (Inl e)
      | Inr (pollRetVal, pollin, w) \<Rightarrow>
          if 0 < pollRetVal \<and> pollin
          then case acked (fst sw) (as_handleEvents lib w) of
                 Inl e \<Rightarrow> Some (Inl e) | Inr sw' \<Rightarrow> handlePendingEvents lib sw'
          else Some (Inr (fst sw, w)))"

section \<open>Operations\<close>

text \<open>\<open>waitReady\<close>: the exception for the client is in the value.\<close>

definition waitReady :: "'w sync_lib \<Rightarrow> namespace \<Rightarrow> int \<Rightarrow> 'w sync \<Rightarrow> (unit result \<times> 'w sync) run" where
  "waitReady lib n timeout sw =
     obind (waitSdlToBeReady_timeout lib n timeout sw) (\<lambda>(s, w).
       Some (Inr (if \<not> isReady s
                  then Inl (Throw (RejectedBySdl (''Timeout, SDL service not ready for the '' @ [CHR 0x27] @ n @ [CHR 0x27] @ '' namespace'')))
                  else verifyBackendResponse lib s, (s, w))))"

text \<open>What the operations have in common; \<open>res\<close> is what the operation returns of the object.\<close>

definition sync_operation ::
  "'w sync_lib \<Rightarrow> unit request \<Rightarrow> (syncStorageImpl \<Rightarrow> 'v) \<Rightarrow> 'w sync \<Rightarrow> ('v result \<times> 'w sync) run" where
  "sync_operation lib r res sw =
     obind (handlePendingEvents lib sw) (\<lambda>sw.
     obind (waitSdlToBeReady lib (request_ns r) sw) (\<lambda>(s, w).
     obind (Some (acked (s\<lparr>synced := False\<rparr>) (as_perform lib r w))) (\<lambda>sw.
     obind (waitForOperationCallback lib sw) (\<lambda>(s, w).
       Some (Inr (rbind (verifyBackendResponse lib s) (\<lambda>_. Inr (res s)), (s, w)))))))"

definition sync_set :: "'w sync_lib \<Rightarrow> namespace \<Rightarrow> dataMap \<Rightarrow> 'w sync \<Rightarrow> (unit result \<times> 'w sync) run" where
  "sync_set lib n m = sync_operation lib (Set n m ()) (\<lambda>_. ())"

definition sync_setIf :: "'w sync_lib \<Rightarrow> namespace \<Rightarrow> key \<Rightarrow> data \<Rightarrow> data \<Rightarrow> 'w sync \<Rightarrow> (bool result \<times> 'w sync) run" where
  "sync_setIf lib n k oldData newData = sync_operation lib (SetIf n k oldData newData ()) localStatus"

definition sync_setIfNotExists :: "'w sync_lib \<Rightarrow> namespace \<Rightarrow> key \<Rightarrow> data \<Rightarrow> 'w sync \<Rightarrow> (bool result \<times> 'w sync) run" where
  "sync_setIfNotExists lib n k d = sync_operation lib (SetIfNotExists n k d ()) localStatus"

definition sync_get :: "'w sync_lib \<Rightarrow> namespace \<Rightarrow> keys \<Rightarrow> 'w sync \<Rightarrow> (dataMap result \<times> 'w sync) run" where
  "sync_get lib n ks = sync_operation lib (Get n ks ()) localMap"

definition sync_remove :: "'w sync_lib \<Rightarrow> namespace \<Rightarrow> keys \<Rightarrow> 'w sync \<Rightarrow> (unit result \<times> 'w sync) run" where
  "sync_remove lib n ks = sync_operation lib (Remove n ks ()) (\<lambda>_. ())"

definition sync_removeIf :: "'w sync_lib \<Rightarrow> namespace \<Rightarrow> key \<Rightarrow> data \<Rightarrow> 'w sync \<Rightarrow> (bool result \<times> 'w sync) run" where
  "sync_removeIf lib n k d = sync_operation lib (RemoveIf n k d ()) localStatus"

definition sync_findKeys :: "'w sync_lib \<Rightarrow> namespace \<Rightarrow> string \<Rightarrow> 'w sync \<Rightarrow> (keys result \<times> 'w sync) run" where
  "sync_findKeys lib n p = sync_operation lib (FindKeys n p ()) localKeys"

definition sync_listKeys :: "'w sync_lib \<Rightarrow> namespace \<Rightarrow> string \<Rightarrow> 'w sync \<Rightarrow> (keys result \<times> 'w sync) run" where
  "sync_listKeys lib n p = sync_operation lib (ListKeys n p ()) localKeys"

definition sync_removeAll :: "'w sync_lib \<Rightarrow> namespace \<Rightarrow> 'w sync \<Rightarrow> (unit result \<times> 'w sync) run" where
  "sync_removeAll lib n = sync_operation lib (RemoveAll n ()) (\<lambda>_. ())"

definition setOperationTimeout :: "int \<Rightarrow> syncStorageImpl \<Rightarrow> syncStorageImpl" where
  "setOperationTimeout timeout s = s\<lparr>operationTimeout := timeout\<rparr>"


section \<open>Loops that return\<close>

text \<open>The storage delivers an acknowledgement: after finitely many polls, interrupted ones and ones
  without acknowledgements included, the event handling calls just this one.\<close>

inductive delivers :: "'w sync_lib \<Rightarrow> 'w \<Rightarrow> unit ack_call \<Rightarrow> 'w \<Rightarrow> bool" for lib where
  now: "system_poll lib NO_TIMEOUT w = Inr (ret, True, w1) \<Longrightarrow> 0 < ret \<Longrightarrow> as_handleEvents lib w1 = Inr ([a], w2) \<Longrightarrow>
    delivers lib w a w2"
| idle: "system_poll lib NO_TIMEOUT w = Inr (ret, pollin, w1) \<Longrightarrow> \<not> (0 < ret \<and> pollin) \<Longrightarrow> delivers lib w1 a w2 \<Longrightarrow>
    delivers lib w a w2"
| more: "system_poll lib NO_TIMEOUT w = Inr (ret, True, w1) \<Longrightarrow> 0 < ret \<Longrightarrow> as_handleEvents lib w1 = Inr ([], w2) \<Longrightarrow>
    delivers lib w2 a w3 \<Longrightarrow> delivers lib w a w3"

lemma ready_loop_delivers:
  assumes "delivers lib w (CallReady u ec) w'" "\<not> isReady s"
  shows "ready_loop lib (s, w) = Some (Inr (waitReadyAck ec s, w'))"
  using assms
proof (induction w "CallReady u ec" w' rule: delivers.induct)
  case (now w ret w1 w2)
  moreover have "ready_loop lib (waitReadyAck ec s, w2) = Some (Inr (waitReadyAck ec s, w2))"
    by (subst ready_loop.simps) (simp add: waitReadyAck_def)
  ultimately show ?case by (subst ready_loop.simps) (simp add: pollAndHandleEvents_def acked_def)
next
  case (idle w ret pollin w1 w2)
  then show ?case by (subst ready_loop.simps) (auto simp: pollAndHandleEvents_def)
next
  case (more w ret w1 w2 w3)
  then show ?case by (subst ready_loop.simps) (simp add: pollAndHandleEvents_def acked_def)
qed

lemma operation_ack_synced: "\<not> (\<exists>u ec. a = CallReady u ec) \<Longrightarrow> synced (sync_ack a s)"
  by (cases a) (simp_all add: modifyAck_def modifyIfAck_def getAck_def findKeysAck_def)

lemma waitForOperationCallback_delivers:
  assumes "delivers lib w a w'" "\<not> synced s" "\<not> (\<exists>u ec. a = CallReady u ec)"
  shows "waitForOperationCallback lib (s, w) = Some (Inr (sync_ack a s, w'))"
  using assms
proof (induction w a w' rule: delivers.induct)
  case (now w ret w1 a w2)
  have "waitForOperationCallback lib (sync_ack a s, w2) = Some (Inr (sync_ack a s, w2))"
    using operation_ack_synced [OF now.prems(2)] by (subst waitForOperationCallback.simps) simp
  with now show ?case by (subst waitForOperationCallback.simps) (simp add: pollAndHandleEvents_def acked_def)
next
  case (idle w ret pollin w1 a w2)
  then show ?case by (subst waitForOperationCallback.simps) (auto simp: pollAndHandleEvents_def)
next
  case (more w ret w1 w2 a w3)
  then show ?case by (subst waitForOperationCallback.simps) (simp add: pollAndHandleEvents_def acked_def)
qed

lemma handlePendingEvents_quiet:
  "system_poll lib 0 w = Inr (ret, pollin, w') \<Longrightarrow> \<not> (0 < ret \<and> pollin) \<Longrightarrow> handlePendingEvents lib (s, w) = Some (Inr (s, w'))"
  by (subst handlePendingEvents.simps) auto

text \<open>What the client sees of an acknowledgement.\<close>

datatype sync_value = Done | Status bool | Data dataMap | Found keys

fun ack_error :: "'u ack_call \<Rightarrow> error_code" where
  "ack_error (CallReady _ ec) = ec"
| "ack_error (CallModify _ ec) = ec"
| "ack_error (CallModifyIf _ ec _) = ec"
| "ack_error (CallGet _ ec _) = ec"
| "ack_error (CallFindKeys _ ec _) = ec"

fun ack_value :: "'u ack_call \<Rightarrow> sync_value" where
  "ack_value (CallModifyIf _ _ b) = Status b"
| "ack_value (CallGet _ _ m) = Data m"
| "ack_value (CallFindKeys _ _ ks) = Found ks"
| "ack_value _ = Done"

definition outcome :: "'w sync_lib \<Rightarrow> 'u ack_call \<Rightarrow> sync_value result" where
  "outcome lib a = (if ec_bool (ack_error a) then Inl (throwExceptionForErrorCode (sync_message lib) (ack_error a)) else Inr (ack_value a))"

definition as_value :: "('v \<Rightarrow> sync_value) \<Rightarrow> ('v result \<times> 'w sync) run \<Rightarrow> (sync_value result \<times> 'w sync) run" where
  "as_value f m = obind m (\<lambda>(v, sw). Some (Inr (rbind v (\<lambda>x. Inr (f x)), sw)))"

fun sync_request :: "'w sync_lib \<Rightarrow> unit request \<Rightarrow> 'w sync \<Rightarrow> (sync_value result \<times> 'w sync) run" where
  "sync_request lib (Set n m _) sw = as_value (\<lambda>_. Done) (sync_set lib n m sw)"
| "sync_request lib (SetIf n k old new _) sw = as_value Status (sync_setIf lib n k old new sw)"
| "sync_request lib (SetIfNotExists n k d _) sw = as_value Status (sync_setIfNotExists lib n k d sw)"
| "sync_request lib (Get n ks _) sw = as_value Data (sync_get lib n ks sw)"
| "sync_request lib (Remove n ks _) sw = as_value (\<lambda>_. Done) (sync_remove lib n ks sw)"
| "sync_request lib (RemoveIf n k d _) sw = as_value Status (sync_removeIf lib n k d sw)"
| "sync_request lib (FindKeys n p _) sw = as_value Found (sync_findKeys lib n p sw)"
| "sync_request lib (ListKeys n p _) sw = as_value Found (sync_listKeys lib n p sw)"
| "sync_request lib (RemoveAll n _) sw = as_value (\<lambda>_. Done) (sync_removeAll lib n sw)"

text \<open>The acknowledgement has the shape the operation asks for.\<close>

fun ack_fits :: "'u request \<Rightarrow> 'u ack_call \<Rightarrow> bool" where
  "ack_fits (Set n m a) c = (\<exists>ec. c = CallModify a ec)"
| "ack_fits (SetIf n k old new a) c = (\<exists>ec b. c = CallModifyIf a ec b)"
| "ack_fits (SetIfNotExists n k d a) c = (\<exists>ec b. c = CallModifyIf a ec b)"
| "ack_fits (Get n ks a) c = (\<exists>ec m. c = CallGet a ec m)"
| "ack_fits (Remove n ks a) c = (\<exists>ec. c = CallModify a ec)"
| "ack_fits (RemoveIf n k d a) c = (\<exists>ec b. c = CallModifyIf a ec b)"
| "ack_fits (FindKeys n p a) c = (\<exists>ec ks. c = CallFindKeys a ec ks)"
| "ack_fits (ListKeys n p a) c = (\<exists>ec ks. c = CallFindKeys a ec ks)"
| "ack_fits (RemoveAll n a) c = (\<exists>ec. c = CallModify a ec)"

lemma refused_fits: "ack_fits r (refused r ec)"
  by (cases r) auto

lemma spec1_fits: "ack_fits r (fst (spec1 glob r A))"
  by (cases r) auto

lemma ack_fits_operation: "ack_fits r a \<Longrightarrow> \<not> (\<exists>u ec. a = CallReady u ec)"
  by (cases r) auto

lemmas sync_operation_defs = sync_set_def sync_setIf_def sync_setIfNotExists_def sync_get_def sync_remove_def
  sync_removeIf_def sync_findKeys_def sync_listKeys_def sync_removeAll_def

lemmas sync_ack_defs = waitReadyAck_def modifyAck_def modifyIfAck_def getAck_def findKeysAck_def

text \<open>An operation of the client returns: its events are drained, the storage becomes ready and the
  acknowledgement is delivered.\<close>

definition after_ack :: "unit ack_call \<Rightarrow> error_code \<Rightarrow> syncStorageImpl \<Rightarrow> syncStorageImpl" where
  "after_ack a ec s = sync_ack a ((waitReadyAck ec (s\<lparr>isReady := False\<rparr>))\<lparr>synced := False\<rparr>)"

text \<open>The timeouts with which the wait for readiness cannot end before it has looked for events once:
  none, or at least one millisecond.\<close>

definition waits :: "int \<Rightarrow> bool" where
  "waits timeout \<longleftrightarrow> timeout = 0 \<or> 1000000 \<le> timeout"

definition becomes_ready :: "'w sync_lib \<Rightarrow> int \<Rightarrow> 'w \<Rightarrow> 'w \<Rightarrow> bool" where
  "becomes_ready lib timeout w w' \<longleftrightarrow>
     (\<forall>s. \<not> isReady s \<longrightarrow> waitForReadinessCheckCallback lib timeout (s, w) = Some (Inr (waitReadyAck no_error s, w')))"

lemma becomes_ready_untimed: "delivers lib w (CallReady () no_error) w' \<Longrightarrow> becomes_ready lib 0 w w'"
  by (simp add: becomes_ready_def waitForReadinessCheckCallback_def ready_loop_delivers)

lemma becomes_ready_timed:
  assumes "timeout \<noteq> 0" "steady_now lib w = (t1, w1)" "steady_now lib w1 = (t2, w2)" "t2 - t1 < truncated_div timeout 1000000 * 1000000"
    "\<And>t. system_poll lib t w2 = Inr (ret, True, w3)" "0 < ret" "as_handleEvents lib w3 = Inr ([CallReady () no_error], w')"
  shows "becomes_ready lib timeout w w'"
proof -
  have "timed_ready_loop lib t1 (truncated_div timeout 1000000) pt (waitReadyAck no_error s, w') = Some (Inr (waitReadyAck no_error s, w'))" for pt s
    by (subst timed_ready_loop.simps) (simp add: waitReadyAck_def)
  then have "timed_ready_loop lib t1 (truncated_div timeout 1000000) pt (s, w1) = Some (Inr (waitReadyAck no_error s, w'))"
    if "\<not> isReady s" for pt s
    using that assms(3-7) by (subst timed_ready_loop.simps) (simp add: pollAndHandleEvents_def acked_def)
  then show ?thesis using assms(1,2) by (simp add: becomes_ready_def waitForReadinessCheckCallback_def)
qed

definition answered_by :: "'w sync_lib \<Rightarrow> int \<Rightarrow> unit request \<Rightarrow> unit ack_call \<Rightarrow> 'w \<Rightarrow> 'w \<Rightarrow> bool" where
  "answered_by lib timeout r a w w' \<longleftrightarrow> (\<exists>pollin w1 w2 w3 w4. system_poll lib 0 w = Inr (0, pollin, w1) \<and>
     as_waitReadyAsync lib (request_ns r) w1 = Inr ([], w2) \<and> becomes_ready lib timeout w2 w3 \<and>
     as_perform lib r w3 = Inr ([], w4) \<and> delivers lib w4 a w')"

lemma sync_operation_returns:
  assumes "answered_by lib (operationTimeout s) r a w w'" "ack_fits r a"
  shows "sync_operation lib r res (s, w) = Some (Inr (rbind (verifyBackendResponse lib (after_ack a no_error s))
    (\<lambda>_. Inr (res (after_ack a no_error s))), (after_ack a no_error s, w')))"
proof -
  obtain pollin w1 w2 w3 w4 where w: "system_poll lib 0 w = Inr (0, pollin, w1)"
    "as_waitReadyAsync lib (request_ns r) w1 = Inr ([], w2)" "becomes_ready lib (operationTimeout s) w2 w3"
    "as_perform lib r w3 = Inr ([], w4)" "delivers lib w4 a w'" using assms(1) unfolding answered_by_def by blast
  let ?s = "(waitReadyAck no_error (s\<lparr>isReady := False\<rparr>))\<lparr>synced := False\<rparr>"
  have "waitForOperationCallback lib (?s, w4) = Some (Inr (sync_ack a ?s, w'))"
    using w(5) ack_fits_operation [OF assms(2)] by (intro waitForOperationCallback_delivers) simp_all
  moreover have "handlePendingEvents lib (s, w) = Some (Inr (s, w1))"
    using w(1) by (rule handlePendingEvents_quiet) simp
  ultimately show ?thesis using w(2-4)
    by (simp add: sync_operation_def waitSdlToBeReady_def waitSdlToBeReady_timeout_def acked_def becomes_ready_def after_ack_def)
qed

lemma sync_request_returns:
  assumes "answered_by lib (operationTimeout s) r a w w'" "ack_fits r a"
  shows "sync_request lib r (s, w) = Some (Inr (outcome lib a, (after_ack a no_error s, w')))"
  using assms(2) sync_operation_returns [OF assms, of "\<lambda>_. ()"] sync_operation_returns [OF assms, of localStatus]
    sync_operation_returns [OF assms, of localMap] sync_operation_returns [OF assms, of localKeys]
  by (cases r) (auto simp: sync_operation_defs as_value_def outcome_def verifyBackendResponse_def after_ack_def sync_ack_defs)

lemma after_ack_timeout [simp]: "operationTimeout (after_ack a ec s) = operationTimeout s"
  by (cases a) (simp_all add: after_ack_def sync_ack_defs)

section \<open>A storage service\<close>

text \<open>The specification of the blocking operations: invalid namespaces and operations without keys
  are answered without the database.\<close>

definition sync_spec1 :: "(string \<Rightarrow> string \<Rightarrow> bool) \<Rightarrow> 'u request \<Rightarrow> kv_maps \<Rightarrow> 'u ack_call \<times> kv_maps" where
  "sync_spec1 glob r A =
     (if \<not> isValidNamespace (request_ns r) then (refused r (make_error_code_storage SEC_INVALID_NAMESPACE), A)
      else if no_keys_given r then (refused r no_error, A) else spec1 glob r A)"

fun sync_spec :: "(string \<Rightarrow> string \<Rightarrow> bool) \<Rightarrow> 'u request list \<Rightarrow> kv_maps \<Rightarrow> 'u ack_call list \<times> kv_maps" where
  "sync_spec glob [] A = ([], A)"
| "sync_spec glob (r # rs) A = (let (c, A') = sync_spec1 glob r A; (cs, A'') = sync_spec glob rs A' in (c # cs, A''))"

lemma sync_spec1_fits: "ack_fits r (fst (sync_spec1 glob r A))"
  by (simp add: sync_spec1_def refused_fits spec1_fits)

fun sync_run :: "'w sync_lib \<Rightarrow> unit request list \<Rightarrow> 'w sync \<Rightarrow> (sync_value result list \<times> 'w sync) run" where
  "sync_run lib [] sw = Some (Inr ([], sw))"
| "sync_run lib (r # rs) sw =
     obind (sync_request lib r sw) (\<lambda>(v, sw). obind (sync_run lib rs sw) (\<lambda>(vs, sw). Some (Inr (v # vs, sw))))"

text \<open>What the blocking interface relies on: an \<open>ok\<close> world has no pending events, becomes ready for a
  namespace in which requests may be made, and answers such a request as the specification says.\<close>

locale storage_service =
  fixes lib :: "'w sync_lib" and ok :: "'w \<Rightarrow> bool" and view :: "'w \<Rightarrow> kv_maps"
    and glob :: "string \<Rightarrow> string \<Rightarrow> bool" and allowed :: "'w \<Rightarrow> unit request \<Rightarrow> bool"
  assumes drained: "ok w \<Longrightarrow> \<exists>pollin w'. system_poll lib 0 w = Inr (0, pollin, w') \<and> ok w' \<and> view w' = view w \<and> allowed w' = allowed w"
    and ready: "ok w \<Longrightarrow> allowed w r \<Longrightarrow> waits timeout \<Longrightarrow>
      \<exists>w1 w'. as_waitReadyAsync lib (request_ns r) w = Inr ([], w1) \<and> becomes_ready lib timeout w1 w' \<and>
        ok w' \<and> view w' = view w \<and> allowed w' = allowed w"
    and answers: "ok w \<Longrightarrow> allowed w r \<Longrightarrow>
      \<exists>w1 w'. as_perform lib r w = Inr ([], w1) \<and> delivers lib w1 (fst (sync_spec1 glob r (view w))) w' \<and>
        ok w' \<and> view w' = snd (sync_spec1 glob r (view w)) \<and> allowed w' = allowed w"
begin

lemma request_answered:
  assumes "ok w" "allowed w r" "waits timeout"
  shows "\<exists>w'. answered_by lib timeout r (fst (sync_spec1 glob r (view w))) w w' \<and> ok w' \<and> view w' = snd (sync_spec1 glob r (view w)) \<and>
    allowed w' = allowed w"
proof -
  obtain pollin w1 where w1: "system_poll lib 0 w = Inr (0, pollin, w1)" "ok w1" "view w1 = view w" "allowed w1 = allowed w"
    using drained [OF assms(1)] by blast
  then obtain w2 w3 where w3: "as_waitReadyAsync lib (request_ns r) w1 = Inr ([], w2)" "becomes_ready lib timeout w2 w3"
    "ok w3" "view w3 = view w" "allowed w3 = allowed w" using ready [of w1 r timeout] assms(2,3) by auto
  then show ?thesis using answers [of w3 r] w1(1) assms(2) unfolding answered_by_def by metis
qed

lemma request_returns:
  assumes "ok w" "allowed w r" "waits (operationTimeout s)"
  shows "\<exists>s' w'. sync_request lib r (s, w) = Some (Inr (outcome lib (fst (sync_spec1 glob r (view w))), (s', w'))) \<and>
    operationTimeout s' = operationTimeout s \<and> ok w' \<and> view w' = snd (sync_spec1 glob r (view w)) \<and> allowed w' = allowed w"
  using request_answered [OF assms] sync_request_returns [OF _ sync_spec1_fits] by (metis after_ack_timeout)

lemma waitReady_returns:
  assumes "ok w" "allowed w r" "waits timeout"
  shows "\<exists>s' w'. waitReady lib (request_ns r) timeout (s, w) = Some (Inr (Inr (), (s', w'))) \<and>
    operationTimeout s' = operationTimeout s \<and> ok w' \<and> view w' = view w \<and> allowed w' = allowed w"
proof -
  obtain w1 w2 where w2: "as_waitReadyAsync lib (request_ns r) w = Inr ([], w1)" "becomes_ready lib timeout w1 w2"
    "ok w2" "view w2 = view w" "allowed w2 = allowed w" using ready [OF assms] by blast
  then show ?thesis
    by (simp add: waitReady_def waitSdlToBeReady_timeout_def acked_def becomes_ready_def verifyBackendResponse_def waitReadyAck_def
        ec_bool_def no_error_def)
qed

lemma run_refines:
  assumes "ok w" "\<And>r. r \<in> set rs \<Longrightarrow> allowed w r" "waits (operationTimeout s)"
  shows "\<exists>s' w'. sync_run lib rs (s, w) = Some (Inr (map (outcome lib) (fst (sync_spec glob rs (view w))), (s', w'))) \<and>
    ok w' \<and> view w' = snd (sync_spec glob rs (view w))"
  using assms
proof (induction rs arbitrary: s w)
  case (Cons r rs)
  obtain s1 w1 where w1: "sync_request lib r (s, w) = Some (Inr (outcome lib (fst (sync_spec1 glob r (view w))), (s1, w1)))"
    "operationTimeout s1 = operationTimeout s" "ok w1" "view w1 = snd (sync_spec1 glob r (view w))" "allowed w1 = allowed w"
    using request_returns [OF Cons.prems(1), of r s] Cons.prems(2,3) by auto
  obtain s' w' where "sync_run lib rs (s1, w1) =
      Some (Inr (map (outcome lib) (fst (sync_spec glob rs (view w1))), (s', w')))" "ok w'" "view w' = snd (sync_spec glob rs (view w1))"
    using Cons.IH [OF w1(3)] Cons.prems w1(2,5) by (metis list.set_intros(2))
  then show ?case using w1(1,4) by (simp add: split_beta Let_def)
qed simp

end


section \<open>How one storage answers\<close>

abbreviation waiting :: "('u, 'u cmds, 'x) redisStorage \<Rightarrow> bool" where
  "waiting s \<equiv> rs_dispatcher s \<noteq> None \<and> rs_dispatcher s \<noteq> Some []"

text \<open>A request either gives its acknowledgement to the engine at once or sends one command.\<close>

lemma notified_sends:
  "dispatch_notified recorder cb n c c' (e, s) = Inr (e1, s1) \<Longrightarrow> rs_dispatcher s = Some [] \<Longrightarrow>
    \<exists>confs m. e1 = e\<lparr>ns_confs := confs\<rparr> \<and> s1 = s\<lparr>rs_dispatcher := Some [Command cb n m]\<rparr>"
  by (auto simp: dispatch_notified_def recorder_dispatch rbind_Inr_iff)

lemma command_sends:
  "dispatch_command recorder cb n c (e, s) = Inr (e1, s1) \<Longrightarrow> rs_dispatcher s = Some [] \<Longrightarrow>
    e1 = e \<and> s1 = s\<lparr>rs_dispatcher := Some [Command cb n c]\<rparr>"
  by (auto simp: recorder_dispatch)

lemma perform_sends:
  assumes "perform recorder r (e, s) = Inr (e1, s1)" "rs_dispatcher s = Some []"
  shows "(\<exists>a. e1 = post_ack a e \<and> s1 = s) \<or>
    (posted e1 = posted e \<and> called e1 = called e \<and> (\<exists>cb n c. s1 = s\<lparr>rs_dispatcher := Some [Command cb n c]\<rparr>))"
  using assms by (cases r) (auto simp: operation_defs split: prod.splits if_splits dest!: notified_sends command_sends)

lemma remove_sends:
  assumes "removeAsync recorder n ks u (e, s) = Inr (e1, s1)" "rs_dispatcher s = Some []"
  shows "(\<exists>a. e1 = post_ack a e \<and> s1 = s) \<or> (posted e1 = posted e \<and> called e1 = called e \<and> waiting s1)"
  using perform_sends [of "Remove n ks u" e s e1 s1] assms by auto

text \<open>A reply either calls one acknowledgement, or, for \<open>removeAllAsync\<close>, starts the removal.\<close>

lemma reply_calls:
  assumes "storage_reply recorder cb ec rep (e, s) = Inr (e1, s1)" "rs_dispatcher s = Some []"
  shows "(\<exists>a. e1 = call_ack a e \<and> s1 = s) \<or> (\<exists>a. e1 = post_ack a e \<and> s1 = s) \<or>
    (posted e1 = posted e \<and> called e1 = called e \<and> waiting s1)"
  using assms(1)
  by (cases cb) (auto simp: modificationCommandCallback_def conditionalCommandCallback_def getCallback_def findKeysCallback_def
      removeAllCallback_def rbind_Inr_iff split: if_splits dest!: remove_sends [OF _ assms(2)])

lemma serve1_calls:
  assumes "serve1 redis ((e, s\<lparr>rs_dispatcher := Some [Command cb n c]\<rparr>), db) = Inr ((e1, s1), db1)"
  shows "(\<exists>a. e1 = call_ack a e \<and> rs_dispatcher s1 = Some []) \<or> (\<exists>a. e1 = post_ack a e \<and> rs_dispatcher s1 = Some []) \<or>
    (posted e1 = posted e \<and> called e1 = called e \<and> waiting s1)"
  using assms reply_calls [of cb _ _ e "s\<lparr>rs_dispatcher := Some []\<rparr>" e1 s1]
  by (fastforce simp: serve1_def rbind_Inr_iff split_beta Let_def)

text \<open>A valid request is acknowledged by the first or the second reply.\<close>

definition finished :: "(string \<Rightarrow> string \<Rightarrow> bool) \<Rightarrow> unit request \<Rightarrow> store \<Rightarrow> (unit, 'x) world \<Rightarrow> bool" where
  "finished glob r db = (\<lambda>((e', s'), db'). world_ok ((e', s'), db') \<and> posted e' = [] \<and>
     called e' = [fst (spec1 glob r (sdl_view db))] \<and> sdl_view db' = snd (spec1 glob r (sdl_view db)))"

lemma request_steps:
  assumes "glob_ok glob" "redis_ok glob redis" "world_ok ((e, s), db)" "request_ok r" "posted e = []" "called e = []"
  obtains e1 s1 v2 where "perform recorder r (e, s) = Inr (e1, s1)" "posted e1 = []" "called e1 = []" "waiting s1"
    "serve1 redis ((e1, s1), db) = Inr v2" "finished glob r db v2 \<or>
      posted (fst (fst v2)) = [] \<and> called (fst (fst v2)) = [] \<and> waiting (snd (fst v2)) \<and>
      (\<exists>v3. serve1 redis v2 = Inr v3 \<and> finished glob r db v3)"
proof -
  obtain v3 where run: "run1 redis r ((e, s), db) = Inr v3" and fin: "finished glob r db v3"
    using request_refines [OF assms(1-4)] assms(5,6) unfolding refines1_def finished_def by auto
  then obtain e1 s1 e2 s2 db2 where steps: "perform recorder r (e, s) = Inr (e1, s1)"
    "serve1 redis ((e1, s1), db) = Inr ((e2, s2), db2)" "serve1 redis ((e2, s2), db2) = Inr v3"
    by (auto simp: run1_def rbind_Inr_iff)
  note idle = world_okD(2) [OF assms(3)]
  have acked: "called (fst (fst v3)) \<noteq> []" "posted (fst (fst v3)) = []" using fin by (auto simp: finished_def)
  have sent: "posted e1 = []" "called e1 = []" and "\<exists>cb n c. s1 = s\<lparr>rs_dispatcher := Some [Command cb n c]\<rparr>"
    using perform_sends [OF steps(1) idle] steps(2,3) acked assms(5,6) idle
    by (auto simp: post_ack_def serve1_idle)
  then obtain cb n c where s1: "s1 = s\<lparr>rs_dispatcher := Some [Command cb n c]\<rparr>" by blast
  have "(\<exists>a. e2 = call_ack a e1 \<and> rs_dispatcher s2 = Some []) \<or> (posted e2 = [] \<and> called e2 = [] \<and> waiting s2)"
    using serve1_calls [OF steps(2) [unfolded s1]] steps(3) acked sent by (auto simp: post_ack_def serve1_idle)
  then have "finished glob r db ((e2, s2), db2) \<or> posted e2 = [] \<and> called e2 = [] \<and> waiting s2 \<and>
    (\<exists>v3. serve1 redis ((e2, s2), db2) = Inr v3 \<and> finished glob r db v3)"
    using fin steps(3) by (auto simp: serve1_idle)
  then show thesis using that [OF steps(1) sent _ steps(2)] s1 by simp
qed


section \<open>The library's own storage as a service\<close>

text \<open>The asynchronous storage with its databases and a clock. The descriptor is readable when a
  callback or an answer is pending; handling the events runs the callbacks given to the engine
  and lets every database answer one command. The acknowledgements called are taken from the
  environment's record.\<close>

type_synonym 'x service_world = "(unit, 'x) servers \<times> int"

definition busy :: "(unit, unit cmds, 'x) impl_state \<Rightarrow> bool" where
  "busy st \<longleftrightarrow> posted (ai_env st) \<noteq> [] \<or> list_ex waiting (asyncStorages st)"

definition quiet_env :: "'u env \<Rightarrow> 'u env" where
  "quiet_env e = e\<lparr>posted := [], called := []\<rparr>"

definition engine_turn :: "redis \<Rightarrow> (unit, 'x) servers \<Rightarrow> (unit ack_call list \<times> (unit, 'x) servers) result" where
  "engine_turn redis = (\<lambda>(st, dbs).
     rbind (serve_all redis (st\<lparr>ai_env := quiet_env (ai_env st)\<rparr>, dbs)) (\<lambda>(st', dbs').
       Inr (posted (ai_env st) @ called (ai_env st'), (st'\<lparr>ai_env := (ai_env st')\<lparr>called := []\<rparr>\<rparr>, dbs'))))"

definition service_lib :: "(unit, unit cmds, 'x) impl_lib \<Rightarrow> redis \<Rightarrow> std_messages \<Rightarrow> 'x service_world sync_lib" where
  "service_lib lib redis msgs = \<lparr>
     raw_poll = \<lambda>timeout (w, clock). (if busy (fst w) then (1, True, 0) else (0, False, 0), (w, clock + 1)),
     steady_now = \<lambda>(w, clock). (clock, (w, clock + 1)),
     as_handleEvents = \<lambda>(w, clock). rbind (engine_turn redis w) (\<lambda>(acks, w'). Inr (acks, (w', clock))),
     as_waitReadyAsync = \<lambda>n ((st, dbs), clock). rbind (impl_waitReadyAsync lib n () st) (\<lambda>st'. Inr ([], ((st', dbs), clock))),
     as_perform = \<lambda>r ((st, dbs), clock). rbind (impl_perform lib r st) (\<lambda>st'. Inr ([], ((st', dbs), clock))),
     sync_message = msgs\<rparr>"

definition service_ok ::
  "(unit, unit cmds, 'x) impl_lib \<Rightarrow> redis \<Rightarrow> (string \<Rightarrow> string \<Rightarrow> bool) \<Rightarrow> 'x service_world \<Rightarrow> bool" where
  "service_ok lib redis glob = (\<lambda>((st, dbs), clock). glob_ok glob \<and> redis_ok glob redis \<and> HAVE_REDIS lib \<and>
     storage_ops lib = recorder \<and> servers_ok (st, dbs) \<and> posted (ai_env st) = [] \<and> called (ai_env st) = [])"

definition service_view :: "(unit, unit cmds, 'x) impl_lib \<Rightarrow> 'x service_world \<Rightarrow> kv_maps" where
  "service_view lib = (\<lambda>((st, dbs), clock). servers_view lib (databaseConfiguration st) dbs)"

definition service_allowed :: "'x service_world \<Rightarrow> unit request \<Rightarrow> bool" where
  "service_allowed = (\<lambda>((st, dbs), clock) r. backend_used st (request_ns r) \<and>
     (isValidNamespace (request_ns r) \<longrightarrow> \<not> no_keys_given r \<longrightarrow> request_ok r))"

lemma service_polls:
  "busy (fst w) \<Longrightarrow> system_poll (service_lib lib redis msgs) t (w, clock) = Inr (1, True, (w, clock + 1))"
  "\<not> busy (fst w) \<Longrightarrow> system_poll (service_lib lib redis msgs) t (w, clock) = Inr (0, False, (w, clock + 1))"
  by (simp_all add: system_poll_def service_lib_def)

lemma quiet_env_id: "posted e = [] \<Longrightarrow> called e = [] \<Longrightarrow> quiet_env e = e"
  by (simp add: quiet_env_def)

text \<open>A turn of the engine in which one storage may have something to do.\<close>

lemma turn_with_server:
  assumes "\<And>v. serve_all redis (with_server i w v) = rbind (serve1 redis v) (\<lambda>v'. Inr (with_server i w v'))"
    "serve1 redis ((quiet_env e, s), db) = Inr ((e', s'), db')"
  shows "as_handleEvents (service_lib lib redis msgs) (with_server i w ((e, s), db), clock) =
    Inr (posted e @ called e', (with_server i w ((e'\<lparr>called := []\<rparr>, s'), db'), clock))"
proof -
  obtain st dbs where w: "w = (st, dbs)" by (cases w)
  have "serve_all redis (st\<lparr>ai_env := quiet_env e, asyncStorages := (asyncStorages st)[i := s]\<rparr>, dbs[i := db]) =
    Inr (st\<lparr>ai_env := e', asyncStorages := (asyncStorages st)[i := s']\<rparr>, dbs[i := db'])"
    using assms(1) [of "((quiet_env e, s), db)"] assms(2) by (simp add: w with_server_def)
  then show ?thesis by (cases st) (simp add: service_lib_def engine_turn_def w with_server_def)
qed

lemma busy_with_server: "i < length (asyncStorages (fst w)) \<Longrightarrow> waiting s \<or> posted e \<noteq> [] \<Longrightarrow> busy (fst (with_server i w ((e, s), db)))"
  by (auto simp: busy_def list_ex_iff set_update_memI)

text \<open>One turn delivers what it calls.\<close>

lemma turn_delivers:
  assumes "\<And>v. serve_all redis (with_server i w v) = rbind (serve1 redis v) (\<lambda>v'. Inr (with_server i w v'))"
    "i < length (asyncStorages (fst w))" "waiting s \<or> posted e \<noteq> []"
    "serve1 redis ((quiet_env e, s), db) = Inr ((e', s'), db')" "posted e @ called e' = [a]"
  shows "delivers (service_lib lib redis msgs) (with_server i w ((e, s), db), clock) a (with_server i w ((e'\<lparr>called := []\<rparr>, s'), db'), clock + 1)"
  using service_polls(1) [OF busy_with_server [OF assms(2,3)], where t = NO_TIMEOUT] turn_with_server [OF assms(1,4)] assms(5)
  by (intro delivers.now [where ret = 1]) auto

lemma turns_deliver:
  assumes served: "\<And>redis v. serve_all redis (with_server i w v) = rbind (serve1 redis v) (\<lambda>v'. Inr (with_server i w v'))"
    and less: "i < length (asyncStorages (fst w))" and 1: "posted e1 = []" "called e1 = []" "waiting s1"
    and 2: "serve1 redis ((e1, s1), db) = Inr v2"
    and 3: "finished glob r db v2 \<or> posted (fst (fst v2)) = [] \<and> called (fst (fst v2)) = [] \<and> waiting (snd (fst v2)) \<and>
      (\<exists>v3. serve1 redis v2 = Inr v3 \<and> finished glob r db v3)"
  shows "\<exists>e' s' db' clock'. finished glob r db ((e', s'), db') \<and> same_policy e1 e' \<and>
    delivers (service_lib lib redis msgs) (with_server i w ((e1, s1), db), clock) (hd (called e'))
      (with_server i w ((e'\<lparr>called := []\<rparr>, s'), db'), clock')"
proof -
  obtain e2 s2 db2 where v2: "v2 = ((e2, s2), db2)" by (cases v2) auto
  have quiet: "quiet_env e1 = e1" using 1(1,2) by (rule quiet_env_id)
  have pol: "same_policy e1 e2" using serve1_policy 2 unfolding v2 by blast
  show ?thesis
  proof (cases "finished glob r db v2")
    case True
    then have "delivers (service_lib lib redis msgs) (with_server i w ((e1, s1), db), clock) (hd (called e2))
      (with_server i w ((e2\<lparr>called := []\<rparr>, s2), db2), clock + 1)"
      using 1 2 less quiet by (intro turn_delivers [OF served]) (simp_all add: v2 finished_def)
    with True pol show ?thesis unfolding v2 by blast
  next
    case False
    then obtain e3 s3 db3 where v3: "serve1 redis ((e2, s2), db2) = Inr ((e3, s3), db3)" "finished glob r db ((e3, s3), db3)"
      and e2: "posted e2 = []" "called e2 = []" "waiting s2" using 3 by (auto simp: v2)
    have q2: "e2\<lparr>called := []\<rparr> = e2" "quiet_env e2 = e2" using e2(1,2) by (simp_all add: quiet_env_id)
    have later: "delivers (service_lib lib redis msgs) (with_server i w ((e2, s2), db2), clock + 1) (hd (called e3))
      (with_server i w ((e3\<lparr>called := []\<rparr>, s3), db3), clock + 1 + 1)"
      using less e2 v3 q2 by (intro turn_delivers [OF served]) (simp_all add: finished_def)
    have poll: "system_poll (service_lib lib redis msgs) NO_TIMEOUT (with_server i w ((e1, s1), db), clock) =
      Inr (1, True, (with_server i w ((e1, s1), db), clock + 1))"
      using less 1(3) by (intro service_polls(1) busy_with_server) simp_all
    have "as_handleEvents (service_lib lib redis msgs) (with_server i w ((e1, s1), db), clock + 1) =
      Inr ([], (with_server i w ((e2, s2), db2), clock + 1))"
      using turn_with_server [OF served, of redis e1 s1 db e2 s2 db2] 1(1) 2 quiet e2(2) q2 by (simp add: v2)
    then have "delivers (service_lib lib redis msgs) (with_server i w ((e1, s1), db), clock) (hd (called e3))
      (with_server i w ((e3\<lparr>called := []\<rparr>, s3), db3), clock + 1 + 1)"
      by (rule delivers.more [OF poll zero_less_one _ later])
    then show ?thesis using v3(2) same_policy_trans [OF pol serve1_policy [OF v3(1)]] by blast
  qed
qed

lemma service_okD:
  assumes "service_ok lib redis glob ((st, dbs), clock)"
  shows "glob_ok glob" "redis_ok glob redis" "HAVE_REDIS lib" "storage_ops lib = recorder" "servers_ok (st, dbs)"
    "posted (ai_env st) = []" "called (ai_env st) = []"
  using assms by (simp_all add: service_ok_def)

lemma not_busy: "service_ok lib redis glob ((st, dbs), clock) \<Longrightarrow> \<not> busy st"
  using servers_okD [of st dbs] service_okD [of lib redis glob st dbs clock]
  by (auto simp: busy_def list_ex_iff in_set_conv_nth)

text \<open>What has to hold of the changed storage for the service to be in order again.\<close>

lemma service_ok_with_server:
  assumes "service_ok lib redis glob ((st, dbs), clock)" "world_ok ((e, s), db)" "i < length dbs" "posted e = []" "called e = []"
    "nc_policy (ns_confs e) = nc_policy (ns_confs (ai_env st))"
  shows "service_ok lib redis glob (with_server i (st, dbs) ((e, s), db), clock')"
    "service_allowed (with_server i (st, dbs) ((e, s), db), clock') = service_allowed ((st, dbs), clock)"
  using servers_ok_with_server [OF service_okD(5) [OF assms(1)] assms(2,3)] service_okD [OF assms(1)] assms(4-)
  by (simp_all add: service_ok_def service_allowed_def backend_used_def with_server_def fun_eq_iff)

lemma service_view_with_server:
  "service_view lib (with_server i (st, dbs) ((e, s), db), clock) = servers_view lib (databaseConfiguration st) (dbs[i := db])"
  by (simp add: service_view_def with_server_def)

text \<open>The storage becomes ready: it is connected, so the engine calls the acknowledgement in one turn.\<close>

lemma one_turn_ready:
  fixes L :: "('w \<times> int) sync_lib"
  assumes clock: "\<And>v t. steady_now L (v, t) = (t, (v, t + 1))" and poll: "\<And>pt t. system_poll L pt (v, t) = Inr (1, True, (v, t + 1))"
    and turn: "\<And>t. as_handleEvents L (v, t) = Inr ([CallReady () no_error], (v', t))" and "waits timeout"
  shows "\<exists>clock'. becomes_ready L timeout (v, clock) (v', clock')"
proof (cases "timeout = 0")
  case True
  have "delivers L (v, clock) (CallReady () no_error) (v', clock + 1)"
    by (rule delivers.now [OF poll zero_less_one turn])
  then show ?thesis unfolding True by (intro exI becomes_ready_untimed)
next
  case False
  then have "1 \<le> timeout div 1000000" "0 < timeout" using assms(4) by (auto simp: waits_def)
  then have "clock + 1 - clock < truncated_div timeout 1000000 * 1000000" by (simp add: truncated_div_def)
  then show ?thesis using becomes_ready_timed [OF False clock clock _ poll zero_less_one turn] by blast
qed

lemma service_ready_turn:
  assumes ok: "service_ok lib redis glob ((st, dbs), clock)" and used: "backend_used st n"
  obtains v v' where "as_waitReadyAsync (service_lib lib redis msgs) n ((st, dbs), clock) = Inr ([], (v, clock))" "busy (fst v)"
    "\<And>t. as_handleEvents (service_lib lib redis msgs) (v, t) = Inr ([CallReady () no_error], (v', t))"
    "\<And>t. service_ok lib redis glob (v', t)" "\<And>t. service_view lib (v', t) = service_view lib ((st, dbs), clock)"
    "\<And>t. service_allowed (v', t) = service_allowed ((st, dbs), clock)"
proof -
  note okD = service_okD [OF ok]
  define i where "i = server_of lib (databaseConfiguration st) n"
  let ?s = "asyncStorages st ! i"
  let ?w = "((?s\<lparr>rs_dispatcher := Some [WaitConnected (CallReadyAck ())]\<rparr>))"
  show thesis
  proof (rule impl_server [OF okD(3-5) used i_def])
    fix confs
    let ?e = "(ai_env st)\<lparr>ns_confs := confs\<rparr>"
    let ?e' = "call_ack (CallReady () no_error) ?e"
    assume confs: "nc_inv confs" "nc_policy confs = nc_policy (ns_confs (ai_env st))" "i < length dbs"
      and perf: "\<And>op dummy. on_handler lib n op dummy st = rbind (op (?e, ?s)) (\<lambda>es. Inr (fst (with_server i (st, dbs) (es, dbs ! i))))"
      and served: "\<And>redis v. serve_all redis (with_server i (st, dbs) v) = rbind (serve1 redis v) (\<lambda>v'. Inr (with_server i (st, dbs) v'))"
    note inv = servers_okD [OF okD(5)]
    have idle: "rs_dispatcher ?s = Some []" using inv(7) [OF confs(3)] by simp
    have "world_ok ((?e, ?s), dbs ! i)" using inv(5) [OF confs(3)] confs(1) by (simp add: world_ok_def)
    note after = service_ok_with_server [OF ok this confs(3)]
    have e: "quiet_env ?e = ?e" "?e'\<lparr>called := []\<rparr> = ?e" using okD(6,7) by (simp_all add: quiet_env_id call_ack_def)
    have "serve1 redis ((quiet_env ?e, ?w), dbs ! i) = Inr ((?e', ?s), dbs ! i)"
      using idle by (simp add: e(1) serve1_def connected_callback_def)
    from turn_with_server [OF served this, of lib msgs]
    have "as_handleEvents (service_lib lib redis msgs) (with_server i (st, dbs) ((?e, ?w), dbs ! i), t) =
      Inr (posted ?e @ called ?e', (with_server i (st, dbs) ((?e, ?s), dbs ! i), t))" for t unfolding e(2) .
    moreover have "posted ?e @ called ?e' = [CallReady () no_error]" using okD(6,7) by (simp add: call_ack_def)
    ultimately have turn: "as_handleEvents (service_lib lib redis msgs) (with_server i (st, dbs) ((?e, ?w), dbs ! i), t) =
      Inr ([CallReady () no_error], (with_server i (st, dbs) ((?e, ?s), dbs ! i), t))" for t by simp
    show thesis
    proof (rule that [OF _ _ turn])
      show "as_waitReadyAsync (service_lib lib redis msgs) n ((st, dbs), clock) =
        Inr ([], (with_server i (st, dbs) ((?e, ?w), dbs ! i), clock))"
        using idle okD(4) by (simp add: service_lib_def impl_waitReadyAsync_def perf waitReadyAsync_def recorder_def with_server_def)
      show "busy (fst (with_server i (st, dbs) ((?e, ?w), dbs ! i)))" using confs(3) inv(3) by (intro busy_with_server) simp_all
    qed (use after okD(6,7) confs(2) in \<open>simp_all add: service_view_with_server, simp add: service_view_def\<close>)
  qed
qed

lemma service_clock: "steady_now (service_lib lib redis msgs) (v, t) = (t, (v, t + 1))"
  by (simp add: service_lib_def)

lemma service_ready:
  assumes "service_ok lib redis glob ((st, dbs), clock)" "backend_used st n" "waits timeout"
  obtains w1 w2 where "as_waitReadyAsync (service_lib lib redis msgs) n ((st, dbs), clock) = Inr ([], w1)"
    "becomes_ready (service_lib lib redis msgs) timeout w1 w2" "service_ok lib redis glob w2"
    "service_view lib w2 = service_view lib ((st, dbs), clock)" "service_allowed w2 = service_allowed ((st, dbs), clock)"
proof (rule service_ready_turn [OF assms(1,2)])
  fix v v'
  assume v: "as_waitReadyAsync (service_lib lib redis msgs) n ((st, dbs), clock) = Inr ([], (v, clock))" "busy (fst v)"
    "\<And>t. as_handleEvents (service_lib lib redis msgs) (v, t) = Inr ([CallReady () no_error], (v', t))"
    "\<And>t. service_ok lib redis glob (v', t)" "\<And>t. service_view lib (v', t) = service_view lib ((st, dbs), clock)"
    "\<And>t. service_allowed (v', t) = service_allowed ((st, dbs), clock)"
  obtain clock' where "becomes_ready (service_lib lib redis msgs) timeout (v, clock) (v', clock')"
    using one_turn_ready [OF service_clock service_polls(1) [OF v(2)] v(3) assms(3)] by blast
  then show thesis using that [OF v(1) _ v(4-6)] by blast
qed


text \<open>A request that is not sent is acknowledged by the engine.\<close>

lemma refused_posts:
  assumes "\<not> isValidNamespace (request_ns r) \<or> no_keys_given r" "rs_dispatcher s = Some []"
  shows "perform ops r (e, s) = Inr (post_ack (fst (sync_spec1 glob r A)) e, s)"
  using assms by (cases r) (auto simp: operation_defs canOperationBePerformed_def sync_spec1_def)

lemma service_request:
  assumes ok: "service_ok lib redis glob ((st, dbs), clock)" and r: "service_allowed ((st, dbs), clock) r"
  obtains w1 w2 where "as_perform (service_lib lib redis msgs) r ((st, dbs), clock) = Inr ([], w1)"
    "delivers (service_lib lib redis msgs) w1 (fst (sync_spec1 glob r (service_view lib ((st, dbs), clock)))) w2"
    "service_ok lib redis glob w2" "service_allowed w2 = service_allowed ((st, dbs), clock)"
    "service_view lib w2 = snd (sync_spec1 glob r (service_view lib ((st, dbs), clock)))"
proof -
  note okD = service_okD [OF ok] and inv = servers_okD [OF service_okD(5) [OF ok]]
  define i where "i = server_of lib (databaseConfiguration st) (request_ns r)"
  let ?s = "asyncStorages st ! i" and ?view = "servers_view lib (databaseConfiguration st) dbs"
  have view: "service_view lib ((st, dbs), clock) = ?view" by (simp add: service_view_def)
  have used: "backend_used st (request_ns r)" using r by (simp add: service_allowed_def)
  show thesis
  proof (rule impl_server [OF okD(3-5) used i_def])
    fix confs
    let ?e = "(ai_env st)\<lparr>ns_confs := confs\<rparr>"
    assume confs: "nc_inv confs" "nc_policy confs = nc_policy (ns_confs (ai_env st))" "i < length dbs"
      and perf: "\<And>op dummy. on_handler lib (request_ns r) op dummy st = rbind (op (?e, ?s)) (\<lambda>es. Inr (fst (with_server i (st, dbs) (es, dbs ! i))))"
      and served: "\<And>redis v. serve_all redis (with_server i (st, dbs) v) = rbind (serve1 redis v) (\<lambda>v'. Inr (with_server i (st, dbs) v'))"
    have idle: "rs_dispatcher ?s = Some []" using inv(7) [OF confs(3)] by simp
    have e: "posted ?e = []" "called ?e = []" "quiet_env ?e = ?e" using okD(6,7) by (simp_all add: quiet_env_id)
    have w: "world_ok ((?e, ?s), dbs ! i)" using inv(5) [OF confs(3)] confs(1) by (simp add: world_ok_def)
    have less: "i < length (asyncStorages (fst (st, dbs)))" using confs(3) inv(3) by simp
    have performed: "as_perform (service_lib lib redis msgs) r ((st, dbs), clock) = Inr ([], (with_server i (st, dbs) ((e1, s1), dbs ! i), clock))"
      if "perform recorder r (?e, ?s) = Inr (e1, s1)" for e1 s1
      using that okD(4) by (simp add: service_lib_def impl_perform_on_handler perf with_server_def)
    show thesis
    proof (cases "\<not> isValidNamespace (request_ns r) \<or> no_keys_given r")
      case True
      let ?a = "fst (sync_spec1 glob r ?view)"
      have "snd (sync_spec1 glob r ?view) = ?view" using True by (auto simp: sync_spec1_def)
      moreover have "delivers (service_lib lib redis msgs) (with_server i (st, dbs) ((post_ack ?a ?e, ?s), dbs ! i), clock) ?a
        (with_server i (st, dbs) ((?e\<lparr>called := []\<rparr>, ?s), dbs ! i), clock + 1)"
        using e idle less by (intro turn_delivers [OF served]) (simp_all add: post_ack_def quiet_env_def serve1_idle)
      moreover have "?e\<lparr>called := []\<rparr> = ?e" using e(2) by simp
      ultimately show thesis using that [OF performed [OF refused_posts [OF True idle]]]
          service_ok_with_server [OF ok w confs(3) e(1,2)] confs(2) view
        by (simp add: service_view_with_server)
    next
      case False
      then have req: "request_ok r" and spec: "sync_spec1 glob r ?view = spec1 glob r ?view"
        using r by (simp_all add: service_allowed_def sync_spec1_def)
      show thesis
      proof (rule request_steps [OF okD(1,2) w req e(1,2)])
        fix e1 s1 v2
        assume 1: "perform recorder r (?e, ?s) = Inr (e1, s1)" "posted e1 = []" "called e1 = []" "waiting s1"
          and 2: "serve1 redis ((e1, s1), dbs ! i) = Inr v2" and 3: "finished glob r (dbs ! i) v2 \<or>
            posted (fst (fst v2)) = [] \<and> called (fst (fst v2)) = [] \<and> waiting (snd (fst v2)) \<and>
            (\<exists>v3. serve1 redis v2 = Inr v3 \<and> finished glob r (dbs ! i) v3)"
        obtain e' s' db' clock' where
          fin: "finished glob r (dbs ! i) ((e', s'), db')" and pol: "same_policy e1 e'" and
          del: "delivers (service_lib lib redis msgs) (with_server i (st, dbs) ((e1, s1), dbs ! i), clock) (hd (called e'))
            (with_server i (st, dbs) ((e'\<lparr>called := []\<rparr>, s'), db'), clock')"
          using turns_deliver [OF served less 1(2-4) 2 3, where msgs = msgs and lib = lib and clock = clock] by blast
        have f: "world_ok ((e'\<lparr>called := []\<rparr>, s'), db')" "posted (e'\<lparr>called := []\<rparr>) = []" "called (e'\<lparr>called := []\<rparr>) = []"
          "called e' = [fst (spec1 glob r (sdl_view (dbs ! i)))]" "sdl_view db' = snd (spec1 glob r (sdl_view (dbs ! i)))"
          using fin by (simp_all add: finished_def world_ok_def)
        have "nc_policy (ns_confs (e'\<lparr>called := []\<rparr>)) = nc_policy (ns_confs (ai_env st))"
          using perform_policy [OF 1(1)] pol confs(1,2) by (simp add: same_policy_def)
        note after = service_ok_with_server [OF ok f(1) confs(3) f(2,3) this]
        have view': "servers_view lib (databaseConfiguration st) (dbs[i := db']) = snd (spec1 glob r ?view)"
          "hd (called e') = fst (spec1 glob r ?view)"
          using servers_view_with_server [OF i_def confs(3) f(5)] f(4) by simp_all
        have "delivers (service_lib lib redis msgs) (with_server i (st, dbs) ((e1, s1), dbs ! i), clock)
          (fst (sync_spec1 glob r (service_view lib ((st, dbs), clock))))
          (with_server i (st, dbs) ((e'\<lparr>called := []\<rparr>, s'), db'), clock')"
          using del view'(2) view spec by simp
        then show thesis
          by (rule that [OF performed [OF 1(1)]]) (simp_all add: after service_view_with_server view view'(1) spec)
      qed
    qed
  qed
qed


interpretation sdl_service: storage_service "service_lib lib redis msgs" "service_ok lib redis glob" "service_view lib" glob service_allowed
  for lib redis msgs glob
proof unfold_locales
  fix w r timeout
  let ?L = "service_lib lib redis msgs"
  assume ok: "service_ok lib redis glob w"
  obtain st dbs clock where w: "w = ((st, dbs), clock)" by (cases w) auto
  have "system_poll ?L 0 w = Inr (0, False, ((st, dbs), clock + 1))"
    using service_polls(2) [of "(st, dbs)"] not_busy [OF ok [unfolded w]] by (simp add: w)
  then show "\<exists>pollin w'. system_poll ?L 0 w = Inr (0, pollin, w') \<and> service_ok lib redis glob w' \<and>
      service_view lib w' = service_view lib w \<and> service_allowed w' = service_allowed w"
    using ok by (auto simp: w service_ok_def service_view_def service_allowed_def fun_eq_iff)
  assume r: "service_allowed w r"
  show "\<exists>w1 w'. as_perform ?L r w = Inr ([], w1) \<and> delivers ?L w1 (fst (sync_spec1 glob r (service_view lib w))) w' \<and>
      service_ok lib redis glob w' \<and> service_view lib w' = snd (sync_spec1 glob r (service_view lib w)) \<and> service_allowed w' = service_allowed w"
    using service_request [OF ok [unfolded w] r [unfolded w], folded w] by metis
  assume t: "waits timeout"
  have "backend_used st (request_ns r)" using r by (simp add: w service_allowed_def)
  then show "\<exists>w1 w'. as_waitReadyAsync ?L (request_ns r) w = Inr ([], w1) \<and> becomes_ready ?L timeout w1 w' \<and>
      service_ok lib redis glob w' \<and> service_view lib w' = service_view lib w \<and> service_allowed w' = service_allowed w"
    using service_ready [OF ok [unfolded w] _ t, folded w] by metis
qed

text \<open>C2: the blocking interface on top of the whole library. Any sequence of calls of
  \<open>SyncStorage\<close>, on namespaces that use the database, with no operation timeout or one of at least a
  millisecond, returns; each call returns the value the specification gives, or throws the
  exception of its error code (\<open>InvalidNamespace\<close> for an invalid namespace), and the data in every
  namespace afterwards is what the specification says.\<close>

theorem sync_storage_refines_spec:
  assumes "service_ok lib redis glob w" "\<forall>r\<in>set rs. service_allowed w r" "operationTimeout s = 0 \<or> 1000000 \<le> operationTimeout s"
  shows "\<exists>s' w'. sync_run (service_lib lib redis msgs) rs (s, w) =
      Some (Inr (map (outcome (service_lib lib redis msgs)) (fst (sync_spec glob rs (service_view lib w))), (s', w'))) \<and>
    service_ok lib redis glob w' \<and> service_view lib w' = snd (sync_spec glob rs (service_view lib w))"
  using assms by (intro sdl_service.run_refines) (auto simp: waits_def)

definition unit_storage :: "(unit, unit cmds, unit) redisStorage" where
  "unit_storage = \<lparr>rs_dispatcher = Some [], rs_discovery = None, publisherId = None, readyAck = None, dbInfo = None\<rparr>"

definition unit_impl_lib :: "(unit, unit cmds, unit) impl_lib" where
  "unit_impl_lib = \<lparr>storage_ops = recorder, storage_discovery = \<lparr>set_state_cb = Inr, clear_state_cb = id\<rparr>,
     asyncDatabaseDiscoveryCreator = \<lambda>_ _ _. Inr (), crc32 = \<lambda>s. of_nat (length s), HAVE_REDIS = True\<rparr>"

definition unit_impl :: "(unit, unit cmds, unit) impl_state" where
  "unit_impl = \<lparr>engine_id = 0, ai_env = \<lparr>ns_confs = sample_nc, posted = [], called = []\<rparr>, databaseConfiguration = sample_cluster,
     ai_publisherId = None, asyncStorages = [unit_storage, unit_storage], static_serverCount = Some 2,
     static_dummyEngine = None, foreign_posts = []\<rparr>"

lemma unit_service_ok: "service_ok unit_impl_lib sample_redis sample_glob ((unit_impl, [Map.empty, Map.empty]), 0)"
  using sample_nc_inv
  by (simp add: service_ok_def sample_glob_ok sample_redis_ok unit_impl_lib_def servers_ok_def unit_impl_def world_ok_def unit_storage_def
      sample_env_def nth_Cons split: nat.split)

lemma unit_backend_used: "backend_used unit_impl ''ab''" "backend_used unit_impl ''abc''" "backend_used unit_impl ''ab,c''"
  by (simp_all add: backend_used_def unit_impl_def nc_policy_def sample_nc_def search_index_def search_step_def
      defaultConfigurationIndex_def substr_def)

theorem sync_storage_refines_spec_witness:
  "\<exists>s' w'. sync_run (service_lib unit_impl_lib sample_redis (\<lambda>_ _. []))
       [Set ''ab'' [(''k'', [1])] (), SetIfNotExists ''ab'' ''k'' [2] (), Get ''abc'' [''k''] (), Get ''ab'' [''k''] ()]
       (SyncStorageImpl, ((unit_impl, [Map.empty, Map.empty]), 0)) =
     Some (Inr ([Inr Done, Inr (Status False), Inr (Data []), Inr (Data [(''k'', [1])])], (s', w')))"
proof -
  let ?rs = "[Set ''ab'' [(''k'', [1])] (), SetIfNotExists ''ab'' ''k'' [2] (), Get ''abc'' [''k''] (), Get ''ab'' [''k''] ()]"
  have "\<forall>r\<in>set ?rs. service_allowed ((unit_impl, [Map.empty, Map.empty]), 0) r"
    by (simp add: service_allowed_def unit_backend_used isValidNamespace_iff)
  from sync_storage_refines_spec [OF unit_service_ok this, of SyncStorageImpl "\<lambda>_ _. []"]
  show ?thesis
    by (auto simp: SyncStorageImpl_def sync_spec1_def isValidNamespace_iff outcome_def no_error_def ec_bool_def service_view_def unit_impl_def
        servers_view_def server_of_def unit_impl_lib_def sdl_view_def)
qed


section \<open>Timeouts\<close>

text \<open>Worlds in which polling never finds anything to handle.\<close>

definition silent :: "'w sync_lib \<Rightarrow> ('w \<Rightarrow> bool) \<Rightarrow> bool" where
  "silent lib P \<longleftrightarrow> (\<forall>w t. P w \<longrightarrow> (\<exists>ret pollin w'. system_poll lib t w = Inr (ret, pollin, w') \<and> \<not> (0 < ret \<and> pollin) \<and> P w'))"

lemma silent_poll:
  assumes "silent lib P" "P w"
  obtains w' where "pollAndHandleEvents lib t (s, w) = Inr (s, w')" "P w'"
proof -
  obtain ret pollin w' where "system_poll lib t w = Inr (ret, pollin, w')" "\<not> (0 < ret \<and> pollin)" "P w'"
    using assms unfolding silent_def by blast
  then show thesis using that [of w'] by (auto simp: pollAndHandleEvents_def)
qed

lemma waitForOperationCallback_silent:
  assumes "waitForOperationCallback lib sw = Some res" "silent lib P" "P (snd sw)"
  shows "synced (fst sw)"
proof -
  have "silent lib P \<longrightarrow> P (snd sw) \<longrightarrow> synced (fst sw)"
  proof (rule waitForOperationCallback.raw_induct [where P = "\<lambda>lib sw res. silent lib P \<longrightarrow> P (snd sw) \<longrightarrow> synced (fst sw)", OF _ assms(1)])
    fix f :: "'a sync_lib \<Rightarrow> 'a sync \<Rightarrow> 'a sync run" and lib sw res
    assume IH: "\<And>lib sw res. f lib sw = Some res \<Longrightarrow> silent lib P \<longrightarrow> P (snd sw) \<longrightarrow> synced (fst sw)"
      and step: "(if synced (fst sw) then Some (Inr sw)
        else case pollAndHandleEvents lib NO_TIMEOUT sw of Inl e \<Rightarrow> Some (Inl e) | Inr sw' \<Rightarrow> f lib sw') = Some res"
    show "silent lib P \<longrightarrow> P (snd sw) \<longrightarrow> synced (fst sw)"
    proof (intro impI, rule ccontr)
      assume silent: "silent lib P" "P (snd sw)" and not_synced: "\<not> synced (fst sw)"
      obtain w' where w': "pollAndHandleEvents lib NO_TIMEOUT (fst sw, snd sw) = Inr (fst sw, w')" "P w'"
        using silent_poll [OF silent] by metis
      then have "f lib (fst sw, w') = Some res" using step not_synced by simp
      from IH [OF this] silent(1) w'(2) not_synced show False by simp
    qed
  qed
  then show ?thesis using assms(2,3) by blast
qed

text \<open>C35: the operation timeout limits only the wait for readiness. Once the storage was ready, or the
  time for that ran out, the operation is started, and the wait for its acknowledgement has no
  limit: if the acknowledgement never comes the call does not return, whatever the timeout is.\<close>

theorem operation_wait_unlimited:
  assumes "handlePendingEvents lib (setOperationTimeout timeout s, w) = Some (Inr sw1)"
    "waitSdlToBeReady lib (request_ns r) sw1 = Some (Inr (s2, w2))"
    "as_perform lib r w2 = Inr ([], w3)" "silent lib P" "P w3"
  shows "sync_operation lib r res (setOperationTimeout timeout s, w) = None"
proof -
  have "waitForOperationCallback lib (s2\<lparr>synced := False\<rparr>, w3) = None"
    using waitForOperationCallback_silent [of lib "(s2\<lparr>synced := False\<rparr>, w3)" _ P] assms(4,5)
    by (cases "waitForOperationCallback lib (s2\<lparr>synced := False\<rparr>, w3)") auto
  then show ?thesis using assms(1-3) by (simp add: sync_operation_def acked_def)
qed

text \<open>A storage that answers nothing, with a clock that advances: a poll with a timeout waits for it,
  one without is interrupted by a signal.\<close>

definition dead_lib :: "int sync_lib" where
  "dead_lib = \<lparr>raw_poll = \<lambda>timeout t. if timeout < 0 then ((-1, False, EINTR), t + 1) else ((0, False, 0), t + 1 + timeout * 1000000),
     steady_now = \<lambda>t. (t, t), as_handleEvents = \<lambda>t. Inr ([], t),
     as_waitReadyAsync = \<lambda>n t. Inr ([], t), as_perform = \<lambda>r t. Inr ([], t), sync_message = \<lambda>_ _. []\<rparr>"

lemma dead_poll [simp]:
  "system_poll dead_lib timeout t =
     Inr (if timeout < 0 then (-1, False, t + 1) else (0, False, t + 1 + timeout * 1000000))"
  by (simp add: system_poll_def dead_lib_def)

lemma dead_silent: "silent dead_lib (\<lambda>_. True)"
  by (auto simp: silent_def)

text \<open>Worlds with a clock: \<open>steady_now\<close> reads it, nothing turns it back, and a call of \<open>poll\<close> with a
  timeout, however it ends, takes at least a nanosecond, the unit of the clock. A negative timeout
  lets \<open>poll\<close> wait for an event without a limit; nothing is asked of it.\<close>

definition clocked :: "'w sync_lib \<Rightarrow> ('w \<Rightarrow> int) \<Rightarrow> bool" where
  "clocked lib clock \<longleftrightarrow>
     (\<forall>w. fst (steady_now lib w) = clock w \<and> clock w \<le> clock (snd (steady_now lib w))) \<and>
     (\<forall>w t. 0 \<le> t \<longrightarrow> clock w < clock (snd (raw_poll lib t w))) \<and>
     (\<forall>w acks w'. as_handleEvents lib w = Inr (acks, w') \<longrightarrow> clock w \<le> clock w')"

lemma clocked_now:
  assumes "clocked lib clock"
  obtains w' where "steady_now lib w = (clock w, w')" "clock w \<le> clock w'"
  using assms that [of "snd (steady_now lib w)"] unfolding clocked_def by (metis prod.collapse)

lemma clocked_poll:
  assumes "clocked lib clock" "0 \<le> t" "pollAndHandleEvents lib t (s, w) = Inr (s', w')"
  shows "clock w < clock w'"
proof -
  obtain ret pollin err w1 where p: "raw_poll lib t w = ((ret, pollin, err), w1)" by (metis prod.collapse)
  then have "clock w < clock w1" using assms(1,2) unfolding clocked_def by (metis snd_conv)
  moreover have "clock w1 \<le> clock w'"
  proof (cases "0 < ret \<and> pollin")
    case True
    then obtain acks where "as_handleEvents lib w1 = Inr (acks, w')"
      using assms(3) p by (auto simp: pollAndHandleEvents_def system_poll_def acked_def rbind_Inr_iff split: if_splits)
    then show ?thesis using assms(1) unfolding clocked_def by blast
  next
    case False
    then show ?thesis using assms(3) p by (auto simp: pollAndHandleEvents_def system_poll_def split: if_splits)
  qed
  ultimately show ?thesis by simp
qed

text \<open>The states a wait for readiness goes through, with the timeout \<open>t\<close> of its polls: the clock is
  read, and while no readiness acknowledgement was called, \<open>poll\<close> waits for events and the storage
  handles them.\<close>

inductive polled :: "'w sync_lib \<Rightarrow> int \<Rightarrow> 'w sync \<Rightarrow> 'w sync \<Rightarrow> bool" for lib t where
  none: "polled lib t sw sw"
| clock: "steady_now lib w = (now, w1) \<Longrightarrow> polled lib t (s, w1) sw \<Longrightarrow> polled lib t (s, w) sw"
| poll: "\<not> isReady (fst sw) \<Longrightarrow> pollAndHandleEvents lib t sw = Inr sw1 \<Longrightarrow> polled lib t sw1 sw2 \<Longrightarrow> polled lib t sw sw2"

text \<open>How it ends.\<close>

definition wait_ends :: "'w sync_lib \<Rightarrow> int \<Rightarrow> 'w sync \<Rightarrow> ('w \<Rightarrow> int) \<Rightarrow> int \<Rightarrow> 'w sync run \<Rightarrow> bool" where
  "wait_ends lib t sw clock deadline res \<longleftrightarrow>
     (\<exists>sw' f. polled lib t sw sw' \<and> \<not> isReady (fst sw') \<and> pollAndHandleEvents lib t sw' = Inl f \<and> res = Some (Inl f)) \<or>
     (\<exists>s' w'. polled lib t sw (s', w') \<and> res = Some (Inr (s', w')) \<and> (isReady s' \<or> deadline \<le> clock w'))"

lemma wait_ends_clock:
  "steady_now lib w = (now, w1) \<Longrightarrow> wait_ends lib t (s, w1) clock deadline res \<Longrightarrow> wait_ends lib t (s, w) clock deadline res"
  unfolding wait_ends_def using polled.clock [of lib w now w1 t s] by blast

lemma wait_ends_poll:
  "\<not> isReady (fst sw) \<Longrightarrow> pollAndHandleEvents lib t sw = Inr sw1 \<Longrightarrow> wait_ends lib t sw1 clock deadline res \<Longrightarrow>
     wait_ends lib t sw clock deadline res"
  unfolding wait_ends_def using polled.poll [of sw lib t sw1] by blast

lemma timed_ready_loop_ends:
  assumes "clocked lib clock" "0 \<le> pt \<or> timeout_ms \<le> 0" "start \<le> clock w"
  shows "wait_ends lib pt (s, w) clock (start + timeout_ms * 1000000) (timed_ready_loop lib start timeout_ms pt (s, w))"
  using assms(3)
proof (induction "nat (start + timeout_ms * 1000000 - clock w)" arbitrary: s w rule: less_induct)
  case less
  let ?d = "start + timeout_ms * 1000000"
  obtain w1 where w1: "steady_now lib w = (clock w, w1)" "clock w \<le> clock w1" using clocked_now [OF assms(1)] .
  consider "isReady s" | "\<not> isReady s" "?d \<le> clock w" | "\<not> isReady s" "clock w < ?d" by fastforce
  then show ?case
  proof cases
    case 1
    then show ?thesis by (subst timed_ready_loop.simps) (auto simp: wait_ends_def intro: polled.none)
  next
    case 2
    then have "timed_ready_loop lib start timeout_ms pt (s, w) = Some (Inr (s, w1))"
      using w1(1) by (subst timed_ready_loop.simps) simp
    then show ?thesis using 2 w1 polled.clock [OF w1(1) polled.none] by (auto simp: wait_ends_def)
  next
    case 3
    then have pt: "0 \<le> pt" using assms(2) less.prems by auto
    have eq: "timed_ready_loop lib start timeout_ms pt (s, w) = (case pollAndHandleEvents lib pt (s, w1) of
        Inl e \<Rightarrow> Some (Inl e) | Inr sw' \<Rightarrow> timed_ready_loop lib start timeout_ms pt sw')"
      using 3 w1(1) by (subst timed_ready_loop.simps) simp
    have "wait_ends lib pt (s, w1) clock ?d (timed_ready_loop lib start timeout_ms pt (s, w))"
    proof (cases "pollAndHandleEvents lib pt (s, w1)")
      case (Inl f)
      then show ?thesis unfolding eq wait_ends_def using 3(1) polled.none [of lib pt "(s, w1)"] by auto
    next
      case (Inr sw2)
      obtain s2 w2 where sw2: "sw2 = (s2, w2)" by (cases sw2)
      have "clock w < clock w2" using clocked_poll [OF assms(1) pt Inr [unfolded sw2]] w1(2) by simp
      then have "wait_ends lib pt sw2 clock ?d (timed_ready_loop lib start timeout_ms pt sw2)"
        unfolding sw2 using less.prems 3(2) by (intro less.hyps) simp_all
      then show ?thesis unfolding eq using 3(1) Inr by (auto intro: wait_ends_poll)
    qed
    with w1(1) show ?thesis by (rule wait_ends_clock)
  qed
qed

lemma to_int32_small: "0 \<le> i \<Longrightarrow> i < 2 ^ 31 \<Longrightarrow> to_int32 i = i"
  by (simp add: to_int32_def sint_sbintrunc' signed_take_bit_int_eq_self)

lemma poll_timeout_fits:
  assumes "timeout < 2 ^ 31 * 10 * 1000000"
  shows "0 \<le> to_int32 (truncated_div (truncated_div timeout 1000000) 10) \<or> truncated_div timeout 1000000 \<le> 0"
proof (cases "0 < timeout")
  case True
  then have "truncated_div (truncated_div timeout 1000000) 10 = timeout div 1000000 div 10"
    by (auto simp: truncated_div_def sgn_if)
  moreover have "timeout div 1000000 div 10 < 2 ^ 31" using assms by (simp add: zdiv_zmult2_eq [symmetric] div_less_iff_less_mult)
  ultimately show ?thesis using True to_int32_small by (simp add: pos_imp_zdiv_nonneg_iff)
qed (auto simp: truncated_div_def sgn_if)

text \<open>A longer timeout wraps around: \<open>poll\<close> is told to wait without a limit.\<close>

lemma huge_timeout_polls_without_limit:
  "waitForReadinessCheckCallback lib (2 ^ 31 * 10 * 1000000) (s, w) =
     (case steady_now lib w of (start, w') \<Rightarrow> timed_ready_loop lib start 21474836480 (- 2147483648) (s, w'))"
proof -
  have "to_int32 2147483648 = - 2147483648" by (simp add: to_int32_def) 
  then show ?thesis by (simp add: waitForReadinessCheckCallback_def truncated_div_def)
qed

text \<open>C34: \<open>waitReady\<close> with a timeout always returns, whatever events come meanwhile, if the tenth of
  the timeout that each \<open>poll\<close> gets fits in its argument (timeouts up to 248 days). It reads the
  clock, polls and lets the storage handle its events until one of three things happens: \<open>poll\<close> or
  the event handling fails, and the failure is passed on; the readiness acknowledgement is called,
  and its error, if any, is thrown; or the timeout, in whole milliseconds, has passed without it, and
  \<open>RejectedBySdl\<close> is thrown, not earlier. A timeout that is negative or below a millisecond has passed
  at once.\<close>

theorem waitReady_times_out:
  assumes "clocked lib clock" "timeout \<noteq> 0" "timeout < 2 ^ 31 * 10 * 1000000"
    and "acked (s\<lparr>isReady := False\<rparr>) (as_waitReadyAsync lib n w) = Inr sw1"
    and "t = to_int32 (truncated_div (truncated_div timeout 1000000) 10)"
  shows "(\<exists>sw' f. polled lib t sw1 sw' \<and> \<not> isReady (fst sw') \<and> pollAndHandleEvents lib t sw' = Inl f \<and>
      waitReady lib n timeout (s, w) = Some (Inl f)) \<or>
    (\<exists>s' w'. polled lib t sw1 (s', w') \<and>
      (if isReady s' then waitReady lib n timeout (s, w) = Some (Inr (verifyBackendResponse lib s', (s', w')))
       else waitReady lib n timeout (s, w) =
          Some (Inr (Inl (Throw (RejectedBySdl (''Timeout, SDL service not ready for the '' @ [CHR 0x27] @ n @ [CHR 0x27] @ '' namespace''))), (s', w'))) \<and>
         clock (snd sw1) + truncated_div timeout 1000000 * 1000000 \<le> clock w'))"
proof -
  obtain s1 w1 where sw1: "sw1 = (s1, w1)" by (cases sw1)
  obtain w2 where w2: "steady_now lib w1 = (clock w1, w2)" "clock w1 \<le> clock w2" using clocked_now [OF assms(1)] .
  let ?loop = "timed_ready_loop lib (clock w1) (truncated_div timeout 1000000) t (s1, w2)"
  have eq: "waitReady lib n timeout (s, w) = obind ?loop (\<lambda>(s, w). Some (Inr (if \<not> isReady s
      then Inl (Throw (RejectedBySdl (''Timeout, SDL service not ready for the '' @ [CHR 0x27] @ n @ [CHR 0x27] @ '' namespace'')))
      else verifyBackendResponse lib s, (s, w))))"
    using assms(2,4) w2(1)
    by (simp add: sw1 assms(5) waitReady_def waitSdlToBeReady_timeout_def waitForReadinessCheckCallback_def Let_def)
  have "wait_ends lib t (s1, w1) clock (clock w1 + truncated_div timeout 1000000 * 1000000) ?loop"
    using w2 poll_timeout_fits [OF assms(3)] unfolding assms(5) by (blast intro: wait_ends_clock timed_ready_loop_ends [OF assms(1)])
  then consider sw' f where "polled lib t sw1 sw'" "\<not> isReady (fst sw')" "pollAndHandleEvents lib t sw' = Inl f" "?loop = Some (Inl f)"
    | s' w' where "polled lib t sw1 (s', w')" "?loop = Some (Inr (s', w'))" "isReady s' \<or> clock w1 + truncated_div timeout 1000000 * 1000000 \<le> clock w'"
    unfolding wait_ends_def sw1 by blast
  then show ?thesis
  proof cases
    case 1
    then have "waitReady lib n timeout (s, w) = Some (Inl f)" unfolding eq by simp
    with 1 show ?thesis by blast
  next
    case 2
    then show ?thesis unfolding eq sw1 by (intro disjI2 exI [of _ s'] exI [of _ w']) (auto simp: sw1)
  qed
qed

lemma dead_clocked: "clocked dead_lib id"
  by (simp add: clocked_def dead_lib_def)

lemma dead_polled: "polled dead_lib t (s, w) sw \<Longrightarrow> fst sw = s"
  by (induction "(s, w)" sw arbitrary: w rule: polled.induct)
     (auto simp: pollAndHandleEvents_def split: if_splits)

theorem waitReady_times_out_witness:
  "\<exists>w'. waitReady dead_lib ''ns'' 20000000 (SyncStorageImpl, 5) =
      Some (Inr (Inl (Throw (RejectedBySdl (''Timeout, SDL service not ready for the '' @ [CHR 0x27] @ ''ns'' @ [CHR 0x27] @ '' namespace''))), (SyncStorageImpl, w'))) \<and>
    20000005 \<le> w'"
proof -
  have "acked (SyncStorageImpl\<lparr>isReady := False\<rparr>) (as_waitReadyAsync dead_lib ''ns'' 5) = Inr (SyncStorageImpl, 5)"
    by (simp add: acked_def dead_lib_def SyncStorageImpl_def)
  from waitReady_times_out [OF dead_clocked _ _ this refl, of 20000000]
  obtain s' w' where "polled dead_lib 2 (SyncStorageImpl, 5) (s', w')" and res: "if isReady s'
      then waitReady dead_lib ''ns'' 20000000 (SyncStorageImpl, 5) = Some (Inr (verifyBackendResponse dead_lib s', (s', w')))
      else waitReady dead_lib ''ns'' 20000000 (SyncStorageImpl, 5) =
        Some (Inr (Inl (Throw (RejectedBySdl (''Timeout, SDL service not ready for the '' @ [CHR 0x27] @ ''ns'' @ [CHR 0x27] @ '' namespace''))), (s', w'))) \<and>
        5 + 20000000 \<le> w'"
    by (auto simp: pollAndHandleEvents_def truncated_div_def to_int32_small split: if_splits)
  then have "s' = SyncStorageImpl" using dead_polled by fastforce
  with res show ?thesis by (simp add: SyncStorageImpl_def)
qed

theorem operation_wait_unlimited_witness:
  "sync_operation dead_lib (Get ''ab'' [''k''] ()) localMap (setOperationTimeout 5 SyncStorageImpl, 0) = None"
proof (rule operation_wait_unlimited [OF _ _ _ dead_silent])
  show "handlePendingEvents dead_lib (setOperationTimeout 5 SyncStorageImpl, 0) = Some (Inr (setOperationTimeout 5 SyncStorageImpl, 1))"
    by (rule handlePendingEvents_quiet [of _ _ 0 False]) simp_all
  show "waitSdlToBeReady dead_lib (request_ns (Get ''ab'' [''k''] ())) (setOperationTimeout 5 SyncStorageImpl, 1) =
    Some (Inr (setOperationTimeout 5 SyncStorageImpl, 1))"
    by (simp add: waitSdlToBeReady_def waitSdlToBeReady_timeout_def waitForReadinessCheckCallback_def acked_def setOperationTimeout_def
        SyncStorageImpl_def truncated_div_def timed_ready_loop.simps dead_lib_def)
qed (simp_all add: dead_lib_def)

section \<open>A readiness acknowledgement that comes late\<close>

text \<open>C36: the acknowledgement of the readiness check, which may come after the wait for it has timed
  out, writes the same error variable as the acknowledgement of the operation. When both come in
  one round of event handling, the operation's first, an operation that failed returns normally.\<close>

theorem late_ready_ack_hides_error:
  assumes "handlePendingEvents lib sw = Some (Inr sw1)" "waitSdlToBeReady lib n sw1 = Some (Inr (s2, w2))"
    "as_perform lib (Set n m ()) w2 = Inr ([], w3)" "system_poll lib NO_TIMEOUT w3 = Inr (ret, True, w4)" "0 < ret"
    "as_handleEvents lib w4 = Inr ([CallModify () ec, CallReady () no_error], w5)"
  shows "\<exists>s'. sync_set lib n m sw = Some (Inr (Inr (), (s', w5)))"
proof -
  let ?s = "waitReadyAck no_error (modifyAck ec (s2\<lparr>synced := False\<rparr>))"
  have "waitForOperationCallback lib (?s, w5) = Some (Inr (?s, w5))"
    by (subst waitForOperationCallback.simps) (simp add: sync_ack_defs)
  then have "waitForOperationCallback lib (s2\<lparr>synced := False\<rparr>, w3) = Some (Inr (?s, w5))"
    using assms(4-6) by (subst waitForOperationCallback.simps) (simp add: pollAndHandleEvents_def acked_def)
  then show ?thesis using assms(1-3)
    by (simp add: sync_set_def sync_operation_def acked_def verifyBackendResponse_def sync_ack_defs no_error_def ec_bool_def)
qed

text \<open>The connection comes up in the round in which the refused operation is acknowledged.\<close>

definition late_lib :: "nat sync_lib" where
  "late_lib = \<lparr>raw_poll = \<lambda>timeout k. (if k = 2 then (1, True, 0) else (0, False, 0), k), steady_now = \<lambda>k. (0, k),
     as_handleEvents = \<lambda>k. Inr ([CallModify () (make_error_code_storage SEC_REDIS_NOT_YET_DISCOVERED), CallReady () no_error], 3),
     as_waitReadyAsync = \<lambda>n k. Inr ([], 1), as_perform = \<lambda>r k. Inr ([], 2), sync_message = \<lambda>_ _. []\<rparr>"

theorem late_ready_ack_hides_error_witness:
  "\<exists>s'. sync_set late_lib ''ab'' [(''k'', [1])] (setOperationTimeout 5 SyncStorageImpl, 0) = Some (Inr (Inr (), (s', 3)))"
proof (rule late_ready_ack_hides_error)
  show "handlePendingEvents late_lib (setOperationTimeout 5 SyncStorageImpl, 0) = Some (Inr (setOperationTimeout 5 SyncStorageImpl, 0))"
    by (rule handlePendingEvents_quiet [of _ _ 0 False]) (simp_all add: system_poll_def late_lib_def)
  show "waitSdlToBeReady late_lib ''ab'' (setOperationTimeout 5 SyncStorageImpl, 0) = Some (Inr (setOperationTimeout 5 SyncStorageImpl, 1))"
    by (simp add: waitSdlToBeReady_def waitSdlToBeReady_timeout_def waitForReadinessCheckCallback_def acked_def setOperationTimeout_def
        SyncStorageImpl_def truncated_div_def timed_ready_loop.simps late_lib_def)
  show "system_poll late_lib NO_TIMEOUT 2 = Inr (1, True, 2)" by (simp add: late_lib_def system_poll_def)
qed (simp_all add: late_lib_def)

end
