(* ===== verification/Startup.thy ===== *)
theory Startup
  imports Sync_Storage
begin

text \<open>
  From the factories of the public interface (\<open>src/asyncstorage.cpp\<close>, \<open>src/syncstorage.cpp\<close>) to the
  first answer: a storage that was just created has no Redis storages; the first call creates them
  with their discoveries, the engine runs the callbacks by which the static discoveries tell the
  addresses, the dispatchers are created, and the call that waits for readiness is answered.

  \<open>startup_lib\<close> extends the service of \<open>Sync_Storage\<close> by the callbacks of the discoveries.
\<close>

section \<open>Factories\<close>

text \<open>A process creates its engine and reads the configuration; the static variables are those of
  the process.\<close>

definition createInstance ::
  "'l conf_lib_scheme \<Rightarrow> 'pt ptree_ops \<Rightarrow> ((string \<times> 'pt \<times> string) list \<Rightarrow> (string \<times> 'pt \<times> string) list) \<Rightarrow>
   'pt configurationReader result \<Rightarrow> nat \<Rightarrow> string option \<Rightarrow> nat option \<times> nat option \<Rightarrow> ('u, 'd, 'x) impl_state result" where
  "createInstance clib ops iter reader eng pId statics =
     rbind reader (\<lambda>configurationReader. AsyncStorageImpl clib ops iter configurationReader eng pId statics)"

definition AsyncStorage_create ::
  "'l conf_lib_scheme \<Rightarrow> 'pt ptree_ops \<Rightarrow> ((string \<times> 'pt \<times> string) list \<Rightarrow> (string \<times> 'pt \<times> string) list) \<Rightarrow>
   'pt configurationReader result \<Rightarrow> nat \<Rightarrow> nat option \<times> nat option \<Rightarrow> ('u, 'd, 'x) impl_state result" where
  "AsyncStorage_create clib ops iter reader eng statics = createInstance clib ops iter reader eng None statics"

definition SyncStorage_create ::
  "'l conf_lib_scheme \<Rightarrow> 'pt ptree_ops \<Rightarrow> ((string \<times> 'pt \<times> string) list \<Rightarrow> (string \<times> 'pt \<times> string) list) \<Rightarrow>
   'pt configurationReader result \<Rightarrow> nat \<Rightarrow> nat option \<times> nat option \<Rightarrow> (syncStorageImpl \<times> ('u, 'd, 'x) impl_state) result" where
  "SyncStorage_create clib ops iter reader eng statics =
     rbind (AsyncStorage_create clib ops iter reader eng statics) (\<lambda>st. Inr (SyncStorageImpl, st))"

section \<open>Callbacks of the discoveries\<close>

type_synonym 'd redis_server = "(unit, unit cmds, 'd databaseDiscovery) redisStorage"

definition static_changes :: "'d redis_server \<Rightarrow> databaseInfo list" where
  "static_changes s = (case rs_discovery s of Some (HiredisDiscovery h) \<Rightarrow> postedChanges h | _ \<Rightarrow> [])"

definition changes_taken :: "'d redis_server \<Rightarrow> 'd redis_server" where
  "changes_taken s = s\<lparr>rs_discovery := map_option (\<lambda>d. case d of
     HiredisDiscovery h \<Rightarrow> HiredisDiscovery (h\<lparr>postedChanges := []\<rparr>) | SentinelDiscovery x \<Rightarrow> SentinelDiscovery x) (rs_discovery s)\<rparr>"

definition discover_at ::
  "nat \<Rightarrow> (unit, unit cmds, 'd databaseDiscovery) impl_state \<Rightarrow> (unit, unit cmds, 'd databaseDiscovery) impl_state result" where
  "discover_at i st =
     rbind (for_each (serviceStateChanged recorder) (static_changes (asyncStorages st ! i)) (ai_env st, changes_taken (asyncStorages st ! i)))
       (\<lambda>(e, s). Inr (st\<lparr>ai_env := e, asyncStorages := (asyncStorages st)[i := s]\<rparr>))"

definition discover_all ::
  "(unit, unit cmds, 'd databaseDiscovery) impl_state \<Rightarrow> (unit, unit cmds, 'd databaseDiscovery) impl_state result" where
  "discover_all st = for_each discover_at [0..<length (asyncStorages st)] st"

definition startup_busy :: "(unit, unit cmds, 'd databaseDiscovery) impl_state \<Rightarrow> bool" where
  "startup_busy st \<longleftrightarrow> busy st \<or> list_ex (\<lambda>s. static_changes s \<noteq> []) (asyncStorages st)"

definition startup_lib ::
  "(unit, unit cmds, 'd databaseDiscovery) impl_lib \<Rightarrow> redis \<Rightarrow> std_messages \<Rightarrow> 'd databaseDiscovery service_world sync_lib" where
  "startup_lib lib redis msgs = (service_lib lib redis msgs)\<lparr>
     raw_poll := \<lambda>timeout (w, clock). (if startup_busy (fst w) then (1, True, 0) else (0, False, 0), (w, clock + 1)),
     as_handleEvents := \<lambda>((st, dbs), clock). rbind (discover_all st) (\<lambda>st'.
       rbind (engine_turn redis (st', dbs)) (\<lambda>(acks, w'). Inr (acks, (w', clock))))\<rparr>"

section \<open>Without pending changes the discoveries do nothing\<close>

definition discovered :: "'d databaseDiscovery service_world \<Rightarrow> bool" where
  "discovered w \<longleftrightarrow> (\<forall>s\<in>set (asyncStorages (fst (fst w))). static_changes s = [])"

lemma changes_taken_id: "static_changes s = [] \<Longrightarrow> changes_taken s = s"
  by (cases "rs_discovery s") (auto simp: changes_taken_def static_changes_def split: databaseDiscovery.splits)

lemma discover_at_id: "static_changes (asyncStorages st ! i) = [] \<Longrightarrow> discover_at i st = Inr st"
  by (simp add: discover_at_def changes_taken_id)

lemma discover_all_id: "discovered ((st, dbs), clock) \<Longrightarrow> discover_all st = Inr st"
proof -
  have "for_each discover_at is st = Inr st" if "\<And>i. i \<in> set is \<Longrightarrow> static_changes (asyncStorages st ! i) = []" for "is"
    using that by (induction "is") (simp_all add: discover_at_id)
  from this [of "[0..<length (asyncStorages st)]"]
  show "discovered ((st, dbs), clock) \<Longrightarrow> discover_all st = Inr st" by (simp add: discover_all_def discovered_def)
qed

lemma startup_same:
  "steady_now (startup_lib lib redis msgs) = steady_now (service_lib lib redis msgs)"
  "as_waitReadyAsync (startup_lib lib redis msgs) = as_waitReadyAsync (service_lib lib redis msgs)"
  "as_perform (startup_lib lib redis msgs) = as_perform (service_lib lib redis msgs)"
  "sync_message (startup_lib lib redis msgs) = sync_message (service_lib lib redis msgs)"
  by (simp_all add: startup_lib_def)

lemma startup_polls:
  "startup_busy (fst w) \<Longrightarrow> system_poll (startup_lib lib redis msgs) t (w, clock) = Inr (1, True, (w, clock + 1))"
  by (simp add: system_poll_def startup_lib_def)

lemma startup_when_discovered:
  assumes "discovered w"
  shows "system_poll (startup_lib lib redis msgs) t w = system_poll (service_lib lib redis msgs) t w"
    "as_handleEvents (startup_lib lib redis msgs) w = as_handleEvents (service_lib lib redis msgs) w"
proof -
  obtain st dbs clock where w: "w = ((st, dbs), clock)" by (cases w) auto
  have "startup_busy st \<longleftrightarrow> busy st" using assms by (auto simp: w discovered_def startup_busy_def list_ex_iff)
  then show "system_poll (startup_lib lib redis msgs) t w = system_poll (service_lib lib redis msgs) t w"
    by (simp add: system_poll_def startup_lib_def service_lib_def w)
  show "as_handleEvents (startup_lib lib redis msgs) w = as_handleEvents (service_lib lib redis msgs) w"
    using discover_all_id [OF assms [unfolded w]] by (simp add: startup_lib_def service_lib_def w)
qed

text \<open>The storage operations and replies leave the discovery alone.\<close>

lemma dispatch_discovery:
  "dispatch_command ops cb n c (e, s) = Inr (e', s') \<Longrightarrow> rs_discovery s' = rs_discovery s"
  "dispatch_notified ops cb n c c' (e, s) = Inr (e', s') \<Longrightarrow> rs_discovery s' = rs_discovery s"
  by (auto simp: dispatch_notified_def dispatch_command_def rbind_Inr_iff split: option.splits)

lemma perform_discovery: "perform ops r (e, s) = Inr (e', s') \<Longrightarrow> rs_discovery s' = rs_discovery s"
  by (cases r) (auto simp: operation_defs split: prod.splits if_splits dest: dispatch_discovery)

lemma reply_discovery: "storage_reply ops cb ec rep (e, s) = Inr (e', s') \<Longrightarrow> rs_discovery s' = rs_discovery s"
  by (cases cb) (auto simp: modificationCommandCallback_def conditionalCommandCallback_def getCallback_def findKeysCallback_def
      removeAllCallback_def rbind_Inr_iff split: if_splits dest!: perform_discovery [of _ "Remove _ _ _", simplified])

lemma serve1_discovery: "serve1 redis ((e, s), db) = Inr ((e', s'), db') \<Longrightarrow> rs_discovery s' = rs_discovery s"
  by (auto simp: serve1_def rbind_Inr_iff split_beta Let_def connected_callback_def
      split: option.splits list.splits queued.splits connectCb.splits dest: reply_discovery)

abbreviation discoveries :: "('u, 'd, 'x) impl_state \<Rightarrow> 'x option list" where
  "discoveries st \<equiv> map rs_discovery (asyncStorages st)"

lemma serve_at_discovery:
  "serve_at redis i (st, dbs) = Inr (st', dbs') \<Longrightarrow> i < length (asyncStorages st) \<Longrightarrow>
    discoveries st' = discoveries st \<and> length dbs' = length dbs \<and> databaseConfiguration st' = databaseConfiguration st"
  by (auto simp: serve_at_def rbind_Inr_iff map_update list_update_same_conv dest!: serve1_discovery)

lemma serve_all_discovery:
  assumes "serve_all redis (st, dbs) = Inr (st', dbs')" "length dbs \<le> length (asyncStorages st)"
  shows "discoveries st' = discoveries st \<and> length dbs' = length dbs \<and> databaseConfiguration st' = databaseConfiguration st"
proof -
  let ?P = "\<lambda>w. discoveries (fst w) = discoveries st \<and> length (snd w) = length dbs \<and>
    databaseConfiguration (fst w) = databaseConfiguration st"
  have "?P (st', dbs')"
  proof (rule for_each_invariant [OF assms(1) [unfolded serve_all_def]])
    fix i u v
    assume "i \<in> set [0..<length (snd (st, dbs))]" "?P u" "serve_at redis i u = Inr v"
    moreover then have "i < length (asyncStorages (fst u))" using assms(2) by (metis (no_types, lifting) atLeastLessThan_iff length_map
          order_less_le_trans set_upt snd_conv)
    ultimately show "?P v" using serve_at_discovery [of redis i "fst u" "snd u" "fst v" "snd v"] by simp
  qed simp
  then show ?thesis by simp
qed

text \<open>Worlds in which nothing is left to discover, with the configuration they were started with.\<close>

definition settled :: "databaseConfiguration \<Rightarrow> 'd databaseDiscovery service_world \<Rightarrow> bool" where
  "settled conf w \<longleftrightarrow> discovered w \<and> databaseConfiguration (fst (fst w)) = conf \<and> length (snd (fst w)) \<le> length (asyncStorages (fst (fst w)))"

lemma startup_settled:
  assumes "settled conf w"
  shows "system_poll (startup_lib lib redis msgs) t w = system_poll (service_lib lib redis msgs) t w"
    "as_handleEvents (startup_lib lib redis msgs) w = as_handleEvents (service_lib lib redis msgs) w"
  using assms by (simp_all add: settled_def startup_when_discovered)

lemma settled_cong:
  assumes "settled conf ((st, dbs), clock)" "discoveries st' = discoveries st" "length dbs' = length dbs"
    "databaseConfiguration st' = databaseConfiguration st"
  shows "settled conf ((st', dbs'), clock')"
proof -
  let ?changes = "case_option [] (case_databaseDiscovery postedChanges (\<lambda>_. []))"
  have "map static_changes xs = map ?changes (map rs_discovery xs)" for xs :: "'a redis_server list"
    by (simp add: static_changes_def)
  from this [of "asyncStorages st'"] this [of "asyncStorages st"]
  have "map static_changes (asyncStorages st') = map static_changes (asyncStorages st)" unfolding assms(2) by metis
  then have "static_changes ` set (asyncStorages st') = static_changes ` set (asyncStorages st)" by (metis set_map)
  then show ?thesis using assms(1,3,4) arg_cong [OF assms(2), of length] by (auto simp: settled_def discovered_def)
qed

lemma handled_settled:
  assumes "as_handleEvents (service_lib lib redis msgs) w = Inr (acks, w')" "settled conf w"
  shows "settled conf w'"
proof -
  obtain st dbs clock st' dbs' clock' where w: "w = ((st, dbs), clock)" "w' = ((st', dbs'), clock')" by (cases w; cases w') auto
  obtain st1 where st1: "serve_all redis (st\<lparr>ai_env := quiet_env (ai_env st)\<rparr>, dbs) = Inr (st1, dbs')" "asyncStorages st' = asyncStorages st1"
    "databaseConfiguration st' = databaseConfiguration st1"
    using assms(1) by (auto simp: w service_lib_def engine_turn_def rbind_Inr_iff)
  have "length dbs \<le> length (asyncStorages st)" using assms(2) by (simp add: w settled_def)
  with serve_all_discovery [OF st1(1)] st1(2,3) show ?thesis unfolding w by (intro settled_cong [OF assms(2) [unfolded w]]) simp_all
qed

lemma polled_settled:
  "settled conf w \<Longrightarrow> system_poll (service_lib lib redis msgs) t w = Inr (ret, pollin, w') \<Longrightarrow> settled conf w'"
  by (cases w) (auto simp: system_poll_def service_lib_def settled_def discovered_def split: if_splits)

text \<open>In such worlds \<open>startup_lib\<close> delivers what the service delivers.\<close>

lemma startup_delivers:
  assumes "delivers (service_lib lib redis msgs) w a w'" "settled conf w"
  shows "delivers (startup_lib lib redis msgs) w a w' \<and> settled conf w'"
  using assms
proof (induction rule: delivers.induct)
  case (now w ret w1 a w2)
  note w1 = polled_settled [OF now.prems now.hyps(1)]
  have "delivers (startup_lib lib redis msgs) w a w2"
    using now w1 by (intro delivers.now [of _ w ret w1]) (simp_all add: startup_settled)
  then show ?case using handled_settled [OF now.hyps(3) w1] by simp
next
  case (idle w ret pollin w1 a w2)
  note w1 = polled_settled [OF idle.prems idle.hyps(1)]
  have "delivers (startup_lib lib redis msgs) w a w2"
    using idle w1 by (intro delivers.idle [of _ w ret pollin w1]) (simp_all add: startup_settled)
  then show ?case using idle.IH [OF w1] by simp
next
  case (more w ret w1 w2 a w3)
  note w1 = polled_settled [OF more.prems more.hyps(1)]
  note w2 = handled_settled [OF more.hyps(3) w1]
  have "delivers (startup_lib lib redis msgs) w a w3"
    using more w1 w2 by (intro delivers.more [of _ w ret w1 w2]) (simp_all add: startup_settled)
  then show ?case using more.IH [OF w2] by simp
qed

lemma on_handler_discovery:
  assumes "on_handler lib n op dummy st = Inr st'" "asyncStorages st \<noteq> []"
    "\<And>e s e' s'. op (e, s) = Inr (e', s') \<Longrightarrow> rs_discovery s' = rs_discovery s"
  shows "discoveries st' = discoveries st \<and> databaseConfiguration st' = databaseConfiguration st"
  using assms(1,2)
  by (auto simp: on_handler_def getOperationHandler_def getRedisHandler_def getAsyncRedisStorageHandler_def getDummyHandler_def
      dummy_post_def rbind_Inr_iff vec_at_def Let_def map_update list_update_same_conv split: if_splits dest!: assms(3))

lemma settled_clock: "settled conf (v, t) \<Longrightarrow> settled conf (v, t')"
  by (simp add: settled_def discovered_def)

lemma started_settled:
  assumes "settled conf ((st, dbs), clock)" "asyncStorages st \<noteq> []" "rbind (on_handler lib n op dummy st) (\<lambda>st'. Inr ([], ((st', dbs), clock))) = Inr (acks, w')"
    "\<And>e s e' s'. op (e, s) = Inr (e', s') \<Longrightarrow> rs_discovery s' = rs_discovery s"
  shows "settled conf w'"
proof -
  obtain st' where st': "on_handler lib n op dummy st = Inr st'" "w' = ((st', dbs), clock)"
    using assms(3) by (auto simp: rbind_Inr_iff)
  show ?thesis unfolding st'(2) using on_handler_discovery [OF st'(1) assms(2,4)] by (intro settled_cong [OF assms(1)]) simp_all
qed

lemma waitReadyAsync_discovery: "waitReadyAsync ops n ack (e, s) = Inr (e', s') \<Longrightarrow> rs_discovery s' = rs_discovery s"
  by (auto simp: waitReadyAsync_def split: option.splits)

interpretation startup_service: storage_service "startup_lib lib redis msgs" "\<lambda>w. service_ok lib redis glob w \<and> settled conf w"
  "service_view lib" glob service_allowed
  for lib redis msgs glob conf
proof unfold_locales
  fix w r timeout
  let ?L = "startup_lib lib redis msgs" and ?S = "service_lib lib redis msgs"
  assume "service_ok lib redis glob w \<and> settled conf w"
  then have ok: "service_ok lib redis glob w" and set: "settled conf w" by simp_all
  obtain st dbs clock where w: "w = ((st, dbs), clock)" by (cases w) auto
  note nonempty = servers_okD(1) [OF service_okD(5) [OF ok [unfolded w]]]
  show "\<exists>pollin w'. system_poll ?L 0 w = Inr (0, pollin, w') \<and> (service_ok lib redis glob w' \<and> settled conf w') \<and>
      service_view lib w' = service_view lib w \<and> service_allowed w' = service_allowed w"
    using sdl_service.drained [OF ok] polled_settled [OF set] unfolding startup_settled(1) [OF set] by metis
  assume r: "service_allowed w r"
  show "\<exists>w1 w'. as_perform ?L r w = Inr ([], w1) \<and> delivers ?L w1 (fst (sync_spec1 glob r (service_view lib w))) w' \<and>
      (service_ok lib redis glob w' \<and> settled conf w') \<and> service_view lib w' = snd (sync_spec1 glob r (service_view lib w)) \<and>
      service_allowed w' = service_allowed w"
  proof -
    obtain w1 w' where w1: "as_perform ?S r w = Inr ([], w1)" "delivers ?S w1 (fst (sync_spec1 glob r (service_view lib w))) w'"
      "service_ok lib redis glob w'" "service_view lib w' = snd (sync_spec1 glob r (service_view lib w))" "service_allowed w' = service_allowed w"
      using sdl_service.answers [OF ok r] by blast
    have "settled conf w1"
      by (rule started_settled [OF set [unfolded w] nonempty, of lib "request_ns r" "perform (storage_ops lib) r" "dummy_ack r" "[]"])
        (use w1(1) perform_discovery in \<open>simp_all add: w service_lib_def impl_perform_on_handler\<close>)
    then show ?thesis using w1 startup_delivers unfolding startup_same by blast
  qed
  assume t: "waits timeout"
  show "\<exists>w1 w'. as_waitReadyAsync ?L (request_ns r) w = Inr ([], w1) \<and> becomes_ready ?L timeout w1 w' \<and>
      (service_ok lib redis glob w' \<and> settled conf w') \<and> service_view lib w' = service_view lib w \<and> service_allowed w' = service_allowed w"
  proof (rule service_ready_turn [OF ok [unfolded w], of "request_ns r" msgs])
    show "backend_used st (request_ns r)" using r by (simp add: w service_allowed_def)
    fix v v'
    assume v: "as_waitReadyAsync ?S (request_ns r) ((st, dbs), clock) = Inr ([], (v, clock))" "busy (fst v)"
      "\<And>t. as_handleEvents ?S (v, t) = Inr ([CallReady () no_error], (v', t))"
      "\<And>t. service_ok lib redis glob (v', t)" "\<And>t. service_view lib (v', t) = service_view lib ((st, dbs), clock)"
      "\<And>t. service_allowed (v', t) = service_allowed ((st, dbs), clock)"
    have "settled conf (v, clock)"
      by (rule started_settled [OF set [unfolded w] nonempty, of lib "request_ns r" "waitReadyAsync (storage_ops lib) (request_ns r) ()"
            "dummy_waitReadyAsync (request_ns r) ()" "[]"])
        (use v(1) waitReadyAsync_discovery in \<open>simp_all add: service_lib_def impl_waitReadyAsync_def\<close>)
    then have settled: "settled conf (v, t)" for t by (rule settled_clock)
    have "as_handleEvents ?L (v, t) = Inr ([CallReady () no_error], (v', t))" for t
      using startup_settled(2) [OF settled] v(3) by simp
    moreover have "settled conf (v', t)" for t using handled_settled [OF v(3) settled] .
    moreover have "system_poll ?L pt (v, t) = Inr (1, True, (v, t + 1))" for pt t using v(2) by (intro startup_polls) (simp add: startup_busy_def)
    ultimately show ?thesis
      using one_turn_ready [of ?L v v' timeout clock] v(1,4-6) t service_clock unfolding w startup_same by metis
  qed
qed

section \<open>The first call\<close>

text \<open>What a storage is after its static discovery has told the address.\<close>

definition found :: "'d redis_server \<Rightarrow> 'd redis_server" where
  "found s = (changes_taken s)\<lparr>rs_dispatcher := Some (if readyAck s \<noteq> None then [WaitConnected CallThisReadyAck] else []),
     dbInfo := Some (hd (static_changes s))\<rparr>"

lemma found_simps [simp]:
  "rs_dispatcher (found s) = Some (if readyAck s \<noteq> None then [WaitConnected CallThisReadyAck] else [])"
  "readyAck (found s) = readyAck s" "static_changes (found s) = []"
  by (auto simp: found_def changes_taken_def static_changes_def split: option.split databaseDiscovery.split)

lemma discover_at_found:
  assumes "static_changes (asyncStorages st ! i) = [info]"
  shows "discover_at i st = Inr (st\<lparr>asyncStorages := (asyncStorages st)[i := found (asyncStorages st ! i)]\<rparr>)"
  using assms by (simp add: discover_at_def serviceStateChanged_def recorder_def found_def changes_taken_def)

lemma discover_all_found:
  assumes "\<And>s. s \<in> set (asyncStorages st) \<Longrightarrow> \<exists>info. static_changes s = [info]"
  shows "discover_all st = Inr (st\<lparr>asyncStorages := map found (asyncStorages st)\<rparr>)"
proof -
  let ?ss = "asyncStorages st"
  have "for_each discover_at [0..<m] st = Inr (st\<lparr>asyncStorages := map found (take m ?ss) @ drop m ?ss\<rparr>)" if "m \<le> length ?ss" for m
    using that
  proof (induction m)
    case (Suc m)
    let ?st = "st\<lparr>asyncStorages := map found (take m ?ss) @ drop m ?ss\<rparr>"
    have nth: "asyncStorages ?st ! m = ?ss ! m" using Suc.prems by (simp add: nth_append)
    obtain info where info: "static_changes (?ss ! m) = [info]" using assms Suc.prems by (metis Suc_le_eq nth_mem)
    have "(asyncStorages ?st)[m := found (?ss ! m)] = map found (take (Suc m) ?ss) @ drop (Suc m) ?ss"
      using Suc.prems by (simp add: list_update_append take_Suc_conv_app_nth flip: Cons_nth_drop_Suc)
    then show ?case using Suc discover_at_found [of ?st m info] nth info by (simp add: for_each_append)
  qed simp
  from this [of "length ?ss"] show ?thesis by (simp add: discover_all_def)
qed

text \<open>A library whose configuration has static addresses.\<close>

definition static_lib ::
  "bool \<Rightarrow> 'l conf_lib_scheme \<Rightarrow> 'd sentinel_disp \<Rightarrow> (unit, unit cmds, 'd databaseDiscovery) impl_lib \<Rightarrow> bool" where
  "static_lib vip clib sops lib \<longleftrightarrow> HAVE_REDIS lib \<and> storage_ops lib = recorder \<and> storage_discovery lib = databaseDiscovery_ops sops \<and>
     asyncDatabaseDiscoveryCreator lib = (\<lambda>n. create_discovery vip True clib sops (Some n))"

definition static_conf :: "databaseConfiguration \<Rightarrow> bool" where
  "static_conf conf \<longleftrightarrow> getDbType conf \<in> {REDIS_STANDALONE, SDL_STANDALONE_CLUSTER} \<and> getServerAddresses conf \<noteq> []"

lemma static_created:
  assumes "static_lib vip clib sops lib" "static_conf (databaseConfiguration st)"
    "idx = None \<or> idx \<in> Some ` {..<length (getServerAddresses (databaseConfiguration st))}"
  obtains h where "rbind (asyncDatabaseDiscoveryCreator lib n (databaseConfiguration st) idx) (set_state_cb (storage_discovery lib)) =
    Inr (HiredisDiscovery h)" "length (postedChanges h) = 1"
proof -
  have "\<exists>addrs. getServerAddresses_at idx (databaseConfiguration st) = Inr addrs \<and> addrs \<noteq> []"
    using assms(2,3) by (auto simp: getServerAddresses_at_def static_conf_def vec_at_def getServerAddresses_def)
  then obtain addrs where "getServerAddresses_at idx (databaseConfiguration st) = Inr addrs" "addrs \<noteq> []" by blast
  then have "create_discovery vip True clib sops (Some n) (databaseConfiguration st) idx =
    Inr (HiredisDiscovery (AsyncHiredisDatabaseDiscovery (Some n) SINGLE addrs))"
    using assms(2) by (auto simp: create_discovery_def static_conf_def Let_def)
  then show thesis using assms(1) that [of "hiredis_setStateChangedCb (AsyncHiredisDatabaseDiscovery (Some n) SINGLE addrs)"]
    by (simp add: static_lib_def databaseDiscovery_ops_def hiredis_setStateChangedCb_def AsyncHiredisDatabaseDiscovery_def)
qed

lemma static_works:
  assumes "static_lib vip clib sops lib" "static_conf (databaseConfiguration st)" "ai_publisherId st \<noteq> Some []"
  shows "discovery_works lib n st"
  unfolding discovery_works_def using assms(3) static_created [OF assms(1,2)] by (metis isl_def sum.distinct(1) insert_iff)

lemma static_created_storages:
  assumes "static_lib vip clib sops lib" "static_conf (databaseConfiguration st)" "s \<in> set (created_storages lib n st)"
  shows "(\<exists>info. static_changes s = [info]) \<and> rs_dispatcher s = None \<and> readyAck s = None"
proof -
  obtain idx where idx: "idx = None \<or> idx \<in> Some ` {..<length (getServerAddresses (databaseConfiguration st))}"
    and s: "s = created_storage lib n st idx"
  proof (cases "is_sdl_cluster (databaseConfiguration st)")
    case True
    then obtain i where "i < length (getServerAddresses (databaseConfiguration st))" "s = created_storage lib n st (Some i)"
      using assms(3) by (auto simp: created_storages_def server_count_def)
    then show thesis by (intro that [of "Some i"]) auto
  next
    case False
    then show thesis using assms(3) by (intro that [of None]) (simp_all add: created_storages_def server_count_def)
  qed
  obtain h where "rbind (asyncDatabaseDiscoveryCreator lib n (databaseConfiguration st) idx) (set_state_cb (storage_discovery lib)) =
    Inr (HiredisDiscovery h)" "length (postedChanges h) = 1" using static_created [OF assms(1,2) idx] .
  then show ?thesis by (simp add: s created_storage_def static_changes_def length_Suc_conv)
qed

text \<open>A storage that has not been used, with its databases.\<close>

definition fresh ::
  "(unit, unit cmds, 'd databaseDiscovery) impl_lib \<Rightarrow> redis \<Rightarrow> (string \<Rightarrow> string \<Rightarrow> bool) \<Rightarrow> 'd databaseDiscovery service_world \<Rightarrow> bool" where
  "fresh lib redis glob = (\<lambda>((st, dbs), clock). glob_ok glob \<and> redis_ok glob redis \<and> static_conf (databaseConfiguration st) \<and>
     asyncStorages st = [] \<and> posted (ai_env st) = [] \<and> called (ai_env st) = [] \<and> nc_inv (ns_confs (ai_env st)) \<and>
     ai_publisherId st \<noteq> Some [] \<and> static_serverCount st \<in> {None, Some (server_count (databaseConfiguration st))} \<and>
     length dbs = server_count (databaseConfiguration st) \<and> (\<forall>db\<in>set dbs. finite (dom db)))"

lemma startup_turn:
  "as_handleEvents (startup_lib lib redis msgs) ((st, dbs), clock) =
     rbind (discover_all st) (\<lambda>st'. as_handleEvents (service_lib lib redis msgs) ((st', dbs), clock))"
  by (simp add: startup_lib_def service_lib_def)

text \<open>One turn of the engine after the first call: all addresses are known, the storage that waits
  gets its acknowledgement, and no storage has anything left to do.\<close>

lemma first_turn:
  assumes storages: "\<And>s. s \<in> set ss \<Longrightarrow> (\<exists>info. static_changes s = [info]) \<and> rs_dispatcher s = None \<and> readyAck s = None"
    and i: "i < length ss" "length dbs = length ss" and e: "posted (ai_env st) = []" "called (ai_env st) = []"
    and st: "asyncStorages st = ss[i := (ss ! i)\<lparr>readyAck := Some ()\<rparr>]"
  shows "as_handleEvents (startup_lib lib redis msgs) ((st, dbs), t) =
    Inr ([CallReady () no_error], ((st\<lparr>asyncStorages := map found ss\<rparr>, dbs), t))"
proof -
  let ?e = "ai_env st" and ?s = "found ((ss ! i)\<lparr>readyAck := Some ()\<rparr>)" and ?w = "(st\<lparr>asyncStorages := map found ss\<rparr>, dbs)"
  let ?e' = "call_ack (CallReady () no_error) ?e"
  have env: "quiet_env ?e = ?e" "?e'\<lparr>called := []\<rparr> = ?e" using e by (simp_all add: quiet_env_id call_ack_def)
  have si: "rs_dispatcher (found (ss ! i)) = Some []" "readyAck (ss ! i) = None" using storages [of "ss ! i"] i by simp_all
  then have restored: "?s\<lparr>rs_dispatcher := Some [], readyAck := None\<rparr> = found (ss ! i)"
    by (cases "ss ! i") (simp add: found_def changes_taken_def static_changes_def)
  have discovered: "discover_all st = Inr (st\<lparr>asyncStorages := (map found ss)[i := ?s]\<rparr>)"
  proof (subst discover_all_found)
    fix s assume "s \<in> set (asyncStorages st)"
    then have "s \<in> set ss \<or> s = (ss ! i)\<lparr>readyAck := Some ()\<rparr>" using st set_update_subset_insert by fastforce
    then show "\<exists>info. static_changes s = [info]" using storages [of s] storages [of "ss ! i"] i(1) by (auto simp: static_changes_def)
  qed (simp add: st map_update)
  have here: "((st\<lparr>asyncStorages := (map found ss)[i := ?s]\<rparr>, dbs), t) = (with_server i ?w ((?e, ?s), dbs ! i), t)"
    by (simp add: with_server_def)
  have served: "serve_all redis (with_server i ?w v) = rbind (serve1 redis v) (\<lambda>v'. Inr (with_server i ?w v'))" for v
    using i storages by (intro serve_with_server) auto
  have "serve1 redis ((quiet_env ?e, ?s), dbs ! i) = Inr ((?e', found (ss ! i)), dbs ! i)"
    using restored by (simp add: env(1) serve1_def connected_callback_def)
  from turn_with_server [OF served this, of lib msgs t]
  have "as_handleEvents (service_lib lib redis msgs) (with_server i ?w ((?e, ?s), dbs ! i), t) =
    Inr (posted ?e @ called ?e', (with_server i ?w ((?e, found (ss ! i)), dbs ! i), t))" unfolding env(2) .
  moreover have "with_server i ?w ((?e, found (ss ! i)), dbs ! i) = ?w" using i by (simp add: with_server_def flip: map_update)
  ultimately show ?thesis using discovered e by (simp add: startup_turn here call_ack_def)
qed

lemma fresh_becomes_ready:
  assumes fresh: "fresh lib redis glob ((st, dbs), clock)" and lib: "static_lib vip clib sops lib"
    and used: "backend_used st n" and timeout: "waits timeout"
  shows "\<exists>w1 w'. as_waitReadyAsync (startup_lib lib redis msgs) n ((st, dbs), clock) = Inr ([], w1) \<and>
    becomes_ready (startup_lib lib redis msgs) timeout w1 w' \<and> service_ok lib redis glob w' \<and> settled (databaseConfiguration st) w' \<and>
    service_view lib w' = service_view lib ((st, dbs), clock) \<and> service_allowed w' = service_allowed ((st, dbs), clock)"
proof -
  let ?conf = "databaseConfiguration st" and ?ss = "created_storages lib n st" and ?L = "startup_lib lib redis msgs"
  define i where "i = server_of lib ?conf n"
  note f = fresh [unfolded fresh_def, simplified]
  have libD: "HAVE_REDIS lib" "storage_ops lib = recorder" using lib by (simp_all add: static_lib_def)
  have conf: "server_count ?conf \<noteq> 0" using f by (auto simp: static_conf_def server_count_def)
  have works: "discovery_works lib n st" using static_works [OF lib] f by simp
  obtain st' confs where st': "getOperationHandler lib n st = Inr (RedisHandler i, st')"
    "databaseConfiguration st' = ?conf" "asyncStorages st' = ?ss" "nc_inv confs" "nc_policy confs = nc_policy (ns_confs (ai_env st))"
    "ai_env st' = (ai_env st)\<lparr>ns_confs := confs\<rparr>"
    by (rule first_use [OF libD(1) _ used _ works conf]) (use f in \<open>simp_all add: i_def\<close>)
  have len: "length ?ss = server_count ?conf" "length dbs = length ?ss" using f by (simp_all add: created_storages_def)
  have i: "i < length ?ss" using server_of_less [OF conf, of lib n] by (simp add: len(1) i_def)
  note created = static_created_storages [OF lib, of st _ n]
  let ?st1 = "st'\<lparr>asyncStorages := ?ss[i := (?ss ! i)\<lparr>readyAck := Some ()\<rparr>]\<rparr>"
  let ?v' = "(st'\<lparr>asyncStorages := map found ?ss\<rparr>, dbs)"
  have "rs_dispatcher (?ss ! i) = None" using created [of "?ss ! i"] i f by simp
  then have waiting: "as_waitReadyAsync ?L n ((st, dbs), clock) = Inr ([], ((?st1, dbs), clock))"
    using st'(1,3,6) by (cases st') (simp add: startup_same service_lib_def impl_waitReadyAsync_def on_handler_def libD(2) waitReadyAsync_def)
  have turn: "as_handleEvents ?L ((?st1, dbs), t) = Inr ([CallReady () no_error], (?v', t))" for t
    using first_turn [of ?ss i dbs ?st1 lib redis msgs t] created i len(2) f st'(6) by simp
  have poll: "system_poll ?L pt ((?st1, dbs), t) = Inr (1, True, ((?st1, dbs), t + 1))" for pt t
  proof (rule startup_polls)
    have "(?ss ! i)\<lparr>readyAck := Some ()\<rparr> \<in> set (asyncStorages ?st1)" using i by (simp add: set_update_memI)
    moreover have "static_changes ((?ss ! i)\<lparr>readyAck := Some ()\<rparr>) \<noteq> []" using created [of "?ss ! i"] i f by (auto simp: static_changes_def)
    ultimately show "startup_busy (fst (?st1, dbs))" by (auto simp: startup_busy_def list_ex_iff)
  qed
  have idle: "rs_dispatcher (found s) = Some []" if "s \<in> set ?ss" for s using created [OF _ that] f by simp
  have "service_ok lib redis glob (?v', t)" for t
    using f libD len st'(2,4,6) conf idle by (auto simp: service_ok_def servers_ok_def world_ok_def)
  moreover have "settled ?conf (?v', t)" for t using len(2) st'(2) by (auto simp: settled_def discovered_def)
  moreover have "service_view lib (?v', t) = service_view lib ((st, dbs), clock)" for t using st'(2) by (simp add: service_view_def)
  moreover have "service_allowed (?v', t) = service_allowed ((st, dbs), clock)" for t
    using st'(5,6) by (simp add: service_allowed_def backend_used_def fun_eq_iff)
  moreover obtain clock' where "becomes_ready ?L timeout ((?st1, dbs), clock) (?v', clock')"
    using one_turn_ready [OF _ poll turn timeout, of clock] service_clock unfolding startup_same by blast
  ultimately show ?thesis using waiting by blast
qed

lemma fresh_polls:
  assumes "fresh lib redis glob ((st, dbs), clock)"
  shows "system_poll (startup_lib lib redis msgs) t ((st, dbs), clock) = Inr (0, False, ((st, dbs), clock + 1))"
  using assms by (simp add: system_poll_def startup_lib_def startup_busy_def busy_def fresh_def)

lemma fresh_request:
  assumes fresh: "fresh lib redis glob w" and lib: "static_lib vip clib sops lib" and r: "service_allowed w r"
    and timeout: "waits (operationTimeout s)"
  shows "\<exists>s' w'. sync_request (startup_lib lib redis msgs) r (s, w) =
      Some (Inr (outcome (startup_lib lib redis msgs) (fst (sync_spec1 glob r (service_view lib w))), (s', w'))) \<and>
    operationTimeout s' = operationTimeout s \<and> service_ok lib redis glob w' \<and> settled (databaseConfiguration (fst (fst w))) w' \<and>
    service_view lib w' = snd (sync_spec1 glob r (service_view lib w)) \<and> service_allowed w' = service_allowed w"
proof -
  let ?L = "startup_lib lib redis msgs"
  obtain st dbs clock where w: "w = ((st, dbs), clock)" by (cases w) auto
  let ?w1 = "((st, dbs), clock + 1)"
  have same: "service_view lib ?w1 = service_view lib w" "service_allowed ?w1 = service_allowed w" "fresh lib redis glob ?w1"
    using fresh by (simp_all add: w service_view_def service_allowed_def fun_eq_iff fresh_def)
  have used: "backend_used st (request_ns r)" using r by (simp add: w service_allowed_def)
  obtain w2 w3 where w3: "as_waitReadyAsync ?L (request_ns r) ?w1 = Inr ([], w2)" "becomes_ready ?L (operationTimeout s) w2 w3"
    "service_ok lib redis glob w3 \<and> settled (databaseConfiguration (fst (fst w))) w3" "service_view lib w3 = service_view lib w" "service_allowed w3 = service_allowed w"
    using fresh_becomes_ready [OF same(3) lib used timeout, of msgs] same by (auto simp: w)
  have r3: "service_allowed w3 r" using r w3(5) by simp
  obtain w4 w' where w': "as_perform ?L r w3 = Inr ([], w4)" "delivers ?L w4 (fst (sync_spec1 glob r (service_view lib w))) w'"
    "service_ok lib redis glob w'" "settled (databaseConfiguration (fst (fst w))) w'" "service_view lib w' = snd (sync_spec1 glob r (service_view lib w))"
    "service_allowed w' = service_allowed w"
    using startup_service.answers [OF w3(3) r3] w3(4,5) by metis
  have "answered_by ?L (operationTimeout s) r (fst (sync_spec1 glob r (service_view lib w))) w w'"
    using fresh_polls [OF fresh [unfolded w], of msgs 0] w3(1,2) w'(1,2) unfolding answered_by_def w by blast
  then show ?thesis using sync_request_returns [OF _ sync_spec1_fits] w'(3-6) by (metis after_ack_timeout)
qed

lemma fresh_run:
  assumes fresh: "fresh lib redis glob w" and lib: "static_lib vip clib sops lib" and rs: "\<forall>r\<in>set rs. service_allowed w r"
    and timeout: "waits (operationTimeout s)"
  shows "\<exists>s' w'. sync_run (startup_lib lib redis msgs) rs (s, w) =
      Some (Inr (map (outcome (startup_lib lib redis msgs)) (fst (sync_spec glob rs (service_view lib w))), (s', w'))) \<and>
    databaseConfiguration (fst (fst w')) = databaseConfiguration (fst (fst w)) \<and> service_view lib w' = snd (sync_spec glob rs (service_view lib w))"
proof (cases rs)
  case (Cons r rs')
  let ?L = "startup_lib lib redis msgs" and ?A = "snd (sync_spec1 glob r (service_view lib w))"
  obtain s1 w1 where w1: "sync_request ?L r (s, w) = Some (Inr (outcome ?L (fst (sync_spec1 glob r (service_view lib w))), (s1, w1)))"
    "operationTimeout s1 = operationTimeout s" "service_ok lib redis glob w1 \<and> settled (databaseConfiguration (fst (fst w))) w1" "service_view lib w1 = ?A"
    "service_allowed w1 = service_allowed w"
    using fresh_request [OF fresh lib, of r s msgs] rs timeout Cons by auto
  have "\<And>r. r \<in> set rs' \<Longrightarrow> service_allowed w1 r" using rs Cons w1(5) by simp
  then obtain s' w' where "sync_run ?L rs' (s1, w1) = Some (Inr (map (outcome ?L) (fst (sync_spec glob rs' ?A)), (s', w')))"
    "service_view lib w' = snd (sync_spec glob rs' ?A)" "databaseConfiguration (fst (fst w')) = databaseConfiguration (fst (fst w))"
    using startup_service.run_refines [OF w1(3), of rs' s1 msgs] timeout w1(2,4) by (auto simp: settled_def)
  then show ?thesis using w1(1) by (simp add: Cons split_beta Let_def)
qed auto

lemma fresh_waitReady:
  assumes "fresh lib redis glob w" "static_lib vip clib sops lib" "backend_used (fst (fst w)) n" "waits timeout"
  shows "\<exists>s' w'. waitReady (startup_lib lib redis msgs) n timeout (s, w) = Some (Inr (Inr (), (s', w'))) \<and>
    service_ok lib redis glob w' \<and> settled (databaseConfiguration (fst (fst w))) w' \<and>
    service_view lib w' = service_view lib w \<and> service_allowed w' = service_allowed w"
proof -
  obtain st dbs clock where w: "w = ((st, dbs), clock)" by (cases w) auto
  obtain w1 w2 where "as_waitReadyAsync (startup_lib lib redis msgs) n w = Inr ([], w1)"
    "becomes_ready (startup_lib lib redis msgs) timeout w1 w2" "service_ok lib redis glob w2" "settled (databaseConfiguration st) w2"
    "service_view lib w2 = service_view lib w" "service_allowed w2 = service_allowed w"
    using fresh_becomes_ready [OF assms(1) [unfolded w] assms(2) _ assms(4), of n msgs] assms(3) w by auto
  then show ?thesis
    by (simp add: w waitReady_def waitSdlToBeReady_timeout_def acked_def becomes_ready_def verifyBackendResponse_def waitReadyAck_def
        ec_bool_def no_error_def)
qed

text \<open>What the factory returns.\<close>

lemma read_namespaces_inv:
  assumes "readNamespaceConfigurations ops iter reader NamespaceConfigurationsImpl = Inr confs"
  shows "nc_inv confs"
proof -
  have "for_each (\<lambda>(prefix, ptree, source) ncs. parseNsConfiguration ops ncs prefix ptree source) (iter (jsonNamespaceConfigurations reader))
    NamespaceConfigurationsImpl = Inr confs"
    using assms by (simp add: readNamespaceConfigurations_def parseNsConfigurationMap_def split: if_splits)
  then show ?thesis
    by (rule for_each_invariant) (auto simp: nc_inv_init parseNsConfiguration_def rbind_Inr_iff dest: nc_inv_add)
qed

lemma created_fresh:
  assumes "SyncStorage_create clib ops iter reader eng (None, d) = Inr (s, st)" "static_conf (databaseConfiguration st)"
    "glob_ok glob" "redis_ok glob redis" "length dbs = server_count (databaseConfiguration st)" "\<forall>db\<in>set dbs. finite (dom db)"
  shows "fresh lib redis glob ((st, dbs), clock) \<and> s = SyncStorageImpl"
  using assms
  by (auto simp: SyncStorage_create_def AsyncStorage_create_def createInstance_def AsyncStorageImpl_def rbind_Inr_iff fresh_def
      dest: read_namespaces_inv)

text \<open>C5: from the first call on, a blocking storage just created by the factory in a new process, with
  static addresses configured and one working database per server, behaves as the specification
  says on what the databases hold: the first call creates the Redis storages and waits until they
  are ready, every call returns, with the value or the exception of the specification, and the
  final data is that of the specification.\<close>

theorem created_storage_refines_spec:
  assumes "SyncStorage_create clib ops iter reader eng (None, d) = Inr (s, st)" "static_conf (databaseConfiguration st)"
    "static_lib vip clib sops lib" "glob_ok glob" "redis_ok glob redis"
    "length dbs = server_count (databaseConfiguration st)" "\<forall>db\<in>set dbs. finite (dom db)"
    "\<forall>r\<in>set rs. backend_used st (request_ns r) \<and> (isValidNamespace (request_ns r) \<longrightarrow> \<not> no_keys_given r \<longrightarrow> request_ok r)"
  defines "data \<equiv> servers_view lib (databaseConfiguration st)"
  shows "\<exists>s' st' dbs' clock'. sync_run (startup_lib lib redis msgs) rs (s, ((st, dbs), clock)) =
      Some (Inr (map (outcome (startup_lib lib redis msgs)) (fst (sync_spec glob rs (data dbs))), (s', ((st', dbs'), clock')))) \<and>
    data dbs' = snd (sync_spec glob rs (data dbs))"
proof -
  let ?w = "((st, dbs), clock)"
  have fresh: "fresh lib redis glob ?w" and s: "s = SyncStorageImpl" using created_fresh [OF assms(1,2,4-7)] by blast+
  have view: "service_view lib ?w = data dbs" by (simp add: service_view_def data_def)
  have "\<forall>r\<in>set rs. service_allowed ?w r" using assms(8) by (simp add: service_allowed_def)
  moreover have "waits (operationTimeout s)" by (simp add: s waits_def SyncStorageImpl_def)
  ultimately obtain s' w' where run: "sync_run (startup_lib lib redis msgs) rs (s, ?w) =
      Some (Inr (map (outcome (startup_lib lib redis msgs)) (fst (sync_spec glob rs (data dbs))), (s', w')))"
    "databaseConfiguration (fst (fst w')) = databaseConfiguration st" "service_view lib w' = snd (sync_spec glob rs (data dbs))"
    using fresh_run [OF fresh assms(3), of rs s msgs] view by auto
  then show ?thesis by (cases w') (auto simp: service_view_def data_def)
qed

text \<open>Two servers configured by the environment of the process.\<close>

definition no_json :: "unit ptree_ops" where
  "no_json = \<lparr>get_child_optional = \<lambda>_ _. None, ptree_children = \<lambda>_. [], get_string = \<lambda>_ _. BadPath, get_bool = \<lambda>_ _. BadPath\<rparr>"

definition env_reader :: "unit configurationReader result" where
  "env_reader = ConfigurationReader no_json (\<lambda>_. Parsed ()) (\<lambda>_ _. False) (\<lambda>_. None)
     (\<lambda>name. if name = DB_HOST_ENV_VAR_NAME then Some ''db'' else if name = DB_CLUSTER_ADDR_LIST_ENV_VAR_NAME then Some ''db,dc'' else None) []"

definition env_conf :: databaseConfiguration where
  "env_conf = DatabaseConfigurationImpl\<lparr>dbType := SDL_STANDALONE_CLUSTER, serverAddresses :=
     [\<lparr>host = ''db'', port = htons DEFAULT_PORT, literalIPv6 = False\<rparr>, \<lparr>host = ''dc'', port = htons DEFAULT_PORT, literalIPv6 = False\<rparr>]\<rparr>"

definition env_impl :: "(unit, unit cmds, string list list databaseDiscovery) impl_state" where
  "env_impl = \<lparr>engine_id = 0, ai_env = \<lparr>ns_confs = NamespaceConfigurationsImpl, posted = [], called = []\<rparr>, databaseConfiguration = env_conf,
     ai_publisherId = None, asyncStorages = [], static_serverCount = None, static_dummyEngine = None, foreign_posts = []\<rparr>"

definition env_lib :: "(unit, unit cmds, string list list databaseDiscovery) impl_lib" where
  "env_lib = \<lparr>storage_ops = recorder, storage_discovery = databaseDiscovery_ops sample_sentinel_ops,
     asyncDatabaseDiscoveryCreator = \<lambda>n. create_discovery False True sample_conf_lib sample_sentinel_ops (Some n),
     crc32 = \<lambda>s. of_nat (length s), HAVE_REDIS = True\<rparr>"

lemma env_create: "SyncStorage_create sample_conf_lib no_json id env_reader 0 (None, None) = Inr (SyncStorageImpl, env_impl)"
proof -
  have addr: "validateAndSetDbServerAddress sample_conf_lib a c src = Inr (c\<lparr>serverAddresses :=
      serverAddresses c @ [\<lparr>host = a, port = htons DEFAULT_PORT, literalIPv6 = False\<rparr>]\<rparr>)" if "a \<in> {''db'', ''dc''}" for a c src
    using that by (auto simp: validateAndSetDbServerAddress_def checkAndApplyServerAddress_def HostAndPort_def isInBrackets_def parse_def str_rfind_def)
  have "servers_loop sample_conf_lib ''db,dc'' src 0 c = Inr (c\<lparr>serverAddresses := serverAddresses c @
      [\<lparr>host = ''db'', port = htons DEFAULT_PORT, literalIPv6 = False\<rparr>, \<lparr>host = ''dc'', port = htons DEFAULT_PORT, literalIPv6 = False\<rparr>]\<rparr>)" for src c
    using servers_loop_elements [of "[''db'', ''dc'']" sample_conf_lib "[]" src c] by (simp add: addr)
  then show ?thesis
    by (simp add: SyncStorage_create_def AsyncStorage_create_def createInstance_def AsyncStorageImpl_def env_impl_def
        readNamespaceConfigurations_def parseNsConfigurationMap_def Namespace_Configurations.isEmpty_def NamespaceConfigurationsImpl_def
        readDatabaseConfiguration_def env_reader_def ConfigurationReader_def readConfigurationFromDirectories_def
        findConfigurationFiles_def env_value_def env_db_type_and_addresses_def validateAndSetDbType_def checkAndApplyDbType_def
        parseDatabaseServersConfigurationFromString_def Database_Configuration.isEmpty_def DatabaseConfigurationImpl_def getDbType_def env_conf_def)
qed

lemma env_facts:
  "static_conf (databaseConfiguration env_impl)" "static_lib False sample_conf_lib sample_sentinel_ops env_lib"
  "server_count (databaseConfiguration env_impl) = 2" "backend_used env_impl n"
  by (simp_all add: static_conf_def static_lib_def env_lib_def env_impl_def env_conf_def getDbType_def getServerAddresses_def server_count_def
      is_sdl_cluster_def backend_used_def nc_policy_def NamespaceConfigurationsImpl_def search_index_def search_step_def
      getDefaultNamespaceConfiguration_def defaultConfigurationIndex_def)

lemma env_view: "servers_view env_lib (databaseConfiguration env_impl) [Map.empty, Map.empty] = (\<lambda>_ _. None)"
proof -
  have "server_of env_lib (databaseConfiguration env_impl) n < 2" for n
    using server_of_less [of "databaseConfiguration env_impl" env_lib n] env_facts(3) by simp
  then have "([Map.empty, Map.empty] :: store list) ! server_of env_lib (databaseConfiguration env_impl) n = Map.empty" for n :: namespace
    by (metis One_nat_def less_2_cases nth_Cons_0 nth_Cons_Suc)
  then show ?thesis by (simp add: servers_view_def fun_eq_iff sdl_view_def)
qed

theorem created_storage_refines_spec_witness:
  "\<exists>s' w'. sync_run (startup_lib env_lib sample_redis (\<lambda>_ _. []))
       [SetIfNotExists ''ab'' ''k'' [1] (), Get ''abc'' [''k''] (), Get ''ab'' [''k''] ()] (SyncStorageImpl, ((env_impl, [Map.empty, Map.empty]), 0)) =
     Some (Inr ([Inr (Status True), Inr (Data []), Inr (Data [(''k'', [1])])], (s', w')))"
  using created_storage_refines_spec [OF env_create env_facts(1,2) sample_glob_ok sample_redis_ok, of "[Map.empty, Map.empty]"
      "[SetIfNotExists ''ab'' ''k'' [1] (), Get ''abc'' [''k''] (), Get ''ab'' [''k''] ()]" "\<lambda>_ _. []" 0]
  by (fastforce simp: env_facts(3,4) env_view isValidNamespace_iff sync_spec1_def outcome_def no_error_def ec_bool_def)

end
