(* ===== verification/Command_Line.thy ===== *)
theory Command_Line
  imports Startup
begin

text \<open>
  The command line tool (\<open>src/cli\<close>): the map of commands, the parsing and execution of a command
  line, and the commands \<open>get\<close>, \<open>set\<close>, \<open>listkeys\<close> and \<open>test-get-set\<close> over the blocking storage.

  The output streams are strings of the state, so that what was written before an exception is
  kept; a command returns its status or a failure, and \<open>None\<close> is not returning. \<open>program_options\<close> is
  an argument: its descriptions of options are values of a type \<open>'o\<close>, the parsed options of a
  command values of a type \<open>'v\<close>. The factory \<open>SyncStorage::create\<close> and the clock are arguments too.
\<close>

section \<open>Streams and status\<close>

record 'w cli_state =
  cli_out :: string
  cli_err :: string
  cli_world :: 'w

type_synonym ('a, 'w) cli = "('a result \<times> 'w cli_state) option"

definition EXIT_SUCCESS :: int where "EXIT_SUCCESS = 0"

definition EXIT_FAILURE :: int where "EXIT_FAILURE = 1"

definition endl :: string where "endl = [CHR 0x0A]"

definition print_out :: "string \<Rightarrow> 'w cli_state \<Rightarrow> 'w cli_state" where
  "print_out s st = st\<lparr>cli_out := cli_out st @ s\<rparr>"

definition print_err :: "string \<Rightarrow> 'w cli_state \<Rightarrow> 'w cli_state" where
  "print_err s st = st\<lparr>cli_err := cli_err st @ s\<rparr>"

definition cbind :: "('a, 'w) cli \<Rightarrow> ('a \<Rightarrow> 'w cli_state \<Rightarrow> ('b, 'w) cli) \<Rightarrow> ('b, 'w) cli" where
  "cbind m f = (case m of None \<Rightarrow> None | Some (Inl e, st) \<Rightarrow> Some (Inl e, st) | Some (Inr x, st) \<Rightarrow> f x st)"

lemma cbind_simps [simp]:
  "cbind None f = None" "cbind (Some (Inl e, st)) f = Some (Inl e, st)" "cbind (Some (Inr x, st)) f = f x st"
  by (simp_all add: cbind_def)

text \<open>\<open>catch (const shareddatalayer::Exception&)\<close> with a handler that prints.\<close>

definition catch_sdl :: "(string \<Rightarrow> string) \<Rightarrow> 'a \<Rightarrow> failure \<Rightarrow> 'w cli_state \<Rightarrow> 'a result \<times> 'w cli_state" where
  "catch_sdl msg v f st =
     (case f of
        Throw e \<Rightarrow> if is_sdl_exception e then (Inr v, print_out (msg (what e)) st) else (Inl f, st)
      | _ \<Rightarrow> (Inl f, st))"

section \<open>CommandMap\<close>

datatype category = UNDEFINED | UTIL

text \<open>The order of the enumeration, by which \<open>std::map\<close> sorts the categories.\<close>

instantiation category :: linorder
begin

definition less_eq_category :: "category \<Rightarrow> category \<Rightarrow> bool" where
  "less_eq_category a b \<longleftrightarrow> a = UNDEFINED \<or> b = UTIL"

definition less_category :: "category \<Rightarrow> category \<Rightarrow> bool" where
  "less_category a b \<longleftrightarrow> a = UNDEFINED \<and> b = UTIL"

instance
proof
  fix x y z :: category
  show "x < y \<longleftrightarrow> x \<le> y \<and> \<not> y \<le> x" by (cases x; cases y) (simp_all add: less_eq_category_def less_category_def)
  show "x \<le> x" by (cases x) (simp_all add: less_eq_category_def)
  show "x \<le> z" if "x \<le> y" "y \<le> z" using that by (cases x; cases y; cases z) (simp_all add: less_eq_category_def)
  show "x = y" if "x \<le> y" "y \<le> x" using that by (cases x; cases y) (simp_all add: less_eq_category_def)
  show "x \<le> y \<or> y \<le> x" by (cases x; cases y) (simp_all add: less_eq_category_def)
qed

end

type_synonym ('v, 'w) commandFunction = "'v \<Rightarrow> 'w cli_state \<Rightarrow> (int, 'w) cli"

record ('o, 'v, 'w) info =
  ci_function :: "('v, 'w) commandFunction"
  ci_shortHelp :: string
  ci_longHelp :: string
  ci_options :: 'o

record ('o, 'v, 'w) commandMap =
  command_map :: "(string \<times> ('o, 'v, 'w) info) list"
  categoryMap :: "((category \<times> int) \<times> string) list"

record ('o, 'v) po_lib =
  option_names :: "'o \<Rightarrow> string list"
  po_print :: "'o \<Rightarrow> string"
  commonVisibleOpts :: 'o
  PACKAGE_STRING :: string

definition getCategoryName :: "category \<Rightarrow> string" where
  "getCategoryName c = (case c of UTIL \<Rightarrow> ''Utility'' | _ \<Rightarrow> ''Unknown'')"

definition CommandMap :: "('o, 'v, 'w) commandMap" where
  "CommandMap = \<lparr>command_map = [], categoryMap = []\<rparr>"

text \<open>The new entry stays in the map when the offset of the category is taken. The options are added
  to the returned description afterwards.\<close>

definition registerCommand ::
  "string \<Rightarrow> ('o, 'v, 'w) info \<Rightarrow> category \<Rightarrow> int \<Rightarrow> ('o, 'v, 'w) commandMap \<Rightarrow> unit result \<times> ('o, 'v, 'w) commandMap" where
  "registerCommand commandName info category categoryOffset m =
     (if commandName \<in> fst ` set (command_map m) then (Inl (Throw (CommandNameAlreadyRegistered commandName)), m)
      else let m1 = m\<lparr>command_map := map_insert commandName info (command_map m)\<rparr>
           in if (category, categoryOffset) \<in> fst ` set (categoryMap m)
              then (Inl (Throw (CategoryOffsetAlreadyRegistered commandName categoryOffset)), m1)
              else (Inr (), m1\<lparr>categoryMap := map_insert (category, categoryOffset) commandName (categoryMap m)\<rparr>))"

definition getCommandNames :: "('o, 'v, 'w) commandMap \<Rightarrow> string list" where
  "getCommandNames m = map fst (command_map m)"

definition getCommandOptions :: "string \<Rightarrow> ('o, 'v, 'w) commandMap \<Rightarrow> 'o result" where
  "getCommandOptions commandName m =
     (case map_of (command_map m) commandName of
        None \<Rightarrow> Inl (Throw (UnknownCommandName commandName)) | Some i \<Rightarrow> Inr (ci_options i))"

definition setw_left :: "nat \<Rightarrow> string \<Rightarrow> string" where
  "setw_left w s = s @ replicate (w - length s) (CHR '' '')"

definition shortHelp_line ::
  "nat \<Rightarrow> ('o, 'v, 'w) commandMap \<Rightarrow> (category \<times> int) \<times> string \<Rightarrow> category \<times> string \<Rightarrow> (category \<times> string) result" where
  "shortHelp_line maxWidth m i acc =
     (let (currentCategory, text) = acc;
          cat = fst (fst i);
          text1 = (if currentCategory \<noteq> cat then text @ endl @ getCategoryName cat @ '' commands:'' @ endl else text)
      in case map_of (command_map m) (snd i) of
           None \<Rightarrow> Inl (Throw StdOutOfRange)
         | Some entry \<Rightarrow> Inr (cat, text1 @ setw_left (maxWidth + 2) (snd i) @ ci_shortHelp entry @ endl))"

definition max_width :: "('o, 'v, 'w) commandMap \<Rightarrow> nat" where
  "max_width m = fold (\<lambda>i w. if w < length (fst i) then length (fst i) else w) (command_map m) 0"

definition shortHelp :: "('o, 'v, 'w) commandMap \<Rightarrow> string result" where
  "shortHelp m = rbind (for_each (shortHelp_line (max_width m) m) (categoryMap m) (UNDEFINED, [])) (\<lambda>acc. Inr (snd acc))"

definition longHelp :: "('o, 'v) po_lib \<Rightarrow> string \<Rightarrow> ('o, 'v, 'w) commandMap \<Rightarrow> string result" where
  "longHelp po commandName m =
     (case map_of (command_map m) commandName of
        None \<Rightarrow> Inl (Throw (UnknownCommandName commandName))
      | Some i \<Rightarrow>
          Inr (commandName @ (if option_names po (ci_options i) \<noteq> []
               then '' OPTIONS'' @ endl @ endl @ ci_longHelp i @ endl @ endl @ ''Options:'' @ endl @ po_print po (ci_options i)
               else endl @ endl @ ci_longHelp i @ endl)))"

fun repeat_command :: "('v, 'w) commandFunction \<Rightarrow> 'v \<Rightarrow> nat \<Rightarrow> int \<Rightarrow> 'w cli_state \<Rightarrow> (int, 'w) cli" where
  "repeat_command f params 0 ret st = Some (Inr ret, st)"
| "repeat_command f params (Suc n) ret st =
     cbind (f params st) (\<lambda>ret st. if ret \<noteq> EXIT_SUCCESS then Some (Inr ret, st) else repeat_command f params n ret st)"

definition execute :: "string \<Rightarrow> 'v \<Rightarrow> nat \<Rightarrow> ('o, 'v, 'w) commandMap \<Rightarrow> 'w cli_state \<Rightarrow> (int, 'w) cli" where
  "execute commandName params n m st =
     (case map_of (command_map m) commandName of
        None \<Rightarrow> Some (Inr EXIT_FAILURE, print_err (''unknown command: '' @ dquote @ commandName @ dquote @ endl) st)
      | Some i \<Rightarrow> repeat_command (ci_function i) params n EXIT_SUCCESS st)"


section \<open>Parsing and executing\<close>

text \<open>What \<open>privateParseAndExecute\<close> reads from the options that all commands have, with the
  unrecognised and positional arguments; the parser may throw.\<close>

record common_vars =
  pos_command :: "string option"
  count_help :: bool
  count_bash_completion :: bool
  count_version :: bool
  repeat_value :: nat
  unrecognized :: "string list"

definition bash_script :: string where
  "bash_script = dquote @ endl @
     ''    local cur='' @ dquote @ ''${COMP_WORDS[COMP_CWORD]}'' @ dquote @ endl @ endl @
     ''    if [[ ${cur} == -* ]] ; then'' @ endl @
     ''        COMPREPLY=( $(compgen -W '' @ dquote @ ''${options}'' @ dquote @ '' -- ${cur}) )'' @ endl @
     ''        return 0'' @ endl @ ''    else'' @ endl @
     ''        COMPREPLY=( $(compgen -W '' @ dquote @ ''${commands}'' @ dquote @ '' -- ${cur}) )'' @ endl @
     ''        return 0'' @ endl @ ''    fi'' @ endl @ ''}'' @ endl @ ''complete -F _sdltool sdltool'' @ endl"

definition outputBashCompletion :: "('o, 'v) po_lib \<Rightarrow> ('o, 'v, 'w) commandMap \<Rightarrow> string result" where
  "outputBashCompletion po m =
     (let commandNames = getCommandNames m;
          insert_names = (\<lambda>opts names. fold set_insert (option_names po opts) names)
      in rbind (for_each (\<lambda>i names. rbind (getCommandOptions i m) (\<lambda>opts. Inr (insert_names opts names)))
                  commandNames (insert_names (commonVisibleOpts po) [])) (\<lambda>optionNames.
         Inr (''_sdltool()'' @ endl @ ''{'' @ endl @ ''    COMPREPLY=()'' @ endl @ ''    local commands='' @ dquote @
              concat (map (\<lambda>i. i @ '' '') commandNames) @ dquote @ endl @ ''    local options='' @ dquote @
              concat (map (\<lambda>i. ''--'' @ i @ '' '') optionNames) @ bash_script)))"

definition printShortHelp :: "('o, 'v) po_lib \<Rightarrow> ('o, 'v, 'w) commandMap \<Rightarrow> (string \<Rightarrow> 'w cli_state \<Rightarrow> 'w cli_state) \<Rightarrow> 'w cli_state \<Rightarrow> (unit, 'w) cli" where
  "printShortHelp po m print st =
     (let st1 = print (''Usage: sdltool [OPTIONS] COMMAND [COMMAND SPECIFIC OPTIONS]'' @ endl @ endl @
                        po_print po (commonVisibleOpts po) @ endl @ ''Available commands:'' @ endl) st
      in case shortHelp m of Inl f \<Rightarrow> Some (Inl f, st1) | Inr h \<Rightarrow> Some (Inr (), print h st1))"

definition missing_command ::
  "('o, 'v) po_lib \<Rightarrow> common_vars \<Rightarrow> ('o, 'v, 'w) commandMap \<Rightarrow> 'w cli_state \<Rightarrow> (int, 'w) cli" where
  "missing_command po vars m st =
     (if count_help vars then cbind (printShortHelp po m print_out st) (\<lambda>_ st. Some (Inr EXIT_SUCCESS, st))
      else if count_bash_completion vars
      then (case outputBashCompletion po m of
              Inl f \<Rightarrow> Some (Inl f, st) | Inr s \<Rightarrow> Some (Inr EXIT_SUCCESS, print_out s st))
      else if count_version vars then Some (Inr EXIT_SUCCESS, print_out (PACKAGE_STRING po @ endl) st)
      else cbind (printShortHelp po m print_err (print_err (''missing command'' @ endl @ endl) st))
             (\<lambda>_ st. Some (Inr EXIT_FAILURE, st)))"

definition privateParseAndExecute ::
  "('o, 'v) po_lib \<Rightarrow> common_vars result \<Rightarrow> ('o \<Rightarrow> string list \<Rightarrow> 'v result) \<Rightarrow> ('o, 'v, 'w) commandMap \<Rightarrow> 'w cli_state \<Rightarrow> (int, 'w) cli" where
  "privateParseAndExecute po commonParsed parse_sub m st =
     (case commonParsed of
        Inl f \<Rightarrow> Some (Inl f, st)
      | Inr vars \<Rightarrow>
          (case pos_command vars of
             None \<Rightarrow> missing_command po vars m st
           | Some commandName \<Rightarrow>
               let leftOverOpts = tl (unrecognized vars)
               in if count_help vars
                  then (case longHelp po commandName m of
                          Inr h \<Rightarrow> Some (Inr EXIT_SUCCESS, print_out (h @ endl) st)
                        | Inl (Throw (UnknownCommandName _)) \<Rightarrow>
                            Some (Inr EXIT_FAILURE, print_err (''unknown command: '' @ dquote @ commandName @ dquote @ endl) st)
                        | Inl f \<Rightarrow> Some (Inl f, st))
                  else (case getCommandOptions commandName m of
                          Inl f \<Rightarrow> Some (Inl f, st)
                        | Inr commandOptions \<Rightarrow>
                            (case parse_sub commandOptions leftOverOpts of
                               Inl f \<Rightarrow> Some (Inl f, st)
                             | Inr subcmdVars \<Rightarrow> execute commandName subcmdVars (repeat_value vars) m st))))"

text \<open>\<open>catch (const std::exception&)\<close>: every exception of the model is one.\<close>

definition parseAndExecute ::
  "('o, 'v) po_lib \<Rightarrow> (string list \<Rightarrow> common_vars result) \<Rightarrow> ('o \<Rightarrow> string list \<Rightarrow> 'v result) \<Rightarrow> string list \<Rightarrow>
   ('o, 'v, 'w) commandMap \<Rightarrow> 'w cli_state \<Rightarrow> (int, 'w) cli" where
  "parseAndExecute po parse_common parse_sub args m st =
     (case privateParseAndExecute po (parse_common args) parse_sub m st of
        Some (Inl (Throw e), st') \<Rightarrow> Some (Inr EXIT_FAILURE, print_err (what e @ endl) st')
      | r \<Rightarrow> r)"

section \<open>Commands\<close>

record ('v, 'w) cli_lib =
  cli_sync :: "'w sync_lib"
  sync_create :: "'w \<Rightarrow> 'w sync result"
  hr_now :: "'w \<Rightarrow> int \<times> 'w"
  string_var :: "'v \<Rightarrow> string \<Rightarrow> string"
  int_var :: "'v \<Rightarrow> string \<Rightarrow> int"
  bool_var :: "'v \<Rightarrow> string \<Rightarrow> bool"

definition one_minute :: int where "one_minute = 60 * 1000000000"

definition five_seconds :: int where "five_seconds = 5 * 1000000000"

text \<open>A call of the storage in a try block: what is printed of its value, and of an exception of the
  library. The value is the storage object after the call.\<close>

definition guarded ::
  "('a result \<times> 'w sync) run \<Rightarrow> ('a \<Rightarrow> string) \<Rightarrow> (string \<Rightarrow> string) \<Rightarrow> syncStorageImpl \<Rightarrow> 'w cli_state \<Rightarrow> (syncStorageImpl, 'w) cli" where
  "guarded call shown failed s st =
     (case call of
        None \<Rightarrow> None
      | Some (Inl f) \<Rightarrow> Some (catch_sdl failed s f st)
      | Some (Inr (v, (s', w'))) \<Rightarrow>
          (let st' = st\<lparr>cli_world := w'\<rparr>
           in case v of Inr x \<Rightarrow> Some (Inr s', print_out (shown x) st') | Inl f \<Rightarrow> Some (catch_sdl failed s' f st')))"

definition createSyncStorage :: "('v, 'w) cli_lib \<Rightarrow> namespace \<Rightarrow> 'w cli_state \<Rightarrow> (syncStorageImpl option, 'w) cli" where
  "createSyncStorage lib ns st =
     (let failed = (\<lambda>msg. ''SyncStorage create failed: '' @ msg @ endl)
      in case sync_create lib (cli_world st) of
           Inl f \<Rightarrow> Some (catch_sdl failed None f st)
         | Inr sw \<Rightarrow>
             (case waitReady (cli_sync lib) ns one_minute sw of
                None \<Rightarrow> None
              | Some (Inl f) \<Rightarrow> Some (catch_sdl failed None f st)
              | Some (Inr (v, (s, w))) \<Rightarrow>
                  (let st' = st\<lparr>cli_world := w\<rparr>
                   in case v of Inr _ \<Rightarrow> Some (Inr (Some s), st') | Inl f \<Rightarrow> Some (catch_sdl failed None f st'))))"

definition print_data :: "data \<Rightarrow> string" where
  "print_data d = map char_of_byte d"

definition print_dataMap :: "dataMap \<Rightarrow> string" where
  "print_dataMap m = concat (map (\<lambda>(k, d). k @ '' '' @ print_data d) m)"

definition cli_get :: "('v, 'w) cli_lib \<Rightarrow> syncStorageImpl \<Rightarrow> namespace \<Rightarrow> key \<Rightarrow> 'w cli_state \<Rightarrow> (syncStorageImpl, 'w) cli" where
  "cli_get lib s ns k st =
     guarded (sync_get (cli_sync lib) ns [k] (s, cli_world st)) (\<lambda>m. print_dataMap m @ endl)
       (\<lambda>msg. ''get('' @ ns @ '', '' @ k @ '') failed: '' @ msg @ endl) s st"

definition getCommand :: "('v, 'w) cli_lib \<Rightarrow> 'v \<Rightarrow> 'w cli_state \<Rightarrow> (int, 'w) cli" where
  "getCommand lib vars st =
     (let ns = string_var lib vars ''ns''; k = string_var lib vars ''key''
      in cbind (createSyncStorage lib ns st) (\<lambda>sdl st.
           case sdl of
             None \<Rightarrow> Some (Inr EXIT_FAILURE, st)
           | Some s \<Rightarrow> cbind (cli_get lib (setOperationTimeout five_seconds s) ns k st) (\<lambda>_ st. Some (Inr EXIT_SUCCESS, st))))"

definition cli_set :: "('v, 'w) cli_lib \<Rightarrow> syncStorageImpl \<Rightarrow> namespace \<Rightarrow> dataMap \<Rightarrow> 'w cli_state \<Rightarrow> (syncStorageImpl, 'w) cli" where
  "cli_set lib s ns m st =
     guarded (sync_set (cli_sync lib) ns m (s, cli_world st)) (\<lambda>_. ''set {'' @ ns @ ''},'' @ print_dataMap m @ endl)
       (\<lambda>msg. ''Error in set('' @ ns @ '', '' @ print_dataMap m @ '') failed: '' @ msg @ endl) s st"

definition setCommand :: "('v, 'w) cli_lib \<Rightarrow> 'v \<Rightarrow> 'w cli_state \<Rightarrow> (int, 'w) cli" where
  "setCommand lib vars st =
     (let ns = string_var lib vars ''ns''; k = string_var lib vars ''key''; d = string_var lib vars ''data'';
          dataVector = map byte_of_char d
      in cbind (createSyncStorage lib ns st) (\<lambda>sdl st.
           case sdl of
             None \<Rightarrow> Some (Inr EXIT_FAILURE, st)
           | Some s \<Rightarrow>
               let st' = (if bool_var lib vars ''debug''
                          then print_out (''DEBUG setCommand ns: '' @ ns @ '' key: '' @ k @ '' data: '' @ d @ endl) st else st)
               in cbind (cli_set lib (setOperationTimeout five_seconds s) ns [(k, dataVector)] st') (\<lambda>_ st. Some (Inr EXIT_SUCCESS, st))))"

definition listkeys :: "('v, 'w) cli_lib \<Rightarrow> syncStorageImpl \<Rightarrow> namespace \<Rightarrow> string \<Rightarrow> 'w cli_state \<Rightarrow> (syncStorageImpl, 'w) cli" where
  "listkeys lib s ns pattern st =
     guarded (sync_listKeys (cli_sync lib) ns pattern (s, cli_world st)) (\<lambda>ks. concat (map (\<lambda>k. k @ endl) ks))
       (\<lambda>msg. ''listKeys('' @ ns @ '', '' @ pattern @ '') failed: '' @ msg @ endl) s st"

definition listKeysCommand :: "('v, 'w) cli_lib \<Rightarrow> 'v \<Rightarrow> 'w cli_state \<Rightarrow> (int, 'w) cli" where
  "listKeysCommand lib vars st =
     (let ns = string_var lib vars ''ns''; pattern = string_var lib vars ''pattern''
      in cbind (createSyncStorage lib ns st) (\<lambda>sdl st.
           case sdl of
             None \<Rightarrow> Some (Inr EXIT_FAILURE, st)
           | Some s \<Rightarrow> cbind (listkeys lib (setOperationTimeout five_seconds s) ns pattern st) (\<lambda>_ st. Some (Inr EXIT_SUCCESS, st))))"


text \<open>\<open>test-get-set\<close>: its timeout thread is in \<open>Tool_Timeout\<close>.\<close>

definition test_createSyncStorage :: "('v, 'w) cli_lib \<Rightarrow> namespace \<Rightarrow> 'w cli_state \<Rightarrow> (syncStorageImpl option, 'w) cli" where
  "test_createSyncStorage lib ns st =
     cbind (createSyncStorage lib ns st) (\<lambda>sdl st.
       case sdl of
         Some s \<Rightarrow> Some (Inr (Some (setOperationTimeout five_seconds s)), st)
       | None \<Rightarrow> Some (Inr None, print_out (''Test suspended!'' @ endl) st))"

definition execRemoveAll :: "('v, 'w) cli_lib \<Rightarrow> syncStorageImpl \<Rightarrow> namespace \<Rightarrow> 'w cli_state \<Rightarrow> (syncStorageImpl, 'w) cli" where
  "execRemoveAll lib s ns st =
     guarded (sync_removeAll (cli_sync lib) ns (s, cli_world st)) (\<lambda>_. [])
       (\<lambda>msg. ''removeAll failed: '' @ msg @ endl) s st"

definition execSet :: "('v, 'w) cli_lib \<Rightarrow> syncStorageImpl \<Rightarrow> namespace \<Rightarrow> key \<Rightarrow> data \<Rightarrow> 'w cli_state \<Rightarrow> (syncStorageImpl, 'w) cli" where
  "execSet lib s ns k v st =
     guarded (sync_set (cli_sync lib) ns [(k, v)] (s, cli_world st)) (\<lambda>_. [])
       (\<lambda>msg. ''Set '' @ k @ '' failed: '' @ msg @ endl) s st"

definition execGet :: "('v, 'w) cli_lib \<Rightarrow> syncStorageImpl \<Rightarrow> namespace \<Rightarrow> key \<Rightarrow> data \<Rightarrow> 'w cli_state \<Rightarrow> (syncStorageImpl, 'w) cli" where
  "execGet lib s ns k v st =
     guarded (sync_get (cli_sync lib) ns [k] (s, cli_world st))
       (\<lambda>m. case map_of m k of
              None \<Rightarrow> ''Get '' @ k @ '': Not found!'' @ endl
            | Some d \<Rightarrow> if d \<noteq> v then ''Get '' @ k @ '': Wrong value!'' @ endl else [])
       (\<lambda>msg. ''Get '' @ k @ '' failed: '' @ msg @ endl) s st"

definition hr_clock :: "('v, 'w) cli_lib \<Rightarrow> 'w cli_state \<Rightarrow> int \<times> 'w cli_state" where
  "hr_clock lib st = (case hr_now lib (cli_world st) of (t, w) \<Rightarrow> (t, st\<lparr>cli_world := w\<rparr>))"

definition timed :: "('v, 'w) cli_lib \<Rightarrow> ('w cli_state \<Rightarrow> (syncStorageImpl, 'w) cli) \<Rightarrow> 'w cli_state \<Rightarrow> (int \<times> syncStorageImpl, 'w) cli" where
  "timed lib f st =
     (let (start, st1) = hr_clock lib st
      in cbind (f st1) (\<lambda>s st2. let (stop, st3) = hr_clock lib st2
           in Some (Inr (truncated_div (stop - start) 1000, s), st3)))"

fun test_keys :: "('v, 'w) cli_lib \<Rightarrow> namespace \<Rightarrow> nat \<Rightarrow> 8 word \<Rightarrow> syncStorageImpl \<Rightarrow> 'w cli_state \<Rightarrow> (syncStorageImpl, 'w) cli" where
  "test_keys lib ns 0 v s st = Some (Inr s, st)"
| "test_keys lib ns (Suc n) v s st =
     (let k = ''key_'' @ show_nat (unat v)
      in cbind (timed lib (execSet lib s ns k [v]) st) (\<lambda>(write_us, s) st.
         cbind (timed lib (execGet lib s ns k [v]) st) (\<lambda>(read_us, s) st.
           test_keys lib ns n (v + 1) s
             (print_out (ns @ [CHR 0x09] @ k @ [CHR 0x09] @ show_nat (unat v) @ [CHR 0x09] @ show_int write_us @ [CHR 0x09] @
                show_int read_us @ endl) st))))"

definition TestGetSetCommand :: "('v, 'w) cli_lib \<Rightarrow> 'v \<Rightarrow> 'w cli_state \<Rightarrow> (int, 'w) cli" where
  "TestGetSetCommand lib vars st =
     (let keyCount = int_var lib vars ''key-count''; ns = string_var lib vars ''ns''
      in cbind (test_createSyncStorage lib ns st) (\<lambda>sdl st.
           case sdl of
             None \<Rightarrow> Some (Inr EXIT_FAILURE, st)
           | Some s \<Rightarrow>
               cbind (test_keys lib ns (nat keyCount) 0 s
                        (print_out (''namespace'' @ [CHR 0x09] @ ''key'' @ [CHR 0x09] @ ''value'' @ [CHR 0x09] @ ''Write'' @ [CHR 0x09] @
                           ''Read'' @ endl) st)) (\<lambda>s st.
               cbind (timed lib (execRemoveAll lib s ns) st) (\<lambda>(used_us, s) st.
                 Some (Inr EXIT_SUCCESS, print_out (''All test keys removed in '' @ show_int used_us @ '' microseconds'' @ endl) st)))))"

text \<open>\<open>dump-configuration\<close>: the directories, the lines of the files and the errors of the JSON parser
  are arguments.\<close>

record dump_lib =
  read_json_error :: "string \<Rightarrow> (nat \<times> string) option"
  file_lines :: "string \<Rightarrow> string list option"
  dump_getenv :: "string \<Rightarrow> string option"
  dump_listing :: "string \<Rightarrow> dir_entry list option"
  dump_ends_with :: "string \<Rightarrow> string \<Rightarrow> bool"
  SDL_CONF_DIR :: string
  PACKAGE_NAME :: string

definition getDefaultConfDirectories :: "dump_lib \<Rightarrow> string list" where
  "getDefaultConfDirectories lib = [SDL_CONF_DIR lib, ''/run/'' @ PACKAGE_NAME lib @ ''.d'']"

definition parseConfiguration :: "dump_lib \<Rightarrow> string \<Rightarrow> 'w cli_state \<Rightarrow> bool \<times> 'w cli_state" where
  "parseConfiguration lib file st =
     (case read_json_error lib file of
        Some (line, message) \<Rightarrow>
          (False, print_err (''error in SDL configuration '' @ file @ '' at line '' @ show_nat line @ '': '' @ message @ endl) st)
      | None \<Rightarrow> (True, st))"

fun dump_lines :: "nat \<Rightarrow> string list \<Rightarrow> string" where
  "dump_lines lineNum [] = []"
| "dump_lines lineNum (l # ls) = show_nat lineNum @ '': '' @ l @ endl @ dump_lines (lineNum + 1) ls"

definition dump_file :: "dump_lib \<Rightarrow> string \<Rightarrow> bool \<times> 'w cli_state \<Rightarrow> bool \<times> 'w cli_state" where
  "dump_file lib i acc =
     (let (status, st) = acc; st1 = print_out (''File: '' @ i @ endl) st
      in case file_lines lib i of
           None \<Rightarrow> (status, st1)
         | Some ls \<Rightarrow>
             (let (parseStatus, st2) = parseConfiguration lib i st1
              in (if status \<and> \<not> parseStatus then False else status, print_out (dump_lines 1 ls) st2)))"

definition dumpConfigurationCommand :: "dump_lib \<Rightarrow> 'w cli_state \<Rightarrow> (int, 'w) cli" where
  "dumpConfigurationCommand lib st =
     (let (status, st1) = fold (dump_file lib)
            (findConfigurationFiles (dump_ends_with lib) (dump_listing lib) (getDefaultConfDirectories lib)) (True, st);
          st2 = print_out (case dump_getenv lib DB_HOST_ENV_VAR_NAME of
                    None \<Rightarrow> DB_HOST_ENV_VAR_NAME @ '' not set.'' @ endl
                  | Some conf \<Rightarrow> DB_HOST_ENV_VAR_NAME @ '': '' @ conf @ endl) st1
      in Some (Inr (if \<not> status then EXIT_FAILURE else EXIT_SUCCESS), st2))"

text \<open>\<open>test-connectivity\<close>. The event loop of \<open>boost::asio\<close> runs the events of the storage until the
  readiness acknowledgement stops it, at once if it is called before the loop runs; errors go to
  \<open>std::cerr\<close>. The timeout thread is in \<open>Tool_Timeout\<close>.\<close>

record 'w conn_lib =
  storage_create :: "'w \<Rightarrow> 'w result"
  conn_waitReadyAsync :: "namespace \<Rightarrow> 'w \<Rightarrow> (unit ack_call list \<times> 'w) result"
  conn_handleEvents :: "'w \<Rightarrow> (unit ack_call list \<times> 'w) result"
  operation_handler :: "namespace \<Rightarrow> 'w \<Rightarrow> (handlerRef \<times> 'w) result"
  handler_info :: "nat \<Rightarrow> 'w \<Rightarrow> databaseInfo option"
  conn_message :: std_messages
  static_configuration :: "databaseConfiguration result"
  default_addresses :: "databaseConfiguration \<Rightarrow> hostAndPort list result"
  conn_getenv :: "string \<Rightarrow> string option"

definition ready_errors :: "'w conn_lib \<Rightarrow> unit ack_call list \<Rightarrow> error_code list" where
  "ready_errors lib acks = concat (map (\<lambda>a. case a of CallReady _ ec \<Rightarrow> [ec] | _ \<Rightarrow> []) acks)"

definition report_ready :: "'w conn_lib \<Rightarrow> error_code list \<Rightarrow> 'w cli_state \<Rightarrow> 'w cli_state" where
  "report_ready lib ecs st =
     print_err (concat (map (\<lambda>ec. ''SDL waitReadyAsync failed. Error:'' @ endl @ ec_message (conn_message lib) ec @ endl)
       (filter ec_bool ecs))) st"

partial_function (option) asio_run :: "'w conn_lib \<Rightarrow> 'w cli_state \<Rightarrow> (unit, 'w) cli" where
  "asio_run lib st =
     (case conn_handleEvents lib (cli_world st) of
        Inl f \<Rightarrow> Some (Inl f, st)
      | Inr (acks, w) \<Rightarrow>
          (let ecs = ready_errors lib acks; st' = report_ready lib ecs (st\<lparr>cli_world := w\<rparr>)
           in if ecs \<noteq> [] then Some (Inr (), st') else asio_run lib st'))"

definition createStorage :: "'w conn_lib \<Rightarrow> namespace \<Rightarrow> 'w cli_state \<Rightarrow> (bool, 'w) cli" where
  "createStorage lib ns st =
     (let failed = (\<lambda>msg. ''Storage create failed: '' @ msg @ endl);
          caught = (\<lambda>f st. Some (catch_sdl failed False f st))
      in case storage_create lib (cli_world st) of
           Inl f \<Rightarrow> caught f st
         | Inr w \<Rightarrow>
             (case conn_waitReadyAsync lib ns w of
                Inl f \<Rightarrow> caught f (st\<lparr>cli_world := w\<rparr>)
              | Inr (acks, w') \<Rightarrow>
                  (let ecs = ready_errors lib acks; st1 = report_ready lib ecs (st\<lparr>cli_world := w'\<rparr>)
                   in case if ecs \<noteq> [] then Some (Inr (), st1) else asio_run lib st1 of
                     None \<Rightarrow> None
                   | Some (Inl f, st') \<Rightarrow> caught f st'
                   | Some (Inr _, st') \<Rightarrow> Some (Inr True, print_out (''Storage to namespace '' @ ns @ '' created.'' @ endl) st'))))"

definition getHosts :: "hostAndPort list \<Rightarrow> string" where
  "getHosts addrs = concat (map (\<lambda>i. getHost i @ '' '') addrs)"

definition getPorts :: "hostAndPort list \<Rightarrow> string" where
  "getPorts addrs = concat (map (\<lambda>i. show_nat (unat (ntohs (getPort i))) @ '' '') addrs)"

definition PrintEnvironmentVariable :: "'w conn_lib \<Rightarrow> string \<Rightarrow> string" where
  "PrintEnvironmentVariable lib name =
     (case conn_getenv lib (c_str name) of None \<Rightarrow> [] | Some conf \<Rightarrow> c_str name @ '': '' @ conf @ endl)"

definition PrintStaticConfiguration :: "'w conn_lib \<Rightarrow> string result" where
  "PrintStaticConfiguration lib =
     rbind (static_configuration lib) (\<lambda>conf.
     rbind (default_addresses lib conf) (\<lambda>defaultAddresses.
       let staticAddresses = getServerAddresses conf; staticDbType = getDbType conf
       in Inr ((if staticAddresses \<noteq> []
                then endl @ ''Static Server Addresses:'' @ endl @ ''Static Host: '' @ getHosts staticAddresses @ endl @
                     ''Static Port: '' @ getPorts staticAddresses @ endl @
                     (if staticDbType = REDIS_CLUSTER then ''Static DB type: redis-cluster''
                      else if staticDbType = REDIS_STANDALONE then ''Static DB type: redis-standalone''
                      else if staticDbType = REDIS_SENTINEL then ''Static DB type: redis-sentinel''
                      else ''Static DB type not defined'') @ endl else []) @
               (if defaultAddresses \<noteq> [] \<and> staticAddresses = []
                then endl @ ''Default Server Addresses:'' @ endl @ ''Default Host: '' @ getHosts defaultAddresses @ endl @
                     ''Default Port: '' @ getPorts defaultAddresses @ endl else []) @
               PrintEnvironmentVariable lib DB_HOST_ENV_VAR_NAME @ PrintEnvironmentVariable lib DB_PORT_ENV_VAR_NAME @
               PrintEnvironmentVariable lib SENTINEL_PORT_ENV_VAR_NAME @
               PrintEnvironmentVariable lib SENTINEL_MASTER_NAME_ENV_VAR_NAME)))"

definition PrintDatabaseInfo :: "'w conn_lib \<Rightarrow> databaseInfo \<Rightarrow> 'w cli_state \<Rightarrow> (unit, 'w) cli" where
  "PrintDatabaseInfo lib info st =
     (let st1 = print_out (''Used database configuration (databaseInfo):'' @ endl @ ''Host: '' @ getHosts (hosts info) @ endl @
            ''Port: '' @ getPorts (hosts info) @ endl @
            (case db_info_type info of
               SINGLE \<Rightarrow> ''Database type: SINGLE'' | REDUNDANT \<Rightarrow> ''Database type: REDUNDANT''
             | CLUSTER \<Rightarrow> ''Database type: CLUSTER'') @ endl @
            (case discovery info of HIREDIS \<Rightarrow> ''Discovery type:: HIREDIS'' | SENTINEL \<Rightarrow> ''Discovery type:: SENTINEL'') @ endl) st
      in case PrintStaticConfiguration lib of Inl f \<Rightarrow> Some (Inl f, st1) | Inr static \<Rightarrow> Some (Inr (), print_out static st1))"

definition TestConnectivityCommand :: "'w conn_lib \<Rightarrow> namespace \<Rightarrow> 'w cli_state \<Rightarrow> (int, 'w) cli" where
  "TestConnectivityCommand lib ns st =
     cbind (createStorage lib ns st) (\<lambda>created st.
       if \<not> created then Some (Inr EXIT_SUCCESS, st)
       else case operation_handler lib ns (cli_world st) of
              Inl f \<Rightarrow> Some (Inl f, st)
            | Inr (h, w) \<Rightarrow>
                (let st = st\<lparr>cli_world := w\<rparr>
                 in case h of
                      DummyHandler \<Rightarrow> Some (Inr EXIT_FAILURE, print_out (''Cannot get AsyncRedisStorage.'' @ endl) st)
                    | RedisHandler i \<Rightarrow>
                        (case handler_info lib i w of
                           None \<Rightarrow> Some (Inl Undefined, st)
                         | Some info \<Rightarrow> cbind (PrintDatabaseInfo lib info st) (\<lambda>_ st. Some (Inr EXIT_SUCCESS, st)))))"


section \<open>The commands of the tool\<close>

text \<open>\<open>AUTO_REGISTER_COMMAND\<close>: each file registers its command when the program starts; the order of
  the files is not determined. A registration is the name, the entry, the category and the offset.\<close>

type_synonym ('o, 'v, 'w) registration = "string \<times> ('o, 'v, 'w) info \<times> category \<times> int"

definition register :: "('o, 'v, 'w) registration \<Rightarrow> ('o, 'v, 'w) commandMap \<Rightarrow> ('o, 'v, 'w) commandMap result" where
  "register r m = (case r of (n, i, c, off) \<Rightarrow> (case registerCommand n i c off m of (Inl f, _) \<Rightarrow> Inl f | (Inr _, m') \<Rightarrow> Inr m'))"

text \<open>The options of a command: name, default value and help text. \<open>opts\<close> is \<open>add_options\<close> of
  \<open>program_options\<close>.\<close>

datatype default_value = StringValue string | IntValue int | BoolSwitch bool

type_synonym option_description = "string \<times> default_value \<times> string"

abbreviation ns_option :: option_description where
  "ns_option \<equiv> (''ns,n'', StringValue ''sdltoolns'', ''namespace to use'')"

abbreviation key_option :: option_description where
  "key_option \<equiv> (''key,k'', StringValue ''key1'', ''key value'')"

abbreviation timeout_option :: option_description where
  "timeout_option \<equiv> (''timeout'', IntValue 0, ''Timeout (in seconds), Default is no timeout'')"

definition dumpConfiguration_registration :: "dump_lib \<Rightarrow> (option_description list \<Rightarrow> 'o) \<Rightarrow> ('o, 'v, 'w) registration" where
  "dumpConfiguration_registration dump opts =
     (''dump-configuration'', \<lparr>ci_function = \<lambda>_. dumpConfigurationCommand dump, ci_shortHelp = ''Dump configuration'',
        ci_longHelp = ''Find, parse and dump all shareddatalayer configuration files contents.'', ci_options = opts []\<rparr>, UTIL, 30000)"

definition testGetSet_registration :: "('v, 'w) cli_lib \<Rightarrow> (option_description list \<Rightarrow> 'o) \<Rightarrow> ('o, 'v, 'w) registration" where
  "testGetSet_registration lib opts =
     (''test-get-set'', \<lparr>ci_function = TestGetSetCommand lib, ci_shortHelp = ''Write and read to DB and check latency'',
        ci_longHelp = ''Check that basic SDL api commands (set/get) works normally and measure latency.'',
        ci_options = opts [(''key-count'', IntValue 10, ''Number of write/read keys''), timeout_option,
          (''ns'', StringValue ''sdltoolns'', ''namespace to use'')]\<rparr>, UTIL, 30010)"

definition testConnectivity_registration ::
  "('v, 'w) cli_lib \<Rightarrow> 'w conn_lib \<Rightarrow> (option_description list \<Rightarrow> 'o) \<Rightarrow> ('o, 'v, 'w) registration" where
  "testConnectivity_registration lib conn opts =
     (''test-connectivity'', \<lparr>ci_function = \<lambda>vars. TestConnectivityCommand conn (string_var lib vars ''ns''),
        ci_shortHelp = ''Test SDL backend connectivity'',
        ci_longHelp = ''Check that SDL database backend is available and show discovered redis host address and port'',
        ci_options = opts [(''ns'', StringValue ''sdltoolns'', ''Used namespace''), timeout_option]\<rparr>, UTIL, 30020)"

definition listKeys_registration :: "('v, 'w) cli_lib \<Rightarrow> (option_description list \<Rightarrow> 'o) \<Rightarrow> ('o, 'v, 'w) registration" where
  "listKeys_registration lib opts =
     (''listkeys'', \<lparr>ci_function = listKeysCommand lib, ci_shortHelp = ''listKeys SDL API'',
        ci_longHelp = ''Use listKeys SDL API to list keys matching search pattern under the namespace.'' @ endl @ endl @
          ''Example: sdltool listkeys --ns '' @ squote @ ''sdltool'' @ squote @ '' --pattern '' @ squote @ ''foo*'' @ squote,
        ci_options = opts [ns_option, (''pattern,p'', StringValue ''*'', ''key search pattern'')]\<rparr>, UTIL, 30030)"

definition set_registration :: "('v, 'w) cli_lib \<Rightarrow> (option_description list \<Rightarrow> 'o) \<Rightarrow> ('o, 'v, 'w) registration" where
  "set_registration lib opts =
     (''set'', \<lparr>ci_function = setCommand lib, ci_shortHelp = ''set key value with SDL API'',
        ci_longHelp = ''Use set SDL API to write data to storage under the namespace.'' @ endl @ endl @
          ''Example: sdltool set --ns '' @ squote @ ''sdltool'' @ squote @ '' --key '' @ squote @ ''key1'' @ squote @
          '' --data '' @ squote @ ''1'' @ squote,
        ci_options = opts [ns_option, key_option, (''data,d'', StringValue ''1'', ''data''),
          (''debug'', BoolSwitch False, ''Enable debug logs'')]\<rparr>, UTIL, 30040)"

definition get_registration :: "('v, 'w) cli_lib \<Rightarrow> (option_description list \<Rightarrow> 'o) \<Rightarrow> ('o, 'v, 'w) registration" where
  "get_registration lib opts =
     (''get'', \<lparr>ci_function = getCommand lib, ci_shortHelp = ''get data with SDL API under the namespace'',
        ci_longHelp = ''Use get SDL API to read data from storage under the namespace.'' @ endl @ endl @
          ''Example: sdltool get --ns '' @ squote @ ''sdltool'' @ squote @ '' --key '' @ squote @ ''key1'' @ squote,
        ci_options = opts [ns_option, key_option]\<rparr>, UTIL, 30050)"

definition sdltool_commands ::
  "('v, 'w) cli_lib \<Rightarrow> dump_lib \<Rightarrow> 'w conn_lib \<Rightarrow> (option_description list \<Rightarrow> 'o) \<Rightarrow> ('o, 'v, 'w) registration list" where
  "sdltool_commands lib dump conn opts =
     [dumpConfiguration_registration dump opts, testGetSet_registration lib opts, testConnectivity_registration lib conn opts,
      listKeys_registration lib opts, set_registration lib opts, get_registration lib opts]"

lemmas sdltool_commands_defs = sdltool_commands_def dumpConfiguration_registration_def testGetSet_registration_def
  testConnectivity_registration_def listKeys_registration_def set_registration_def get_registration_def

text \<open>\<open>main\<close>: the command map is the static one that the registrations filled.\<close>

definition sdltool_main ::
  "('o, 'v) po_lib \<Rightarrow> (string list \<Rightarrow> common_vars result) \<Rightarrow> ('o \<Rightarrow> string list \<Rightarrow> 'v result) \<Rightarrow> string list \<Rightarrow>
   ('o, 'v, 'w) commandMap \<Rightarrow> 'w cli_state \<Rightarrow> (int, 'w) cli" where
  "sdltool_main po parse_common parse_sub args m st =
     (case parseAndExecute po parse_common parse_sub args m st of
        Some (Inl (Throw e), st') \<Rightarrow> Some (Inr EXIT_FAILURE, print_err (''unexpected error: '' @ what e @ endl) st')
      | r \<Rightarrow> r)"

lemma sdltool_main_eq: "sdltool_main po parse_common parse_sub args m st = parseAndExecute po parse_common parse_sub args m st"
  by (auto simp: sdltool_main_def parseAndExecute_def split: option.split sum.split failure.split)

section \<open>Properties of the command map\<close>

definition command_map_inv :: "('o, 'v, 'w) commandMap \<Rightarrow> bool" where
  "command_map_inv m \<longleftrightarrow> key_sorted (map fst (command_map m)) \<and> key_sorted (map fst (categoryMap m)) \<and>
     snd ` set (categoryMap m) \<subseteq> fst ` set (command_map m)"

lemma command_map_inv_init: "command_map_inv CommandMap"
  by (simp add: command_map_inv_def CommandMap_def)

lemma map_insert_values: "snd ` set (map_insert k v m) \<subseteq> insert v (snd ` set m)"
  by (induction k v m rule: map_insert.induct) auto

lemma registerCommand_inv: "command_map_inv m \<Longrightarrow> command_map_inv (snd (registerCommand n i c off m))"
  using map_insert_values [of "(c, off)" n "categoryMap m"]
  by (auto simp: command_map_inv_def registerCommand_def Let_def)

lemma short_help_line_total:
  "command_map_inv m \<Longrightarrow> e \<in> set (categoryMap m) \<Longrightarrow> \<exists>acc'. shortHelp_line w m e acc = Inr acc'"
  by (cases acc) (force simp: command_map_inv_def shortHelp_line_def Let_def map_of_eq_None_iff split: option.split)

lemma for_each_succeeds:
  "(\<And>x u. x \<in> set xs \<Longrightarrow> \<exists>v. body x u = Inr v) \<Longrightarrow> \<exists>t. for_each body xs s = Inr t"
proof (induction xs arbitrary: s)
  case (Cons x xs)
  obtain u where "body x s = Inr u" using Cons.prems by (metis list.set_intros(1))
  then show ?case using Cons.IH [of u] Cons.prems by simp
qed simp

fun register_all :: "('o, 'v, 'w) registration list \<Rightarrow> ('o, 'v, 'w) commandMap \<Rightarrow> ('o, 'v, 'w) commandMap" where
  "register_all [] m = m"
| "register_all ((n, i, c, off) # rs) m = register_all rs (snd (registerCommand n i c off m))"

lemma register_all_inv: "command_map_inv m \<Longrightarrow> command_map_inv (register_all rs m)"
  by (induction rs m rule: register_all.induct) (simp_all add: registerCommand_inv)

text \<open>After any sequence of registrations, successful or not, both maps of the command map are in
  order, every entry of the category map names a registered command, and the short help is
  printed without an exception.\<close>

theorem short_help_never_fails:
  "command_map_inv (register_all rs CommandMap) \<and> (\<exists>text. shortHelp (register_all rs CommandMap) = Inr text)"
proof -
  let ?m = "register_all rs CommandMap"
  have inv: "command_map_inv ?m" using command_map_inv_init by (rule register_all_inv)
  then obtain acc where "for_each (shortHelp_line (max_width ?m) ?m) (categoryMap ?m) (UNDEFINED, []) = Inr acc"
    using for_each_succeeds short_help_line_total by metis
  with inv show ?thesis by (simp add: shortHelp_def)
qed


text \<open>Registrations that do not clash: all succeed, and the maps hold exactly them.\<close>

abbreviation reg_name :: "('o, 'v, 'w) registration \<Rightarrow> string" where
  "reg_name r \<equiv> fst r"

abbreviation reg_key :: "('o, 'v, 'w) registration \<Rightarrow> category \<times> int" where
  "reg_key r \<equiv> snd (snd r)"

lemma registrations_succeed:
  assumes "distinct (map reg_name rs)" "distinct (map reg_key rs)" "command_map_inv m"
    "\<And>r. r \<in> set rs \<Longrightarrow> reg_name r \<notin> fst ` set (command_map m) \<and> reg_key r \<notin> fst ` set (categoryMap m)"
  shows "\<exists>m'. for_each register rs m = Inr m' \<and> command_map_inv m' \<and>
    set (command_map m') = set (command_map m) \<union> (\<lambda>r. (reg_name r, fst (snd r))) ` set rs \<and>
    set (categoryMap m') = set (categoryMap m) \<union> (\<lambda>r. (reg_key r, reg_name r)) ` set rs"
  using assms
proof (induction rs arbitrary: m)
  case (Cons r rs)
  obtain n i c off where r: "r = (n, i, c, off)" by (cases r) auto
  let ?m = "m\<lparr>command_map := map_insert n i (command_map m), categoryMap := map_insert (c, off) n (categoryMap m)\<rparr>"
  have new: "n \<notin> fst ` set (command_map m)" "(c, off) \<notin> fst ` set (categoryMap m)" using Cons.prems(4) [of r] by (simp_all add: r)
  then have reg: "registerCommand n i c off m = (Inr (), ?m)" by (simp add: registerCommand_def Let_def)
  then have step: "register r m = Inr ?m" by (simp add: r register_def)
  have inv: "command_map_inv ?m" using registerCommand_inv [OF Cons.prems(3), of n i c off] by (simp add: reg)
  have "\<exists>m'. for_each register rs ?m = Inr m' \<and> command_map_inv m' \<and>
    set (command_map m') = set (command_map ?m) \<union> (\<lambda>r. (reg_name r, fst (snd r))) ` set rs \<and>
    set (categoryMap m') = set (categoryMap ?m) \<union> (\<lambda>r. (reg_key r, reg_name r)) ` set rs"
    using Cons.prems inv by (intro Cons.IH) (auto simp: r image_iff)
  then show ?case unfolding for_each.simps step rbind_simps using new by (auto simp: r set_map_insert)
qed simp

text \<open>Whatever order the files of the tool are initialised in, all six commands are registered
  without an exception, and the resulting map, and so its help, is the same.\<close>

theorem registration_order_irrelevant:
  assumes "mset rs = mset (sdltool_commands lib dump conn opts)"
  shows "\<exists>m. for_each register rs CommandMap = Inr m \<and> for_each register (sdltool_commands lib dump conn opts) CommandMap = Inr m \<and>
    getCommandNames m = [''dump-configuration'', ''get'', ''listkeys'', ''set'', ''test-connectivity'', ''test-get-set''] \<and>
    map snd (categoryMap m) = [''dump-configuration'', ''test-get-set'', ''test-connectivity'', ''listkeys'', ''set'', ''get'']"
proof -
  let ?cs = "sdltool_commands lib dump conn opts"
  let ?all = "\<lambda>rs m. for_each register rs CommandMap = Inr m \<and> command_map_inv m \<and>
    set (command_map m) = (\<lambda>r. (reg_name r, fst (snd r))) ` set rs \<and> set (categoryMap m) = (\<lambda>r. (reg_key r, reg_name r)) ` set rs"
  have all: "\<exists>m. ?all rs m" if "distinct (map reg_name rs)" "distinct (map reg_key rs)" for rs
    using registrations_succeed [OF that command_map_inv_init] by (simp add: CommandMap_def)
  have cs: "distinct (map reg_name ?cs)" "distinct (map reg_key ?cs)" by (simp_all add: sdltool_commands_defs)
  have "mset (map reg_name rs) = mset (map reg_name ?cs)" "mset (map reg_key rs) = mset (map reg_key ?cs)"
    using assms by simp_all
  then have dist: "distinct (map reg_name rs)" "distinct (map reg_key rs)" using cs by (metis mset_eq_imp_distinct_iff)+
  obtain m where m: "?all rs m" using all [OF dist] by blast
  obtain m' where m': "?all ?cs m'" using all [OF cs] by blast
  have "set rs = set ?cs" using assms by (rule mset_eq_setD)
  then have "command_map m = command_map m'" "categoryMap m = categoryMap m'"
    using m m' by (auto simp: command_map_inv_def intro!: sorted_map_determined)
  then have "m = m'" by simp
  moreover have "getCommandNames m' = [''dump-configuration'', ''get'', ''listkeys'', ''set'', ''test-connectivity'', ''test-get-set'']"
    using m' by (intro key_sorted_unique) (auto simp: getCommandNames_def command_map_inv_def sdltool_commands_defs image_iff)
  moreover have "categoryMap m' = [((UTIL, 30000), ''dump-configuration''), ((UTIL, 30010), ''test-get-set''), ((UTIL, 30020), ''test-connectivity''),
      ((UTIL, 30030), ''listkeys''), ((UTIL, 30040), ''set''), ((UTIL, 30050), ''get'')]"
    using m' by (intro sorted_map_determined) (auto simp: command_map_inv_def sdltool_commands_defs)
  ultimately show ?thesis using m m' by auto
qed

text \<open>A tool whose storage cannot be created, for examples.\<close>

definition no_storage :: failure where
  "no_storage = Throw (BackendError ''no storage'')"

definition broken_lib :: "(unit, nat) cli_lib" where
  "broken_lib = \<lparr>cli_sync = late_lib, sync_create = \<lambda>w. Inl no_storage, hr_now = \<lambda>w. (int w, w + 1),
     string_var = \<lambda>_ name. if name = ''ns'' then ''sdltoolns'' else ''key1'', int_var = \<lambda>_ _. 10, bool_var = \<lambda>_ _. False\<rparr>"

definition broken_conn :: "nat conn_lib" where
  "broken_conn = \<lparr>storage_create = \<lambda>w. Inl no_storage, conn_waitReadyAsync = \<lambda>_ w. Inr ([], w),
     conn_handleEvents = \<lambda>w. Inr ([], w), operation_handler = \<lambda>_ w. Inr (DummyHandler, w), handler_info = \<lambda>_ _. None,
     conn_message = \<lambda>_ _. [], static_configuration = Inl no_storage, default_addresses = \<lambda>_. Inr [], conn_getenv = \<lambda>_. None\<rparr>"

definition no_files :: dump_lib where
  "no_files = \<lparr>read_json_error = \<lambda>_. None, file_lines = \<lambda>_. None, dump_getenv = \<lambda>_. None, dump_listing = \<lambda>_. None,
     dump_ends_with = \<lambda>_ _. False, SDL_CONF_DIR = ''/etc/sdl.d'', PACKAGE_NAME = ''sdl''\<rparr>"

abbreviation sample_commands :: "(option_description list, unit, nat) registration list" where
  "sample_commands \<equiv> sdltool_commands broken_lib no_files broken_conn id"

theorem registration_order_irrelevant_witness:
  "\<exists>m. for_each register (rev sample_commands) CommandMap = Inr m \<and> for_each register sample_commands CommandMap = Inr m \<and>
    getCommandNames m = [''dump-configuration'', ''get'', ''listkeys'', ''set'', ''test-connectivity'', ''test-get-set'']"
  using registration_order_irrelevant [of "rev sample_commands" broken_lib no_files broken_conn id] by auto

section \<open>Properties of the commands\<close>

text \<open>A command that is not registered is refused with the same message and status whether its help
  was asked for or it was to be executed, and nothing is executed.\<close>

theorem unknown_command_rejected:
  assumes "parse_common args = Inr vars" "pos_command vars = Some c" "c \<notin> fst ` set (command_map m)"
  shows "parseAndExecute po parse_common parse_sub args m st =
    Some (Inr EXIT_FAILURE, print_err (''unknown command: '' @ dquote @ c @ dquote @ endl) st)"
proof -
  have "map_of (command_map m) c = None" using assms(3) by (simp add: map_of_eq_None_iff)
  then show ?thesis using assms(1,2)
    by (simp add: parseAndExecute_def privateParseAndExecute_def Let_def longHelp_def getCommandOptions_def buildUnknownCommandNameError_def)
qed

theorem unknown_command_rejected_witness:
  "parseAndExecute \<lparr>option_names = \<lambda>_. [], po_print = \<lambda>_. [], commonVisibleOpts = [], PACKAGE_STRING = ''sdl''\<rparr>
     (\<lambda>args. Inr \<lparr>pos_command = Some (hd args), count_help = False, count_bash_completion = False, count_version = False,
        repeat_value = 1, unrecognized = args\<rparr>) (\<lambda>_ _. Inr ()) [''del''] (register_all sample_commands CommandMap)
     \<lparr>cli_out = [], cli_err = [], cli_world = 0\<rparr> =
   Some (Inr 1, \<lparr>cli_out = [], cli_err = ''unknown command: '' @ dquote @ ''del'' @ dquote @ endl, cli_world = 0\<rparr>)"
proof (subst unknown_command_rejected [where c = "''del''"])
  show "''del'' \<notin> fst ` set (command_map (register_all sample_commands CommandMap))"
    by (simp add: sdltool_commands_defs registerCommand_def CommandMap_def Let_def set_map_insert)
qed (rule refl | simp add: print_err_def EXIT_FAILURE_def)+

text \<open>A storage call that throws an exception of the library is caught, and the command goes on.\<close>

definition throws_sdl :: "('a result \<times> 'w sync) run \<Rightarrow> exn \<Rightarrow> 'w \<Rightarrow> bool" where
  "throws_sdl call e w \<longleftrightarrow> is_sdl_exception e \<and> (\<exists>s. call = Some (Inr (Inl (Throw e), (s, w))))"

lemma guarded_throws:
  assumes "throws_sdl call e w"
  shows "cbind (guarded call shown failed s st) (\<lambda>_ st. Some (Inr v, st)) = Some (Inr v, print_out (failed (what e)) (st\<lparr>cli_world := w\<rparr>))"
  using assms by (auto simp: throws_sdl_def guarded_def catch_sdl_def Let_def)

text \<open>C39: when the storage was created but the operation of a command throws an exception of the
  library, the commands \<open>get\<close>, \<open>set\<close> and \<open>listkeys\<close> print the reason on the standard output and
  still return \<open>EXIT_SUCCESS\<close>.\<close>

theorem failed_operation_exits_successfully:
  assumes "ns = string_var lib vars ''ns''" "k = string_var lib vars ''key''" "p = string_var lib vars ''pattern''"
    "d = map byte_of_char (string_var lib vars ''data'')" "\<not> bool_var lib vars ''debug''"
    "createSyncStorage lib ns st = Some (Inr (Some s), st')" "sw = (setOperationTimeout five_seconds s, cli_world st')"
  shows "(throws_sdl (sync_get (cli_sync lib) ns [k] sw) e w \<longrightarrow> getCommand lib vars st =
        Some (Inr EXIT_SUCCESS, print_out (''get('' @ ns @ '', '' @ k @ '') failed: '' @ what e @ endl) (st'\<lparr>cli_world := w\<rparr>))) \<and>
    (throws_sdl (sync_set (cli_sync lib) ns [(k, d)] sw) e w \<longrightarrow> setCommand lib vars st =
        Some (Inr EXIT_SUCCESS, print_out (''Error in set('' @ ns @ '', '' @ k @ '' '' @ print_data d @ '') failed: '' @ what e @ endl)
          (st'\<lparr>cli_world := w\<rparr>))) \<and>
    (throws_sdl (sync_listKeys (cli_sync lib) ns p sw) e w \<longrightarrow> listKeysCommand lib vars st =
        Some (Inr EXIT_SUCCESS, print_out (''listKeys('' @ ns @ '', '' @ p @ '') failed: '' @ what e @ endl) (st'\<lparr>cli_world := w\<rparr>)))"
proof (intro conjI impI)
  note vars = assms(1-4) [symmetric] and created = assms(5,6) assms(7) [symmetric]
  assume "throws_sdl (sync_get (cli_sync lib) ns [k] sw) e w"
  from guarded_throws [OF this] show "getCommand lib vars st =
      Some (Inr EXIT_SUCCESS, print_out (''get('' @ ns @ '', '' @ k @ '') failed: '' @ what e @ endl) (st'\<lparr>cli_world := w\<rparr>))"
    by (simp add: getCommand_def cli_get_def vars created)
next
  note vars = assms(1-4) [symmetric] and created = assms(5,6) assms(7) [symmetric]
  assume "throws_sdl (sync_set (cli_sync lib) ns [(k, d)] sw) e w"
  from guarded_throws [OF this] show "setCommand lib vars st = Some (Inr EXIT_SUCCESS,
      print_out (''Error in set('' @ ns @ '', '' @ k @ '' '' @ print_data d @ '') failed: '' @ what e @ endl) (st'\<lparr>cli_world := w\<rparr>))"
    by (simp add: setCommand_def cli_set_def vars created print_dataMap_def)
next
  note vars = assms(1-4) [symmetric] and created = assms(5,6) assms(7) [symmetric]
  assume "throws_sdl (sync_listKeys (cli_sync lib) ns p sw) e w"
  from guarded_throws [OF this] show "listKeysCommand lib vars st =
      Some (Inr EXIT_SUCCESS, print_out (''listKeys('' @ ns @ '', '' @ p @ '') failed: '' @ what e @ endl) (st'\<lparr>cli_world := w\<rparr>))"
    by (simp add: listKeysCommand_def listkeys_def vars created)
qed

text \<open>A storage that is ready and fails every operation, in the state 1 until the acknowledgement.\<close>

definition failing_lib :: "nat sync_lib" where
  "failing_lib = \<lparr>raw_poll = \<lambda>timeout k. (if k = 1 then (1, True, 0) else (0, False, 0), k), steady_now = \<lambda>k. (0, k),
     as_handleEvents = \<lambda>k. Inr ([CallGet () (make_error_code_dispatcher DEC_NOT_CONNECTED) []], 2),
     as_waitReadyAsync = \<lambda>n k. Inr ([CallReady () no_error], 0), as_perform = \<lambda>r k. Inr ([], 1), sync_message = \<lambda>_ _. []\<rparr>"

definition failing_cli :: "(unit, nat) cli_lib" where
  "failing_cli = broken_lib\<lparr>cli_sync := failing_lib, sync_create := \<lambda>w. Inr (SyncStorageImpl, w)\<rparr>"

lemma failing_ready:
  "waitSdlToBeReady_timeout failing_lib n timeout (s, w) = Some (Inr (waitReadyAck no_error (s\<lparr>isReady := False\<rparr>), 0))"
  by (simp add: waitSdlToBeReady_timeout_def waitForReadinessCheckCallback_def acked_def Let_def timed_ready_loop.simps
      ready_loop.simps waitReadyAck_def failing_lib_def)

lemma failing_operation_throws: "\<exists>e. throws_sdl (sync_operation failing_lib r res (s, 0)) e 2"
proof -
  let ?ec = "make_error_code_dispatcher DEC_NOT_CONNECTED"
  let ?s = "(waitReadyAck no_error (s\<lparr>isReady := False\<rparr>))\<lparr>synced := False\<rparr>"
  have "delivers failing_lib 1 (CallGet () ?ec []) 2"
    by (rule delivers.now [where ret = 1]) (simp_all add: failing_lib_def system_poll_def)
  then have "waitForOperationCallback failing_lib (?s, 1) = Some (Inr (getAck ?ec [] ?s, 2))"
    using waitForOperationCallback_delivers [of failing_lib 1 "CallGet () ?ec []" 2 ?s] by (simp add: waitReadyAck_def)
  moreover have "handlePendingEvents failing_lib (s, 0) = Some (Inr (s, 0))"
    by (rule handlePendingEvents_quiet [of _ _ 0 False]) (simp_all add: failing_lib_def system_poll_def)
  moreover obtain e where "throwExceptionForErrorCode (sync_message failing_lib) ?ec = Throw e" "is_sdl_exception e"
    using dispatcher_errors.throws_sdl_exception [of "enum_value dispatcherErrorCodes DEC_NOT_CONNECTED" "sync_message failing_lib"]
    by (auto simp: make_error_code_dispatcher_def enum_value_def dispatcherErrorCodes_def)
  moreover have "ec_bool ?ec" by (simp add: ec_bool_def make_error_code_dispatcher_def enum_value_def dispatcherErrorCodes_def)
  moreover have "as_perform failing_lib r 0 = Inr ([], 1)" by (simp add: failing_lib_def)
  ultimately show ?thesis
    by (auto simp: throws_sdl_def sync_operation_def waitSdlToBeReady_def failing_ready acked_def verifyBackendResponse_def getAck_def)
qed

theorem failed_operation_exits_successfully_witness:
  "\<exists>e. getCommand failing_cli () \<lparr>cli_out = [], cli_err = [], cli_world = 7\<rparr> =
     Some (Inr 0, \<lparr>cli_out = ''get(sdltoolns, key1) failed: '' @ what e @ endl, cli_err = [], cli_world = 2\<rparr>)"
proof -
  let ?st = "\<lparr>cli_out = [], cli_err = [], cli_world = 7\<rparr>" and ?s = "waitReadyAck no_error (SyncStorageImpl\<lparr>isReady := False\<rparr>)"
  obtain e where e: "throws_sdl (sync_get failing_lib ''sdltoolns'' [''key1''] (setOperationTimeout five_seconds ?s, 0)) e 2"
    using failing_operation_throws unfolding sync_get_def by blast
  have "createSyncStorage failing_cli ''sdltoolns'' ?st = Some (Inr (Some ?s), ?st\<lparr>cli_world := 0\<rparr>)"
    by (simp add: createSyncStorage_def failing_cli_def waitReady_def failing_ready verifyBackendResponse_def waitReadyAck_def ec_bool_def
        no_error_def)
  from failed_operation_exits_successfully [OF _ _ _ _ _ this, of "()" "''key1''"] e
  show ?thesis by (auto simp: failing_cli_def broken_lib_def print_out_def EXIT_SUCCESS_def)
qed

section \<open>The tool on the library\<close>

text \<open>\<open>SyncStorage::create\<close> in a new process: the databases are those of the world.\<close>

definition tool_create ::
  "'l conf_lib_scheme \<Rightarrow> 'pt ptree_ops \<Rightarrow> ((string \<times> 'pt \<times> string) list \<Rightarrow> (string \<times> 'pt \<times> string) list) \<Rightarrow>
   'pt configurationReader result \<Rightarrow> 'd databaseDiscovery service_world \<Rightarrow> 'd databaseDiscovery service_world sync result" where
  "tool_create clib ops iter reader = (\<lambda>((_, dbs), clock).
     rbind (SyncStorage_create clib ops iter reader 0 (None, None)) (\<lambda>(s, st). Inr (s, ((st, dbs), clock))))"

lemma minute_waits: "waits one_minute" "waits five_seconds"
  by (simp_all add: waits_def one_minute_def five_seconds_def)

text \<open>A command gets a storage that is ready, on the data that the databases hold.\<close>

lemma created_for_command:
  fixes st :: "(unit, unit cmds, 'd databaseDiscovery) impl_state" and ilib :: "(unit, unit cmds, 'd databaseDiscovery) impl_lib"
  assumes lib: "cli_sync lib = startup_lib ilib redis msgs" "sync_create lib = tool_create clib ops iter reader"
    and st: "SyncStorage_create clib ops iter reader 0 (None, None) = Inr (s, st)" "static_conf (databaseConfiguration st)"
    and ilib: "static_lib vip clib sops ilib" and redis: "glob_ok glob" "redis_ok glob redis"
    and dbs: "snd (fst (cli_world c)) = dbs" "length dbs = server_count (databaseConfiguration st)" "\<forall>db\<in>set dbs. finite (dom db)"
    and used: "backend_used st n"
  shows "\<exists>s' w'. createSyncStorage lib n c = Some (Inr (Some s'), c\<lparr>cli_world := w'\<rparr>) \<and>
    service_ok ilib redis glob w' \<and> settled (databaseConfiguration st) w' \<and>
    service_view ilib w' = servers_view ilib (databaseConfiguration st) dbs \<and>
    (\<forall>r. request_ns r = n \<longrightarrow> request_ok r \<longrightarrow> service_allowed w' r)"
proof -
  obtain st0 clock where c: "cli_world c = ((st0, dbs), clock)" using dbs(1) by (cases "cli_world c") auto
  let ?w = "((st, dbs), clock)"
  have "fresh ilib redis glob ?w" using created_fresh [OF st redis dbs(2,3)] by blast
  then obtain s' w' where w': "waitReady (startup_lib ilib redis msgs) n one_minute (s, ?w) = Some (Inr (Inr (), (s', w')))"
    "service_ok ilib redis glob w'" "settled (databaseConfiguration st) w'" "service_view ilib w' = service_view ilib ?w"
    "service_allowed w' = service_allowed ?w"
    using fresh_waitReady [OF _ ilib _ minute_waits(1), of redis glob ?w n msgs s] used by auto
  have "sync_create lib (cli_world c) = Inr (s, ?w)" using st(1) by (simp add: lib(2) c tool_create_def)
  then have "createSyncStorage lib n c = Some (Inr (Some s'), c\<lparr>cli_world := w'\<rparr>)"
    using w'(1) by (simp add: createSyncStorage_def lib(1))
  moreover have "service_view ilib w' = servers_view ilib (databaseConfiguration st) dbs" using w'(4) by (simp add: service_view_def)
  moreover have "\<forall>r. request_ns r = n \<longrightarrow> request_ok r \<longrightarrow> service_allowed w' r" using w'(5) used by (simp add: service_allowed_def)
  ultimately show ?thesis using w'(2,3) by blast
qed

lemma settled_dbs:
  assumes "service_ok ilib redis glob w" "settled conf w"
  shows "length (snd (fst w)) = server_count conf" "\<forall>db\<in>set (snd (fst w)). finite (dom db)"
    "service_view ilib w = servers_view ilib conf (snd (fst w))"
proof -
  obtain st dbs clock where w: "w = ((st, dbs), clock)" by (cases w) auto
  have conf: "databaseConfiguration st = conf" using assms(2) by (simp add: w settled_def)
  note inv = servers_okD [OF service_okD(5) [OF assms(1) [unfolded w]]]
  show "length (snd (fst w)) = server_count conf" using inv(2,3) conf by (simp add: w)
  show "\<forall>db\<in>set (snd (fst w)). finite (dom db)" using inv(5) by (auto simp: w world_ok_def in_set_conv_nth)
  show "service_view ilib w = servers_view ilib conf (snd (fst w))" using conf by (simp add: w service_view_def)
qed

text \<open>The blocking operations of a command return what the specification says.\<close>

lemma command_operation:
  assumes "service_ok ilib redis glob w \<and> settled conf w" "service_allowed w r" "waits (operationTimeout s)"
    "fst (sync_spec1 glob r (service_view ilib w)) = a" "ack_error a = no_error"
  shows "\<exists>w'. sync_operation (startup_lib ilib redis msgs) r res (s, w) = Some (Inr (Inr (res (after_ack a no_error s)), (after_ack a no_error s, w'))) \<and>
    service_ok ilib redis glob w' \<and> settled conf w' \<and> service_view ilib w' = snd (sync_spec1 glob r (service_view ilib w)) \<and>
    service_allowed w' = service_allowed w"
proof -
  obtain w' where w': "answered_by (startup_lib ilib redis msgs) (operationTimeout s) r a w w'" "service_ok ilib redis glob w'" "settled conf w'"
    "service_view ilib w' = snd (sync_spec1 glob r (service_view ilib w))" "service_allowed w' = service_allowed w"
    using startup_service.request_answered [OF assms(1-3)] assms(4) by blast
  have "ack_fits r a" using sync_spec1_fits [of r glob "service_view ilib w"] assms(4) by simp
  moreover have "verifyBackendResponse (startup_lib ilib redis msgs) (after_ack a no_error s) = Inr ()"
    using assms(5) by (cases a) (simp_all add: verifyBackendResponse_def after_ack_def sync_ack_defs ec_bool_def no_error_def)
  ultimately show ?thesis using sync_operation_returns [OF w'(1)] w'(2-5) by (intro exI [of _ w']) simp
qed

lemma five_seconds_wait: "waits (operationTimeout (setOperationTimeout five_seconds s))"
  using minute_waits(2) by (simp add: setOperationTimeout_def)

lemma print_data_bytes: "print_data (map byte_of_char d) = d"
  by (simp add: print_data_def byte_simps o_def)

lemma set_on_library:
  fixes st :: "(unit, unit cmds, 'd databaseDiscovery) impl_state" and ilib :: "(unit, unit cmds, 'd databaseDiscovery) impl_lib"
  assumes lib: "cli_sync lib = startup_lib ilib redis msgs" "sync_create lib = tool_create clib ops iter reader"
    and st: "SyncStorage_create clib ops iter reader 0 (None, None) = Inr (s, st)" "static_conf (databaseConfiguration st)"
    and ilib: "static_lib vip clib sops ilib" and redis: "glob_ok glob" "redis_ok glob redis"
    and dbs: "length (snd (fst (cli_world c))) = server_count (databaseConfiguration st)" "\<forall>db\<in>set (snd (fst (cli_world c))). finite (dom db)"
    and ns: "isValidNamespace n" "backend_used st n"
    and vars: "string_var lib vars ''ns'' = n" "string_var lib vars ''key'' = k" "string_var lib vars ''data'' = d" "\<not> bool_var lib vars ''debug''"
  defines "data \<equiv> servers_view ilib (databaseConfiguration st)"
  shows "\<exists>w'. setCommand lib vars c = Some (Inr EXIT_SUCCESS, print_out (''set {'' @ n @ ''},'' @ k @ '' '' @ d @ endl) (c\<lparr>cli_world := w'\<rparr>)) \<and>
    length (snd (fst w')) = server_count (databaseConfiguration st) \<and> (\<forall>db\<in>set (snd (fst w')). finite (dom db)) \<and>
    data (snd (fst w')) = (let A = data (snd (fst (cli_world c))) in A(n := (A n)(k \<mapsto> map byte_of_char d)))"
proof -
  let ?d = "map byte_of_char d" and ?A = "data (snd (fst (cli_world c)))"
  obtain s1 w1 where w1: "createSyncStorage lib n c = Some (Inr (Some s1), c\<lparr>cli_world := w1\<rparr>)" "service_ok ilib redis glob w1"
    "settled (databaseConfiguration st) w1" "service_view ilib w1 = ?A" "\<And>r. request_ns r = n \<Longrightarrow> request_ok r \<Longrightarrow> service_allowed w1 r"
    using created_for_command [OF lib st ilib redis refl dbs ns(2)] unfolding data_def by blast
  let ?s = "setOperationTimeout five_seconds s1" and ?r = "Set n [(k, ?d)] ()" and ?a = "CallModify () no_error"
  have spec: "sync_spec1 glob ?r ?A = (?a, ?A(n := (?A n)(k \<mapsto> ?d)))" using ns(1) by (simp add: sync_spec1_def)
  have allowed: "service_allowed w1 ?r" using ns(1) by (intro w1(5)) simp_all
  obtain w2 where w2: "sync_operation (startup_lib ilib redis msgs) ?r (\<lambda>_. ()) (?s, w1) = Some (Inr (Inr (), (after_ack ?a no_error ?s, w2)))"
    "service_ok ilib redis glob w2" "settled (databaseConfiguration st) w2" "service_view ilib w2 = ?A(n := (?A n)(k \<mapsto> ?d))"
    using command_operation [OF conjI [OF w1(2,3)] allowed five_seconds_wait [of s1], where a = ?a and msgs = msgs and res = "\<lambda>_. ()"] spec w1(4) by auto
  have "setCommand lib vars c = Some (Inr EXIT_SUCCESS, print_out (''set {'' @ n @ ''},'' @ k @ '' '' @ d @ endl) (c\<lparr>cli_world := w2\<rparr>))"
    using w2(1) by (simp add: setCommand_def vars w1(1) cli_set_def guarded_def lib(1) sync_set_def print_dataMap_def print_data_bytes Let_def)
  then show ?thesis using settled_dbs [OF w2(2,3)] w2(4) by (intro exI [of _ w2]) (simp add: data_def Let_def)
qed

lemma get_on_library:
  fixes st :: "(unit, unit cmds, 'd databaseDiscovery) impl_state" and ilib :: "(unit, unit cmds, 'd databaseDiscovery) impl_lib"
  assumes lib: "cli_sync lib = startup_lib ilib redis msgs" "sync_create lib = tool_create clib ops iter reader"
    and st: "SyncStorage_create clib ops iter reader 0 (None, None) = Inr (s, st)" "static_conf (databaseConfiguration st)"
    and ilib: "static_lib vip clib sops ilib" and redis: "glob_ok glob" "redis_ok glob redis"
    and dbs: "length (snd (fst (cli_world c))) = server_count (databaseConfiguration st)" "\<forall>db\<in>set (snd (fst (cli_world c))). finite (dom db)"
    and ns: "isValidNamespace n" "backend_used st n" and vars: "string_var lib vars ''ns'' = n" "string_var lib vars ''key'' = k"
  defines "data \<equiv> servers_view ilib (databaseConfiguration st)"
  shows "\<exists>w'. getCommand lib vars c =
      Some (Inr EXIT_SUCCESS, print_out ((case data (snd (fst (cli_world c))) n k of None \<Rightarrow> [] | Some v \<Rightarrow> k @ '' '' @ print_data v) @ endl)
        (c\<lparr>cli_world := w'\<rparr>)) \<and>
    length (snd (fst w')) = server_count (databaseConfiguration st) \<and> (\<forall>db\<in>set (snd (fst w')). finite (dom db)) \<and>
    data (snd (fst w')) = data (snd (fst (cli_world c)))"
proof -
  let ?A = "data (snd (fst (cli_world c)))"
  obtain s1 w1 where w1: "createSyncStorage lib n c = Some (Inr (Some s1), c\<lparr>cli_world := w1\<rparr>)" "service_ok ilib redis glob w1"
    "settled (databaseConfiguration st) w1" "service_view ilib w1 = ?A" "\<And>r. request_ns r = n \<Longrightarrow> request_ok r \<Longrightarrow> service_allowed w1 r"
    using created_for_command [OF lib st ilib redis refl dbs ns(2)] unfolding data_def by blast
  let ?s = "setOperationTimeout five_seconds s1" and ?r = "Get n [k] ()"
  let ?m = "case ?A n k of None \<Rightarrow> [] | Some v \<Rightarrow> [(k, v)]"
  let ?a = "CallGet () no_error ?m"
  have spec: "sync_spec1 glob ?r ?A = (?a, ?A)" using ns(1) by (simp add: sync_spec1_def split: option.split)
  have allowed: "service_allowed w1 ?r" using ns(1) by (intro w1(5)) simp_all
  obtain w2 where w2: "sync_operation (startup_lib ilib redis msgs) ?r localMap (?s, w1) =
      Some (Inr (Inr (localMap (after_ack ?a no_error ?s)), (after_ack ?a no_error ?s, w2)))"
    "service_ok ilib redis glob w2" "settled (databaseConfiguration st) w2" "service_view ilib w2 = ?A"
    using command_operation [OF conjI [OF w1(2,3)] allowed five_seconds_wait [of s1], where a = ?a and msgs = msgs and res = localMap] spec w1(4) by auto
  have m: "localMap (after_ack ?a no_error ?s) = ?m" by (simp add: after_ack_def getAck_def)
  have shown: "print_dataMap ?m = (case ?A n k of None \<Rightarrow> [] | Some v \<Rightarrow> k @ '' '' @ print_data v)"
    by (simp add: print_dataMap_def split: option.split)
  have "getCommand lib vars c = Some (Inr EXIT_SUCCESS, print_out (print_dataMap ?m @ endl) (c\<lparr>cli_world := w2\<rparr>))"
    using w2(1) unfolding m by (simp add: getCommand_def vars w1(1) cli_get_def guarded_def lib(1) sync_get_def Let_def)
  then show ?thesis unfolding shown using settled_dbs [OF w2(2,3)] w2(4) by (intro exI [of _ w2]) (simp add: data_def)
qed

text \<open>C38: the tool on the whole library. With static addresses configured and one working database per
  server, \<open>sdltool set\<close> reports the data it has written, and a later \<open>sdltool get\<close> of the same key,
  in another process, prints this data; both return \<open>EXIT_SUCCESS\<close>, and the databases then hold what
  they held before with the new value of the key.\<close>

theorem set_then_get_prints_data:
  fixes st :: "(unit, unit cmds, 'd databaseDiscovery) impl_state" and ilib :: "(unit, unit cmds, 'd databaseDiscovery) impl_lib"
  assumes "cli_sync lib = startup_lib ilib redis msgs" "sync_create lib = tool_create clib ops iter reader"
    "SyncStorage_create clib ops iter reader 0 (None, None) = Inr (s, st)" "static_conf (databaseConfiguration st)"
    "static_lib vip clib sops ilib" "glob_ok glob" "redis_ok glob redis"
    "length (snd (fst (cli_world c))) = server_count (databaseConfiguration st)" "\<forall>db\<in>set (snd (fst (cli_world c))). finite (dom db)"
    "isValidNamespace n" "backend_used st n"
    "string_var lib vars ''ns'' = n" "string_var lib vars ''key'' = k" "string_var lib vars ''data'' = d" "\<not> bool_var lib vars ''debug''"
    "string_var lib vars' ''ns'' = n" "string_var lib vars' ''key'' = k"
  defines "data \<equiv> servers_view ilib (databaseConfiguration st)"
  shows "\<exists>w1 c1 w2. c1 = print_out (''set {'' @ n @ ''},'' @ k @ '' '' @ d @ endl) (c\<lparr>cli_world := w1\<rparr>) \<and>
    setCommand lib vars c = Some (Inr EXIT_SUCCESS, c1) \<and>
    getCommand lib vars' c1 = Some (Inr EXIT_SUCCESS, print_out (k @ '' '' @ d @ endl) (c1\<lparr>cli_world := w2\<rparr>)) \<and>
    data (snd (fst w2)) = (let A = data (snd (fst (cli_world c))) in A(n := (A n)(k \<mapsto> map byte_of_char d)))"
proof -
  obtain w1 where w1: "setCommand lib vars c = Some (Inr EXIT_SUCCESS, print_out (''set {'' @ n @ ''},'' @ k @ '' '' @ d @ endl) (c\<lparr>cli_world := w1\<rparr>))"
    "length (snd (fst w1)) = server_count (databaseConfiguration st)" "\<forall>db\<in>set (snd (fst w1)). finite (dom db)"
    "data (snd (fst w1)) = (let A = data (snd (fst (cli_world c))) in A(n := (A n)(k \<mapsto> map byte_of_char d)))"
    using set_on_library [OF assms(1-15)] unfolding data_def by blast
  let ?c = "print_out (''set {'' @ n @ ''},'' @ k @ '' '' @ d @ endl) (c\<lparr>cli_world := w1\<rparr>)"
  have c: "cli_world ?c = w1" by (simp add: print_out_def)
  have stored: "data (snd (fst w1)) n k = Some (map byte_of_char d)" using w1(4) by (simp add: Let_def)
  obtain w2 where w2: "getCommand lib vars' ?c = Some (Inr EXIT_SUCCESS, print_out
        ((case data (snd (fst w1)) n k of None \<Rightarrow> [] | Some v \<Rightarrow> k @ '' '' @ print_data v) @ endl) (?c\<lparr>cli_world := w2\<rparr>))"
    "data (snd (fst w2)) = data (snd (fst w1))"
    using get_on_library [OF assms(1-7) _ _ assms(10,11,16,17), of ?c] w1(2,3) unfolding c data_def by blast
  have "getCommand lib vars' ?c = Some (Inr EXIT_SUCCESS, print_out (k @ '' '' @ d @ endl) (?c\<lparr>cli_world := w2\<rparr>))"
    using w2(1) unfolding stored by (simp add: print_data_bytes)
  then show ?thesis using w1(1,4) w2(2) by (metis (no_types, lifting))
qed

definition env_cli :: "(string, string list list databaseDiscovery service_world) cli_lib" where
  "env_cli = \<lparr>cli_sync = startup_lib env_lib sample_redis (\<lambda>_ _. []), sync_create = tool_create sample_conf_lib no_json id env_reader,
     hr_now = \<lambda>w. (0, w), string_var = \<lambda>v name. if name = ''ns'' then ''sdltoolns'' else if name = ''key'' then ''key1'' else v,
     int_var = \<lambda>_ _. 2, bool_var = \<lambda>_ _. False\<rparr>"

theorem set_then_get_prints_data_witness:
  "\<exists>c1 c2. setCommand env_cli ''x1'' \<lparr>cli_out = [], cli_err = [], cli_world = ((env_impl, [Map.empty, Map.empty]), 0)\<rparr> = Some (Inr 0, c1) \<and>
     cli_out c1 = ''set {sdltoolns},key1 x1'' @ endl \<and>
     getCommand env_cli [] c1 = Some (Inr 0, c2) \<and> cli_out c2 = ''set {sdltoolns},key1 x1'' @ endl @ ''key1 x1'' @ endl"
proof -
  let ?c = "\<lparr>cli_out = [], cli_err = [], cli_world = ((env_impl, [Map.empty, Map.empty]), 0)\<rparr>"
  have lib: "cli_sync env_cli = startup_lib env_lib sample_redis (\<lambda>_ _. [])" "sync_create env_cli = tool_create sample_conf_lib no_json id env_reader"
    "string_var env_cli v ''ns'' = ''sdltoolns''" "string_var env_cli v ''key'' = ''key1''" "string_var env_cli v ''data'' = v"
    "\<not> bool_var env_cli v ''debug''" for v by (simp_all add: env_cli_def)
  have "isValidNamespace ''sdltoolns''" by (simp add: isValidNamespace_iff)
  note set_then_get_prints_data [OF lib(1,2) env_create env_facts(1,2) sample_glob_ok sample_redis_ok _ _ this env_facts(4) lib(3,4,5,6) lib(3,4), of ?c "''x1''" "[]"]
  then show ?thesis by (auto simp: env_facts(3) print_out_def EXIT_SUCCESS_def)
qed

section \<open>The test of the storage\<close>

definition tool_ready ::
  "(unit, unit cmds, 'd databaseDiscovery) impl_lib \<Rightarrow> redis \<Rightarrow> (string \<Rightarrow> string \<Rightarrow> bool) \<Rightarrow> databaseConfiguration \<Rightarrow> namespace \<Rightarrow>
   'd databaseDiscovery service_world \<Rightarrow> bool" where
  "tool_ready ilib redis glob conf n w \<longleftrightarrow> service_ok ilib redis glob w \<and> settled conf w \<and>
     (\<forall>r. request_ns r = n \<longrightarrow> request_ok r \<longrightarrow> service_allowed w r)"

lemma guarded_operation:
  assumes ready: "tool_ready ilib redis glob conf n (cli_world c)" and s: "waits (operationTimeout s)"
    and r: "request_ns r = n" "request_ok r" "isValidNamespace n" "\<not> no_keys_given r"
    and a: "spec1 glob r (service_view ilib (cli_world c)) = (a, A)" "ack_error a = no_error"
    and out: "printed (res (after_ack a no_error s)) = []"
  shows "\<exists>w' s'. guarded (sync_operation (startup_lib ilib redis msgs) r res (s, cli_world c)) printed failed s c = Some (Inr s', c\<lparr>cli_world := w'\<rparr>) \<and>
    tool_ready ilib redis glob conf n w' \<and> service_view ilib w' = A \<and> operationTimeout s' = operationTimeout s"
proof -
  have "sync_spec1 glob r (service_view ilib (cli_world c)) = (a, A)" using r a(1) by (simp add: sync_spec1_def)
  moreover have "service_ok ilib redis glob (cli_world c) \<and> settled conf (cli_world c)" "service_allowed (cli_world c) r"
    using ready r(1,2) by (simp_all add: tool_ready_def)
  ultimately obtain w' where w': "sync_operation (startup_lib ilib redis msgs) r res (s, cli_world c) =
      Some (Inr (Inr (res (after_ack a no_error s)), (after_ack a no_error s, w')))"
    "service_ok ilib redis glob w'" "settled conf w'" "service_view ilib w' = A" "service_allowed w' = service_allowed (cli_world c)"
    using command_operation [of ilib redis glob "cli_world c" conf r s a msgs res] s a(2) by auto
  have "tool_ready ilib redis glob conf n w'" using w'(2,3,5) ready by (simp add: tool_ready_def)
  moreover have "guarded (sync_operation (startup_lib ilib redis msgs) r res (s, cli_world c)) printed failed s c =
      Some (Inr (after_ack a no_error s), c\<lparr>cli_world := w'\<rparr>)"
    using w'(1) out by (simp add: guarded_def print_out_def)
  ultimately show ?thesis using w'(4) by (intro exI [of _ w'] exI [of _ "after_ack a no_error s"]) simp
qed

text \<open>The operations of the test print nothing when they succeed.\<close>

lemma exec_operations:
  assumes lib: "cli_sync lib = startup_lib ilib redis msgs" and ready: "tool_ready ilib redis glob conf n (cli_world c)"
    and s: "waits (operationTimeout s)" and n: "isValidNamespace n"
  defines "A \<equiv> service_view ilib (cli_world c)"
  shows "\<exists>w' s'. execSet lib s n k v c = Some (Inr s', c\<lparr>cli_world := w'\<rparr>) \<and> tool_ready ilib redis glob conf n w' \<and>
      service_view ilib w' = A(n := (A n)(k \<mapsto> v)) \<and> operationTimeout s' = operationTimeout s"
    and "A n k = Some v \<Longrightarrow> \<exists>w' s'. execGet lib s n k v c = Some (Inr s', c\<lparr>cli_world := w'\<rparr>) \<and> tool_ready ilib redis glob conf n w' \<and>
      service_view ilib w' = A \<and> operationTimeout s' = operationTimeout s"
    and "plain n \<Longrightarrow> \<exists>w' s'. execRemoveAll lib s n c = Some (Inr s', c\<lparr>cli_world := w'\<rparr>) \<and> tool_ready ilib redis glob conf n w' \<and>
      service_view ilib w' = A(n := Map.empty) \<and> operationTimeout s' = operationTimeout s"
proof -
  show "\<exists>w' s'. execSet lib s n k v c = Some (Inr s', c\<lparr>cli_world := w'\<rparr>) \<and> tool_ready ilib redis glob conf n w' \<and>
      service_view ilib w' = A(n := (A n)(k \<mapsto> v)) \<and> operationTimeout s' = operationTimeout s"
    unfolding execSet_def lib sync_set_def
    by (rule guarded_operation [OF ready s, where a = "CallModify () no_error"]) (use n in \<open>simp_all add: A_def\<close>)
  show "\<exists>w' s'. execRemoveAll lib s n c = Some (Inr s', c\<lparr>cli_world := w'\<rparr>) \<and> tool_ready ilib redis glob conf n w' \<and>
      service_view ilib w' = A(n := Map.empty) \<and> operationTimeout s' = operationTimeout s" if "plain n"
    unfolding execRemoveAll_def lib sync_removeAll_def
    by (rule guarded_operation [OF ready s, where a = "CallModify () no_error"]) (use n that in \<open>simp_all add: A_def\<close>)
  show "\<exists>w' s'. execGet lib s n k v c = Some (Inr s', c\<lparr>cli_world := w'\<rparr>) \<and> tool_ready ilib redis glob conf n w' \<and>
      service_view ilib w' = A \<and> operationTimeout s' = operationTimeout s" if "A n k = Some v"
    unfolding execGet_def lib sync_get_def
    by (rule guarded_operation [OF ready s, where a = "CallGet () no_error [(k, v)]"])
      (use n that in \<open>simp_all add: A_def after_ack_def getAck_def\<close>)
qed

definition test_line :: "namespace \<Rightarrow> 8 word \<Rightarrow> int \<times> int \<Rightarrow> string" where
  "test_line n v t = n @ [CHR 0x09] @ (''key_'' @ show_nat (unat v)) @ [CHR 0x09] @ show_nat (unat v) @ [CHR 0x09] @ show_int (fst t) @ [CHR 0x09] @
     show_int (snd t) @ endl"

fun test_lines :: "namespace \<Rightarrow> 8 word \<Rightarrow> (int \<times> int) list \<Rightarrow> string" where
  "test_lines n v [] = []"
| "test_lines n v (t # ts) = test_line n v t @ test_lines n (v + 1) ts"

lemma timed_returns:
  assumes "\<And>w. snd (hr_now lib w) = w" "f c = Some (Inr s', c')"
  shows "\<exists>us. timed lib f c = Some (Inr (us, s'), c')"
proof -
  have "\<exists>t. hr_clock lib c = (t, c)" for c using assms(1) [of "cli_world c"] by (cases "hr_now lib (cli_world c)") (simp add: hr_clock_def)
  then obtain t t' where "hr_clock lib c = (t, c)" "hr_clock lib c' = (t', c')" by meson
  then show ?thesis using assms(2) by (simp add: timed_def)
qed

lemma test_keys_on_library:
  assumes lib: "cli_sync lib = startup_lib ilib redis msgs" "\<And>w. snd (hr_now lib w) = w" and n: "isValidNamespace n"
  shows "tool_ready ilib redis glob conf n (cli_world c) \<Longrightarrow> waits (operationTimeout s) \<Longrightarrow>
    \<exists>ts w' s' B. length ts = m \<and> test_keys lib n m v s c = Some (Inr s', print_out (test_lines n v ts) (c\<lparr>cli_world := w'\<rparr>)) \<and>
      tool_ready ilib redis glob conf n w' \<and> service_view ilib w' = (service_view ilib (cli_world c))(n := B) \<and> waits (operationTimeout s')"
proof (induction m arbitrary: v s c)
  case 0
  then show ?case
    by (intro exI [of _ "[]"] exI [of _ "cli_world c"] exI [of _ s] exI [of _ "service_view ilib (cli_world c) n"]) (simp add: print_out_def)
next
  case (Suc m)
  let ?k = "''key_'' @ show_nat (unat v)" and ?A = "service_view ilib (cli_world c)"
  obtain w1 s1 where 1: "execSet lib s n ?k [v] c = Some (Inr s1, c\<lparr>cli_world := w1\<rparr>)" "tool_ready ilib redis glob conf n w1"
    "service_view ilib w1 = ?A(n := (?A n)(?k \<mapsto> [v]))" "operationTimeout s1 = operationTimeout s"
    using exec_operations(1) [OF lib(1) Suc.prems n] by meson
  let ?c1 = "c\<lparr>cli_world := w1\<rparr>"
  have ready1: "tool_ready ilib redis glob conf n (cli_world ?c1)" "waits (operationTimeout s1)" using 1(2,4) Suc.prems(2) by simp_all
  have "service_view ilib (cli_world ?c1) n ?k = Some [v]" using 1(3) by simp
  from exec_operations(2) [OF lib(1) ready1 n this] obtain w2 s2 where
    2: "execGet lib s1 n ?k [v] ?c1 = Some (Inr s2, ?c1\<lparr>cli_world := w2\<rparr>)" "tool_ready ilib redis glob conf n w2"
      "service_view ilib w2 = service_view ilib (cli_world ?c1)" "operationTimeout s2 = operationTimeout s1" by blast
  obtain us where us: "timed lib (execSet lib s n ?k [v]) c = Some (Inr (us, s1), ?c1)" using timed_returns [OF lib(2), of "execSet lib s n ?k [v]" c] 1(1) by blast
  obtain us' where us': "timed lib (execGet lib s1 n ?k [v]) ?c1 = Some (Inr (us', s2), ?c1\<lparr>cli_world := w2\<rparr>)" using timed_returns [OF lib(2), of "execGet lib s1 n ?k [v]" ?c1] 2(1) by blast
  let ?c2 = "print_out (test_line n v (us, us')) (c\<lparr>cli_world := w2\<rparr>)"
  have c2: "cli_world ?c2 = w2" by (simp add: print_out_def)
  obtain ts w' s' B where 3: "length ts = m" "test_keys lib n m (v + 1) s2 ?c2 = Some (Inr s', print_out (test_lines n (v + 1) ts) (?c2\<lparr>cli_world := w'\<rparr>))"
    "tool_ready ilib redis glob conf n w'" "service_view ilib w' = (service_view ilib w2)(n := B)" "waits (operationTimeout s')"
  proof -
    have "tool_ready ilib redis glob conf n (cli_world ?c2)" "waits (operationTimeout s2)" using 1(4) 2(2,4) Suc.prems(2) by (simp_all add: c2)
    from Suc.IH [OF this, of "v + 1"] show thesis unfolding c2 using that by blast
  qed
  have "test_keys lib n (Suc m) v s c = test_keys lib n m (v + 1) s2 ?c2" using us us' by (simp add: test_line_def Let_def)
  then have "test_keys lib n (Suc m) v s c = Some (Inr s', print_out (test_lines n v ((us, us') # ts)) (c\<lparr>cli_world := w'\<rparr>))"
    using 3(2) by (simp add: print_out_def)
  moreover have "service_view ilib w' = ?A(n := B)" using 3(4) 2(3) 1(3) by simp
  ultimately show ?case using 3(1,3,5) by (intro exI [of _ "(us, us') # ts"] exI [of _ w'] exI [of _ s'] exI [of _ B]) simp
qed

text \<open>C40: \<open>sdltool test-get-set\<close> on the whole library. With static addresses configured and one working
  database per server the command reads back every value it has written, prints one line for each
  key and nothing else but the first and the last line, returns \<open>EXIT_SUCCESS\<close>, and leaves the
  namespace empty, whatever data it held before; other namespaces keep their data. The keys are
  numbered with 8 bits. The command is not given a timeout.\<close>

theorem test_get_set_empties_namespace:
  fixes st :: "(unit, unit cmds, 'd databaseDiscovery) impl_state" and ilib :: "(unit, unit cmds, 'd databaseDiscovery) impl_lib"
  assumes "cli_sync lib = startup_lib ilib redis msgs" "sync_create lib = tool_create clib ops iter reader"
    "SyncStorage_create clib ops iter reader 0 (None, None) = Inr (s, st)" "static_conf (databaseConfiguration st)"
    "static_lib vip clib sops ilib" "glob_ok glob" "redis_ok glob redis"
    "length (snd (fst (cli_world c))) = server_count (databaseConfiguration st)" "\<forall>db\<in>set (snd (fst (cli_world c))). finite (dom db)"
    "isValidNamespace n" "plain n" "backend_used st n" "string_var lib vars ''ns'' = n" "\<And>w. snd (hr_now lib w) = w"
  defines "data \<equiv> servers_view ilib (databaseConfiguration st)"
  shows "\<exists>ts us w'. length ts = nat (int_var lib vars ''key-count'') \<and> TestGetSetCommand lib vars c = Some (Inr EXIT_SUCCESS, print_out
      (''namespace'' @ [CHR 0x09] @ ''key'' @ [CHR 0x09] @ ''value'' @ [CHR 0x09] @ ''Write'' @ [CHR 0x09] @ ''Read'' @ endl @
       test_lines n 0 ts @ ''All test keys removed in '' @ show_int us @ '' microseconds'' @ endl) (c\<lparr>cli_world := w'\<rparr>)) \<and>
    data (snd (fst w')) = (data (snd (fst (cli_world c))))(n := Map.empty)"
proof -
  let ?A = "data (snd (fst (cli_world c)))" and ?conf = "databaseConfiguration st"
  let ?head = "''namespace'' @ [CHR 0x09] @ ''key'' @ [CHR 0x09] @ ''value'' @ [CHR 0x09] @ ''Write'' @ [CHR 0x09] @ ''Read'' @ endl"
  obtain s0 w0 where 0: "createSyncStorage lib n c = Some (Inr (Some s0), c\<lparr>cli_world := w0\<rparr>)" "tool_ready ilib redis glob ?conf n w0"
    "service_view ilib w0 = ?A"
    using created_for_command [OF assms(1-7) refl assms(8,9,12)] unfolding data_def tool_ready_def by blast
  let ?c0 = "print_out ?head (c\<lparr>cli_world := w0\<rparr>)" and ?s0 = "setOperationTimeout five_seconds s0"
  have c0: "cli_world ?c0 = w0" by (simp add: print_out_def)
  obtain ts w1 s1 B where 1: "length ts = nat (int_var lib vars ''key-count'')"
    "test_keys lib n (nat (int_var lib vars ''key-count'')) 0 ?s0 ?c0 = Some (Inr s1, print_out (test_lines n 0 ts) (?c0\<lparr>cli_world := w1\<rparr>))"
    "tool_ready ilib redis glob ?conf n w1" "service_view ilib w1 = ?A(n := B)" "waits (operationTimeout s1)"
  proof -
    have "tool_ready ilib redis glob ?conf n (cli_world ?c0)" unfolding c0 by (rule 0(2))
    from test_keys_on_library [OF assms(1,14,10) this five_seconds_wait] show thesis unfolding c0 0(3) using that by blast
  qed
  let ?c1 = "print_out (test_lines n 0 ts) (?c0\<lparr>cli_world := w1\<rparr>)"
  have c1: "cli_world ?c1 = w1" by (simp add: print_out_def)
  have "tool_ready ilib redis glob ?conf n (cli_world ?c1)" using 1(3) c1 by simp
  from exec_operations(3) [OF assms(1) this 1(5) assms(10,11)] obtain w2 s2 where
    2: "execRemoveAll lib s1 n ?c1 = Some (Inr s2, ?c1\<lparr>cli_world := w2\<rparr>)" "tool_ready ilib redis glob ?conf n w2"
      "service_view ilib w2 = ?A(n := Map.empty)" using 1(4) c1 by auto
  obtain us where us: "timed lib (execRemoveAll lib s1 n) ?c1 = Some (Inr (us, s2), ?c1\<lparr>cli_world := w2\<rparr>)"
    using timed_returns [OF assms(14), of "execRemoveAll lib s1 n" ?c1] 2(1) by blast
  have "TestGetSetCommand lib vars c = Some (Inr EXIT_SUCCESS, print_out (?head @ test_lines n 0 ts @ ''All test keys removed in '' @
      show_int us @ '' microseconds'' @ endl) (c\<lparr>cli_world := w2\<rparr>))"
    using 0(1) 1(2) us by (simp add: TestGetSetCommand_def test_createSyncStorage_def assms(13) Let_def print_out_def)
  moreover have "data (snd (fst w2)) = ?A(n := Map.empty)"
    using 2(2,3) settled_dbs(3) [of ilib redis glob w2 ?conf] by (simp add: tool_ready_def data_def)
  ultimately show ?thesis using 1(1) by (intro exI [of _ ts] exI [of _ us] exI [of _ w2]) simp
qed

theorem test_get_set_empties_namespace_witness:
  "\<exists>t1 t2 us c1. TestGetSetCommand env_cli [] \<lparr>cli_out = [], cli_err = [], cli_world = ((env_impl, [Map.empty, Map.empty]), 0)\<rparr> = Some (Inr 0, c1) \<and>
     cli_out c1 = ''namespace'' @ [CHR 0x09] @ ''key'' @ [CHR 0x09] @ ''value'' @ [CHR 0x09] @ ''Write'' @ [CHR 0x09] @ ''Read'' @ endl @
       test_line ''sdltoolns'' 0 t1 @ test_line ''sdltoolns'' 1 t2 @ ''All test keys removed in '' @ show_int us @ '' microseconds'' @ endl"
proof -
  let ?c = "\<lparr>cli_out = [], cli_err = [], cli_world = ((env_impl, [Map.empty, Map.empty]), 0)\<rparr>"
  let ?out = "\<lambda>ts us. ''namespace'' @ [CHR 0x09] @ ''key'' @ [CHR 0x09] @ ''value'' @ [CHR 0x09] @ ''Write'' @ [CHR 0x09] @ ''Read'' @ endl @
       test_lines ''sdltoolns'' 0 ts @ ''All test keys removed in '' @ show_int us @ '' microseconds'' @ endl"
  have lib: "cli_sync env_cli = startup_lib env_lib sample_redis (\<lambda>_ _. [])" "sync_create env_cli = tool_create sample_conf_lib no_json id env_reader"
    "string_var env_cli [] ''ns'' = ''sdltoolns''" "snd (hr_now env_cli w) = w" for w by (simp_all add: env_cli_def)
  have ns: "isValidNamespace ''sdltoolns''" "plain ''sdltoolns''" by (simp_all add: isValidNamespace_iff plain_def redisSearchPatternCharacters_def)
  obtain ts us w' where r: "length ts = nat (int_var env_cli [] ''key-count'')"
    "TestGetSetCommand env_cli [] ?c = Some (Inr EXIT_SUCCESS, print_out (?out ts us) (?c\<lparr>cli_world := w'\<rparr>))"
    using test_get_set_empties_namespace [OF lib(1,2) env_create env_facts(1,2) sample_glob_ok sample_redis_ok _ _ ns env_facts(4) lib(3,4), of ?c]
    by (auto simp: env_facts(3))
  from r(1) obtain t1 t2 where "ts = [t1, t2]" by (auto simp: env_cli_def length_Suc_conv eval_nat_numeral)
  then have "test_lines ''sdltoolns'' 0 ts = test_line ''sdltoolns'' 0 t1 @ test_line ''sdltoolns'' 1 t2" by simp
  note r' = r(2) [unfolded this append_assoc EXIT_SUCCESS_def]
  have "cli_out (print_out x (?c\<lparr>cli_world := w'\<rparr>)) = x" for x by (simp add: print_out_def)
  then show ?thesis by (intro exI conjI) (rule r')
qed

end
