(* ===== verification/Event_FD.thy ===== *)
theory Event_FD
  imports Prelude
begin

text \<open>
  \<open>EventFD\<close> (\<open>src/eventfd.cpp\<close>): the queue of callbacks posted to the event loop, and the
  system calls it makes (\<open>read\<close>, \<open>write\<close> of \<open>src/system.cpp\<close>) on the eventfd counter of the
  kernel. The record is extended by the components that own it, so a callback may change the
  whole state; \<open>run\<close> is the code of the callbacks.

  The last section has the threads: \<open>post\<close> is called from any thread, and its push and its
  write are separate atomic steps, as are the read and the pop of the event loop.
\<close>

record 'c eventFD =
  callbacks :: "'c list"
  event_counter :: nat

section \<open>Operations\<close>

text \<open>Kernel: a write adds to the counter and a read of a non-zero counter resets it; a
  non-blocking write that would exceed the maximum, and a read of zero, fail with \<open>EAGAIN\<close>.\<close>

definition EAGAIN :: int where "EAGAIN = 11"

definition EVENTFD_MAX :: nat where "EVENTFD_MAX = 2 ^ 64 - 2"

definition sys_write :: "('c, 'z) eventFD_scheme \<Rightarrow> ('c, 'z) eventFD_scheme result" where
  "sys_write s =
     (if event_counter s < EVENTFD_MAX then Inr (s\<lparr>event_counter := event_counter s + 1\<rparr>)
      else Inl (Throw (StdSystemError ''write'' EAGAIN)))"

text \<open>\<open>System::read\<close> ignores \<open>EAGAIN\<close>.\<close>

definition sys_read :: "('c, 'z) eventFD_scheme \<Rightarrow> ('c, 'z) eventFD_scheme" where
  "sys_read s = s\<lparr>event_counter := 0\<rparr>"

definition atomicPushBack :: "'c \<Rightarrow> ('c, 'z) eventFD_scheme \<Rightarrow> ('c, 'z) eventFD_scheme" where
  "atomicPushBack cb s = s\<lparr>callbacks := callbacks s @ [cb]\<rparr>"

definition atomicPopAll :: "('c, 'z) eventFD_scheme \<Rightarrow> 'c list \<times> ('c, 'z) eventFD_scheme" where
  "atomicPopAll s = (callbacks s, s\<lparr>callbacks := []\<rparr>)"

text \<open>A null callback is \<open>None\<close>.\<close>

definition post :: "'c option \<Rightarrow> ('c, 'z) eventFD_scheme \<Rightarrow> ('c, 'z) eventFD_scheme result" where
  "post callback s =
     (case callback of
        None \<Rightarrow> Inl (Abort ''A null callback was provided'')
      | Some cb \<Rightarrow> sys_write (atomicPushBack cb s))"

text \<open>\<open>execute\<close> is \<open>noexcept\<close>: an exception of the callback terminates the program.\<close>

definition execute :: "('c \<Rightarrow> 's \<Rightarrow> 's result) \<Rightarrow> 'c \<Rightarrow> 's \<Rightarrow> 's result" where
  "execute run callback s =
     (case run callback s of Inl (Throw e) \<Rightarrow> Inl (Abort ''terminate'') | r \<Rightarrow> r)"

definition popAndExecuteFirstCallback ::
  "('c \<Rightarrow> 's \<Rightarrow> 's result) \<Rightarrow> 'c list \<Rightarrow> 's \<Rightarrow> ('c list \<times> 's) result" where
  "popAndExecuteFirstCallback run cbs s =
     (case cbs of
        [] \<Rightarrow> Inl Undefined
      | cb # rest \<Rightarrow> rbind (execute run cb s) (\<lambda>s'. Inr (rest, s')))"

function execute_loop :: "('c \<Rightarrow> 's \<Rightarrow> 's result) \<Rightarrow> 'c list \<Rightarrow> 's \<Rightarrow> 's result" where
  "execute_loop run cbs s =
     (if cbs = [] then Inr s
      else rbind (popAndExecuteFirstCallback run cbs s) (\<lambda>(rest, s'). execute_loop run rest s'))"
  by pat_completeness auto
termination
  by (relation "measure (\<lambda>(run, cbs, s). length cbs)")
     (auto simp: popAndExecuteFirstCallback_def rbind_Inr_iff split: list.splits)

declare execute_loop.simps [simp del]

definition executeCallbacks ::
  "('c \<Rightarrow> ('c, 'z) eventFD_scheme \<Rightarrow> ('c, 'z) eventFD_scheme result) \<Rightarrow>
   ('c, 'z) eventFD_scheme \<Rightarrow> ('c, 'z) eventFD_scheme result" where
  "executeCallbacks run s = (let (cbs, s') = atomicPopAll s in execute_loop run cbs s')"

definition handleEvents ::
  "('c \<Rightarrow> ('c, 'z) eventFD_scheme \<Rightarrow> ('c, 'z) eventFD_scheme result) \<Rightarrow>
   ('c, 'z) eventFD_scheme \<Rightarrow> ('c, 'z) eventFD_scheme result" where
  "handleEvents run s = executeCallbacks run (sys_read s)"

section \<open>Order and batches\<close>

lemma execute_loop_for_each: "execute_loop run cbs s = for_each (execute run) cbs s"
proof (induction cbs arbitrary: s)
  case (Cons cb cbs)
  then show ?case
    by (cases "execute run cb s")
       (simp_all add: execute_loop.simps [of run "cb # cbs"] popAndExecuteFirstCallback_def)
qed (simp add: execute_loop.simps)

lemma handleEvents_batch:
  "handleEvents run s = for_each (execute run) (callbacks s) (s\<lparr>event_counter := 0, callbacks := []\<rparr>)"
  by (simp add: handleEvents_def executeCallbacks_def atomicPopAll_def sys_read_def execute_loop_for_each)

text \<open>A log of what was executed, and callbacks that post others.\<close>

record 'c logged_eventFD = "'c eventFD" +
  executed :: "'c list"

fun post_all :: "'c list \<Rightarrow> ('c, 'z) eventFD_scheme \<Rightarrow> ('c, 'z) eventFD_scheme result" where
  "post_all [] s = Inr s"
| "post_all (c # cs) s = rbind (post (Some c) s) (post_all cs)"

definition posting_run ::
  "('c \<Rightarrow> 'c list) \<Rightarrow> 'c \<Rightarrow> ('c, 'z) logged_eventFD_scheme \<Rightarrow> ('c, 'z) logged_eventFD_scheme result" where
  "posting_run posts c s = post_all (posts c) (s\<lparr>executed := executed s @ [c]\<rparr>)"

lemma post_all_total:
  "event_counter s + length cs \<le> EVENTFD_MAX \<Longrightarrow>
     post_all cs s = Inr (s\<lparr>callbacks := callbacks s @ cs, event_counter := event_counter s + length cs\<rparr>)"
  by (induction cs arbitrary: s) (simp_all add: post_def sys_write_def atomicPushBack_def)

lemma posting_batch:
  assumes "event_counter s + length (concat (map posts cbs)) \<le> EVENTFD_MAX"
  shows "for_each (execute (posting_run posts)) cbs s =
    Inr (s\<lparr>callbacks := callbacks s @ concat (map posts cbs),
           event_counter := event_counter s + length (concat (map posts cbs)),
           executed := executed s @ cbs\<rparr>)"
  using assms
proof (induction cbs arbitrary: s)
  case (Cons c cbs)
  have "event_counter s + length (posts c) \<le> EVENTFD_MAX" using Cons.prems by simp
  then have "execute (posting_run posts) c s =
      Inr (s\<lparr>callbacks := callbacks s @ posts c, event_counter := event_counter s + length (posts c),
             executed := executed s @ [c]\<rparr>)"
    by (simp add: execute_def posting_run_def post_all_total)
  then show ?case using Cons by (simp add: add.assoc)
qed simp

text \<open>C19: callbacks run in the order they were posted, each once, and the callbacks they post
  are not run in the same round: they are all queued behind it, in order, for the next round.
  Here a callback \<open>c\<close> posts the list \<open>posts c\<close> when it runs.\<close>

theorem callbacks_fifo_in_rounds:
  assumes "length (concat (map posts (callbacks s))) \<le> EVENTFD_MAX"
  shows "handleEvents (posting_run posts) s =
    Inr (s\<lparr>callbacks := concat (map posts (callbacks s)),
           event_counter := length (concat (map posts (callbacks s))),
           executed := executed s @ callbacks s\<rparr>)"
  using posting_batch [of "s\<lparr>event_counter := 0, callbacks := []\<rparr>" posts "callbacks s"] assms
  by (simp add: handleEvents_batch)

theorem callbacks_fifo_in_rounds_witness:
  "handleEvents (posting_run (\<lambda>c. if c = (1::nat) then [5, 6] else []))
     \<lparr>callbacks = [1, 2], event_counter = 2, executed = []\<rparr>
   = Inr \<lparr>callbacks = [5, 6], event_counter = 2, executed = [1, 2]\<rparr>"
  by (subst callbacks_fifo_in_rounds) (simp_all add: EVENTFD_MAX_def)

section \<open>Threads\<close>

text \<open>The threads that post (each between its push and its write while it is in \<open>posting\<close>),
  and the event loop thread, between its read and its pop while \<open>reading\<close>.\<close>

record 'c threads =
  shared :: "'c eventFD"
  posting :: nat
  reading :: bool

inductive thread_step :: "'c threads \<Rightarrow> 'c threads \<Rightarrow> bool" where
  push_back: "thread_step s (s\<lparr>shared := atomicPushBack c (shared s), posting := posting s + 1\<rparr>)"
| write_fd: "0 < posting s \<Longrightarrow> sys_write (shared s) = Inr e \<Longrightarrow>
    thread_step s (s\<lparr>shared := e, posting := posting s - 1\<rparr>)"
| read_fd: "\<not> reading s \<Longrightarrow> 0 < event_counter (shared s) \<Longrightarrow>
    thread_step s (s\<lparr>shared := sys_read (shared s), reading := True\<rparr>)"
| pop_all: "reading s \<Longrightarrow> atomicPopAll (shared s) = (cbs, e) \<Longrightarrow>
    thread_step s (s\<lparr>shared := e, reading := False\<rparr>)"

inductive thread_reachable :: "'c threads \<Rightarrow> bool" where
  init: "thread_reachable
    \<lparr>shared = \<lparr>callbacks = [], event_counter = 0\<rparr>, posting = 0, reading = False\<rparr>"
| step: "thread_reachable s \<Longrightarrow> thread_step s t \<Longrightarrow> thread_reachable t"

definition no_lost_wakeup :: "'c threads \<Rightarrow> bool" where
  "no_lost_wakeup s =
     (callbacks (shared s) \<noteq> [] \<longrightarrow> 0 < event_counter (shared s) \<or> 0 < posting s \<or> reading s)"

lemma no_lost_wakeup_step: "thread_step s t \<Longrightarrow> no_lost_wakeup s \<Longrightarrow> no_lost_wakeup t"
  by (induction rule: thread_step.induct)
     (auto simp: no_lost_wakeup_def atomicPushBack_def sys_write_def sys_read_def atomicPopAll_def
       split: if_splits)

lemma no_lost_wakeup_reachable: "thread_reachable s \<Longrightarrow> no_lost_wakeup s"
proof (induction rule: thread_reachable.induct)
  case init
  then show ?case by (simp add: no_lost_wakeup_def)
next
  case (step s t)
  then show ?case by (blast intro: no_lost_wakeup_step)
qed

text \<open>C18: no posted callback is lost, in any interleaving of threads: whenever no thread is in
  the middle of \<open>post\<close> and the event loop is not between its read and its pop, queued callbacks
  imply that the eventfd is readable, so that the event loop will be woken up.\<close>

theorem queued_callbacks_wake_the_loop:
  assumes "thread_reachable s" "posting s = 0" "\<not> reading s" "callbacks (shared s) \<noteq> []"
  shows "0 < event_counter (shared s)"
  using no_lost_wakeup_reachable [OF assms(1)] assms(2-4) by (simp add: no_lost_wakeup_def)

lemma sample_threads_reachable:
  "thread_reachable \<lparr>shared = \<lparr>callbacks = [True], event_counter = 1\<rparr>, posting = 0, reading = False\<rparr>"
proof -
  let ?i = "\<lparr>shared = \<lparr>callbacks = [], event_counter = 0\<rparr>, posting = 0, reading = False\<rparr> :: bool threads"
  let ?p = "\<lparr>shared = \<lparr>callbacks = [True], event_counter = 0\<rparr>, posting = 1, reading = False\<rparr> :: bool threads"
  have "thread_step ?i ?p"
    using thread_step.push_back [of ?i True] by (simp add: atomicPushBack_def)
  then have "thread_reachable ?p" using thread_reachable.init thread_reachable.step by blast
  moreover have "thread_step ?p
      \<lparr>shared = \<lparr>callbacks = [True], event_counter = 1\<rparr>, posting = 0, reading = False\<rparr>"
    using thread_step.write_fd [of ?p "\<lparr>callbacks = [True], event_counter = 1\<rparr>"]
    by (simp add: sys_write_def EVENTFD_MAX_def)
  ultimately show ?thesis using thread_reachable.step by blast
qed

theorem queued_callbacks_wake_the_loop_witness:
  "0 < event_counter (shared
     \<lparr>shared = \<lparr>callbacks = [True], event_counter = 1\<rparr>, posting = 0, reading = False\<rparr>)"
  using queued_callbacks_wake_the_loop [OF sample_threads_reachable] by simp

end
