(* ===== verification/Timer_FD.thy ===== *)
theory Timer_FD
  imports Event_FD "HOL-Library.Signed_Division"
begin

text \<open>
  \<open>TimerFD\<close> and \<open>Timer\<close> (\<open>src/timerfd.cpp\<close>, \<open>src/timer.cpp\<close>): one shot timers multiplexed on one
  timerfd of the kernel.

  The queue is a \<open>std::multimap\<close>: the nodes in the order of their trigger times, a new node
  behind the ones with an equal trigger. An iterator is the identity of its node. The timer
  objects are \<open>timers\<close>, by identity. \<open>clock\<close> is the steady clock in nanoseconds, which the
  environment advances; \<open>timer_setting\<close> is what the last \<open>timerfd_settime\<close> set, seconds and
  nanoseconds, where two zeros disarm. \<open>run\<close> is the code of the callbacks.
\<close>

record timer =
  armed :: bool
  iterator :: nat

record 'c timer_node =
  trigger :: int
  node :: nat
  owner :: nat
  action :: 'c

record 'c timerFD = "'c eventFD" +
  queue :: "'c timer_node list"
  next_node :: nat
  timers :: "nat \<Rightarrow> timer"
  timer_setting :: "int \<times> int"
  clock :: int

section \<open>TimerFD\<close>

definition setTimeForTimerFD :: "int \<Rightarrow> int \<Rightarrow> ('c, 'z) timerFD_scheme \<Rightarrow> ('c, 'z) timerFD_scheme" where
  "setTimeForTimerFD seconds nanoseconds s = s\<lparr>timer_setting := (seconds, nanoseconds)\<rparr>"

definition NANOSECONDS_IN_ONE_SECOND :: int where
  "NANOSECONDS_IN_ONE_SECOND = 1000000000"

definition armTimerFD :: "int \<Rightarrow> ('c, 'z) timerFD_scheme \<Rightarrow> ('c, 'z) timerFD_scheme" where
  "armTimerFD duration s =
     setTimeForTimerFD (duration sdiv NANOSECONDS_IN_ONE_SECOND) (duration smod NANOSECONDS_IN_ONE_SECOND) s"

definition disarmTimerFD :: "('c, 'z) timerFD_scheme \<Rightarrow> ('c, 'z) timerFD_scheme" where
  "disarmTimerFD s = setTimeForTimerFD 0 0 s"

text \<open>A duration counts nanoseconds in a signed 64-bit integer. The sum with the time that has
  passed since the epoch of the steady clock is undefined when it does not fit.\<close>

definition fits_duration :: "int \<Rightarrow> bool" where
  "fits_duration d \<longleftrightarrow> - (2 ^ 63) \<le> d \<and> d < 2 ^ 63"

definition toAbsolute :: "int \<Rightarrow> ('c, 'z) timerFD_scheme \<Rightarrow> int result" where
  "toAbsolute duration s =
     (if fits_duration (clock s + duration) then Inr (clock s + duration) else Inl Undefined)"

fun queue_insert :: "'c timer_node \<Rightarrow> 'c timer_node list \<Rightarrow> 'c timer_node list" where
  "queue_insert n [] = [n]"
| "queue_insert n (m # q) = (if trigger m \<le> trigger n then m # queue_insert n q else n # m # q)"

definition isFirst :: "nat \<Rightarrow> ('c, 'z) timerFD_scheme \<Rightarrow> bool" where
  "isFirst it s = (case queue s of [] \<Rightarrow> False | n # _ \<Rightarrow> node n = it)"

definition TimerFD_arm ::
  "nat \<Rightarrow> int \<Rightarrow> 'c \<Rightarrow> ('c, 'z) timerFD_scheme \<Rightarrow> ('c, 'z) timerFD_scheme result" where
  "TimerFD_arm t duration cb s =
     rbind (toAbsolute duration s) (\<lambda>absolute.
      let i = next_node s;
          s1 = s\<lparr>queue := queue_insert \<lparr>trigger = absolute, node = i, owner = t, action = cb\<rparr> (queue s),
                 next_node := i + 1,
                 timers := (timers s)(t := (timers s t)\<lparr>iterator := i\<rparr>)\<rparr>
      in Inr (if isFirst i s1 then armTimerFD absolute s1 else s1))"

definition nextTrigger :: "('c, 'z) timerFD_scheme \<Rightarrow> int" where
  "nextTrigger s = trigger (hd (queue s))"

text \<open>Erasing an iterator that is not in the queue is undefined.\<close>

definition TimerFD_disarm :: "nat \<Rightarrow> ('c, 'z) timerFD_scheme \<Rightarrow> ('c, 'z) timerFD_scheme result" where
  "TimerFD_disarm t s =
     (let it = iterator (timers s t);
          wasFirst = isFirst it s
      in if it \<notin> node ` set (queue s) then Inl Undefined
         else let s1 = s\<lparr>queue := filter (\<lambda>n. node n \<noteq> it) (queue s)\<rparr>
              in if queue s1 = [] then Inr (disarmTimerFD s1)
                 else if wasFirst then Inr (armTimerFD (nextTrigger s1) s1)
                 else Inr s1)"

section \<open>Timer\<close>

text \<open>\<open>Engine::armTimer\<close> and \<open>disarmTimer\<close> first create the \<open>TimerFD\<close> if there is none: the
  argument \<open>getTimerFD\<close>.\<close>

definition Timer_disarm ::
  "(('c, 'z) timerFD_scheme \<Rightarrow> ('c, 'z) timerFD_scheme result) \<Rightarrow> nat \<Rightarrow>
   ('c, 'z) timerFD_scheme \<Rightarrow> ('c, 'z) timerFD_scheme result" where
  "Timer_disarm getTimerFD t s =
     (if \<not> armed (timers s t) then Inr s
      else rbind (rbind (getTimerFD s) (TimerFD_disarm t))
             (\<lambda>s'. Inr (s'\<lparr>timers := (timers s')(t := (timers s' t)\<lparr>armed := False\<rparr>)\<rparr>)))"

definition Timer_arm ::
  "(('c, 'z) timerFD_scheme \<Rightarrow> ('c, 'z) timerFD_scheme result) \<Rightarrow> nat \<Rightarrow> int \<Rightarrow> 'c option \<Rightarrow>
   ('c, 'z) timerFD_scheme \<Rightarrow> ('c, 'z) timerFD_scheme result" where
  "Timer_arm getTimerFD t duration callback s =
     (case callback of
        None \<Rightarrow> Inl (Abort ''Timer::arm: a null callback'')
      | Some cb \<Rightarrow>
          rbind (Timer_disarm getTimerFD t s) (\<lambda>s1.
          rbind (getTimerFD s1) (\<lambda>s2.
          rbind (TimerFD_arm t duration cb s2) (\<lambda>s3.
            Inr (s3\<lparr>timers := (timers s3)(t := (timers s3 t)\<lparr>armed := True\<rparr>)\<rparr>)))))"

definition isArmed :: "nat \<Rightarrow> ('c, 'z) timerFD_scheme \<Rightarrow> bool" where
  "isArmed t s = armed (timers s t)"

section \<open>Expiration\<close>

text \<open>The callback in the queue is the lambda of \<open>Timer::arm\<close>: it clears \<open>armed\<close> of the owner
  and calls the user's callback.\<close>

definition popAndExecuteFirstTimer ::
  "('c \<Rightarrow> ('c, 'z) timerFD_scheme \<Rightarrow> ('c, 'z) timerFD_scheme result) \<Rightarrow>
   ('c, 'z) timerFD_scheme \<Rightarrow> ('c, 'z) timerFD_scheme result" where
  "popAndExecuteFirstTimer run s =
     (case queue s of
        [] \<Rightarrow> Inl Undefined
      | n # q \<Rightarrow>
          run (action n) (s\<lparr>queue := q, timers := (timers s)(owner n := (timers s (owner n))\<lparr>armed := False\<rparr>)\<rparr>))"

text \<open>The do-while loop; \<open>None\<close> would be not returning.\<close>

partial_function (option) expire_loop ::
  "('c \<Rightarrow> ('c, 'z) timerFD_scheme \<Rightarrow> ('c, 'z) timerFD_scheme result) \<Rightarrow> int \<Rightarrow>
   ('c, 'z) timerFD_scheme \<Rightarrow> ('c, 'z) timerFD_scheme result option" where
  "expire_loop run now s =
     (case popAndExecuteFirstTimer run s of
        Inl e \<Rightarrow> Some (Inl e)
      | Inr s' \<Rightarrow>
          if queue s' = [] then Some (Inr (disarmTimerFD s'))
          else if trigger (hd (queue s')) \<le> now then expire_loop run now s'
          else Some (Inr (armTimerFD (nextTrigger s') s')))"

definition handleExpiredTimers ::
  "('c \<Rightarrow> ('c, 'z) timerFD_scheme \<Rightarrow> ('c, 'z) timerFD_scheme result) \<Rightarrow>
   ('c, 'z) timerFD_scheme \<Rightarrow> ('c, 'z) timerFD_scheme result option" where
  "handleExpiredTimers run s = expire_loop run (clock s) s"

text \<open>The timerfd reads a non-zero count when it is armed and its time has come; a \<open>settime\<close>
  resets it.\<close>

definition kernel_trigger :: "int \<times> int \<Rightarrow> int option" where
  "kernel_trigger setting =
     (if setting = (0, 0) then None
      else Some (fst setting * NANOSECONDS_IN_ONE_SECOND + snd setting))"

definition timerExpired :: "('c, 'z) timerFD_scheme \<Rightarrow> bool" where
  "timerExpired s = (case kernel_trigger (timer_setting s) of None \<Rightarrow> False | Some x \<Rightarrow> x \<le> clock s)"

definition TimerFD_handleEvents ::
  "('c \<Rightarrow> ('c, 'z) timerFD_scheme \<Rightarrow> ('c, 'z) timerFD_scheme result) \<Rightarrow>
   ('c, 'z) timerFD_scheme \<Rightarrow> ('c, 'z) timerFD_scheme result option" where
  "TimerFD_handleEvents run s = (if timerExpired s then handleExpiredTimers run s else Some (Inr s))"

section \<open>The queue and the timer objects\<close>

definition tq_inv :: "'c timer_node list \<Rightarrow> nat \<Rightarrow> (nat \<Rightarrow> timer) \<Rightarrow> bool" where
  "tq_inv q nn ts =
     (sorted (map trigger q) \<and> distinct (map node q) \<and>
      (\<forall>n\<in>set q. node n < nn \<and> armed (ts (owner n)) \<and> iterator (ts (owner n)) = node n) \<and>
      (\<forall>t. armed (ts t) \<longrightarrow> (\<exists>n\<in>set q. owner n = t)))"

lemma set_queue_insert [simp]: "set (queue_insert n q) = insert n (set q)"
  by (induction q) auto

lemma queue_insert_not_Nil [simp]: "queue_insert n q \<noteq> []"
  by (cases q) auto

lemma sorted_queue_insert: "sorted (map trigger q) \<Longrightarrow> sorted (map trigger (queue_insert n q))"
  by (induction q) auto

lemma distinct_queue_insert:
  "distinct (map node q) \<Longrightarrow> node n \<notin> node ` set q \<Longrightarrow> distinct (map node (queue_insert n q))"
  by (induction q) auto

lemma hd_queue_insert:
  "hd (queue_insert n q) = (if q = [] \<or> trigger n < trigger (hd q) then n else hd q)"
  by (cases q) auto

lemma tq_inv_insert:
  assumes "tq_inv q nn ts" "\<not> armed (ts t)"
  shows "tq_inv (queue_insert \<lparr>trigger = a, node = nn, owner = t, action = cb\<rparr> q) (Suc nn)
    (ts(t := \<lparr>armed = True, iterator = nn\<rparr>))"
proof -
  have "nn \<notin> node ` set q" "\<And>n. n \<in> set q \<Longrightarrow> owner n \<noteq> t"
    using assms unfolding tq_inv_def by force+
  moreover have "sorted (map trigger q)" "distinct (map node q)"
    using assms(1) by (simp_all add: tq_inv_def)
  ultimately show ?thesis
    using assms(1) unfolding tq_inv_def
    by (simp add: sorted_queue_insert distinct_queue_insert less_SucI)
qed

lemma tq_inv_owner:
  assumes "tq_inv q nn ts" "armed (ts t)" "n \<in> set q"
  shows "node n = iterator (ts t) \<longleftrightarrow> owner n = t"
proof -
  obtain n' where n': "n' \<in> set q" "owner n' = t" "node n' = iterator (ts t)"
    using assms(1,2) unfolding tq_inv_def by metis
  have "node n = node n' \<Longrightarrow> n = n'"
    using assms(1,3) n'(1) by (metis tq_inv_def distinct_map inj_on_def)
  then show ?thesis using assms(1,3) n' unfolding tq_inv_def by metis
qed

lemma tq_inv_remove:
  assumes "tq_inv q nn ts" "armed (ts t)"
  shows "tq_inv (filter (\<lambda>n. node n \<noteq> iterator (ts t)) q) nn (ts(t := (ts t)\<lparr>armed := False\<rparr>))"
proof -
  have eq: "filter (\<lambda>n. node n \<noteq> iterator (ts t)) q = filter (\<lambda>n. owner n \<noteq> t) q"
    using tq_inv_owner [OF assms] by (intro filter_cong) auto
  show ?thesis unfolding eq using assms(1) unfolding tq_inv_def
    by (auto simp: sorted_filter distinct_map_filter)
qed

lemma tq_inv_in_queue:
  "tq_inv q nn ts \<Longrightarrow> armed (ts t) \<Longrightarrow> iterator (ts t) \<in> node ` set q"
  unfolding tq_inv_def by (metis imageI)

lemma tq_inv_pop:
  assumes "tq_inv (n # q) nn ts"
  shows "tq_inv q nn (ts(owner n := (ts (owner n))\<lparr>armed := False\<rparr>))"
proof -
  have a: "armed (ts (owner n))" and i: "iterator (ts (owner n)) = node n"
    using assms by (simp_all add: tq_inv_def)
  have "node n \<notin> node ` set q" using assms by (simp add: tq_inv_def)
  then have "filter (\<lambda>m. node m \<noteq> node n) q = q" by (intro filter_True) (metis imageI)
  with tq_inv_remove [OF assms a] show ?thesis by (simp add: i)
qed

section \<open>The invariant of a timer queue and its kernel timer\<close>

definition timer_inv :: "('c, 'z) timerFD_scheme \<Rightarrow> bool" where
  "timer_inv s = (tq_inv (queue s) (next_node s) (timers s) \<and>
     (\<forall>n\<in>set (queue s). 0 < trigger n) \<and> 0 \<le> clock s)"

text \<open>The kernel timer is set to the first trigger, and disarmed when there is none.\<close>

definition setting_ok :: "('c, 'z) timerFD_scheme \<Rightarrow> bool" where
  "setting_ok s = (kernel_trigger (timer_setting s) =
     (if queue s = [] then None else Some (trigger (hd (queue s)))))"

lemma kernel_trigger_split:
  assumes "0 < d"
  shows "kernel_trigger (d sdiv NANOSECONDS_IN_ONE_SECOND, d smod NANOSECONDS_IN_ONE_SECOND) = Some d"
proof -
  have d: "d sdiv NANOSECONDS_IN_ONE_SECOND * NANOSECONDS_IN_ONE_SECOND + d smod NANOSECONDS_IN_ONE_SECOND = d"
    by (rule sdiv_mult_smod_eq)
  then show ?thesis using assms by (auto simp: kernel_trigger_def)
qed

lemma setting_ok_arm: "queue s \<noteq> [] \<Longrightarrow> 0 < trigger (hd (queue s)) \<Longrightarrow> setting_ok (armTimerFD (nextTrigger s) s)"
  by (simp add: setting_ok_def armTimerFD_def setTimeForTimerFD_def nextTrigger_def kernel_trigger_split)

lemma setting_ok_disarm: "queue s = [] \<Longrightarrow> setting_ok (disarmTimerFD s)"
  by (simp add: setting_ok_def disarmTimerFD_def setTimeForTimerFD_def kernel_trigger_def)

lemma timer_inv_set_time [simp]:
  "timer_inv (armTimerFD d s) = timer_inv s" "timer_inv (disarmTimerFD s) = timer_inv s"
  "queue (armTimerFD d s) = queue s" "queue (disarmTimerFD s) = queue s"
  "timers (armTimerFD d s) = timers s" "timers (disarmTimerFD s) = timers s"
  "clock (armTimerFD d s) = clock s" "clock (disarmTimerFD s) = clock s"
  "next_node (armTimerFD d s) = next_node s" "next_node (disarmTimerFD s) = next_node s"
  by (simp_all add: timer_inv_def armTimerFD_def disarmTimerFD_def setTimeForTimerFD_def)

lemma timer_inv_first: "timer_inv s \<Longrightarrow> queue s \<noteq> [] \<Longrightarrow> 0 < trigger (hd (queue s))"
  by (simp add: timer_inv_def)

text \<open>What the creation of the \<open>TimerFD\<close> keeps.\<close>

definition keeps_timers ::
  "(('c, 'z) timerFD_scheme \<Rightarrow> ('c, 'z) timerFD_scheme result) \<Rightarrow> bool" where
  "keeps_timers getTimerFD =
     (\<forall>s s'. getTimerFD s = Inr s' \<longrightarrow> queue s' = queue s \<and> next_node s' = next_node s \<and>
        timers s' = timers s \<and> timer_setting s' = timer_setting s \<and> clock s' = clock s)"

lemma keeps_timersD:
  assumes "keeps_timers g" "g s = Inr s'"
  shows "queue s' = queue s" "next_node s' = next_node s" "timers s' = timers s"
    "timer_setting s' = timer_setting s" "clock s' = clock s"
    "timer_inv s' = timer_inv s" "setting_ok s' = setting_ok s"
  using assms by (auto simp: keeps_timers_def timer_inv_def setting_ok_def)

lemma TimerFD_disarm_unfold:
  assumes "timer_inv s" "armed (timers s t)"
  shows "TimerFD_disarm t s = Inr
    (let s1 = s\<lparr>queue := filter (\<lambda>n. node n \<noteq> iterator (timers s t)) (queue s)\<rparr>
     in if queue s1 = [] then disarmTimerFD s1
        else if isFirst (iterator (timers s t)) s then armTimerFD (nextTrigger s1) s1 else s1)"
  using tq_inv_in_queue [of "queue s" "next_node s" "timers s" t] assms
  by (simp add: TimerFD_disarm_def Let_def timer_inv_def)

lemma not_first_hd_filter:
  "\<not> isFirst it s \<Longrightarrow> queue s \<noteq> [] \<Longrightarrow> hd (filter (\<lambda>n. node n \<noteq> it) (queue s)) = hd (queue s)"
  by (cases "queue s") (auto simp: isFirst_def)

text \<open>After \<open>TimerFD_disarm\<close> the owner's flag is still set: the invariant is that of the queue
  with the flag cleared.\<close>

lemma Timer_disarm_armed:
  assumes "keeps_timers g" "timer_inv s" "armed (timers s t)" "Timer_disarm g t s = Inr u"
  shows "queue u = filter (\<lambda>n. node n \<noteq> iterator (timers s t)) (queue s) \<and>
    timers u = (timers s)(t := (timers s t)\<lparr>armed := False\<rparr>) \<and> next_node u = next_node s \<and>
    clock u = clock s \<and> (setting_ok s \<longrightarrow> setting_ok u)"
proof -
  obtain s' where s': "g s = Inr s'" using assms(3,4) by (auto simp: Timer_disarm_def rbind_Inr_iff)
  note k = keeps_timersD [OF assms(1) s']
  let ?s1 = "s'\<lparr>queue := filter (\<lambda>n. node n \<noteq> iterator (timers s t)) (queue s)\<rparr>"
  let ?v = "if queue ?s1 = [] then disarmTimerFD ?s1
    else if isFirst (iterator (timers s t)) s' then armTimerFD (nextTrigger ?s1) ?s1 else ?s1"
  have "TimerFD_disarm t s' = Inr ?v"
    using TimerFD_disarm_unfold [of s' t] assms(2,3) k by (simp only: Let_def)
  then have u: "u = ?v\<lparr>timers := (timers ?v)(t := (timers ?v t)\<lparr>armed := False\<rparr>)\<rparr>"
    using assms(3,4) s' by (simp add: Timer_disarm_def)
  have q: "queue ?v = queue ?s1" "timers ?v = timers s" "next_node ?v = next_node s" "clock ?v = clock s"
    using k by simp_all
  have pos: "queue ?s1 \<noteq> [] \<Longrightarrow> 0 < trigger (hd (queue ?s1))"
    using assms(2) hd_in_set [of "queue ?s1"] by (auto simp: timer_inv_def)
  have "setting_ok ?v" if "setting_ok s"
  proof -
    have "setting_ok s'" using that k by simp
    moreover have "hd (queue ?s1) = hd (queue s')" if "\<not> isFirst (iterator (timers s t)) s'" "queue ?s1 \<noteq> []"
      using that not_first_hd_filter [of "iterator (timers s t)" s'] k by (cases "queue s' = []") simp_all
    ultimately have "setting_ok ?s1" if "\<not> isFirst (iterator (timers s t)) s'" "queue ?s1 \<noteq> []"
      using that k by (auto simp: setting_ok_def)
    then show ?thesis using pos by (simp add: setting_ok_arm setting_ok_disarm)
  qed
  moreover have "setting_ok u = setting_ok ?v" unfolding u by (simp add: setting_ok_def)
  ultimately show ?thesis unfolding u using q by simp
qed

lemma Timer_disarm_inv:
  assumes "keeps_timers g" "timer_inv s" "Timer_disarm g t s = Inr u"
  shows "timer_inv u \<and> \<not> armed (timers u t) \<and> set (queue u) \<subseteq> set (queue s) \<and> clock u = clock s \<and>
    (setting_ok s \<longrightarrow> setting_ok u)"
proof (cases "armed (timers s t)")
  case True
  have "tq_inv (queue s) (next_node s) (timers s)" using assms(2) by (simp add: timer_inv_def)
  from tq_inv_remove [OF this True] Timer_disarm_armed [OF assms(1,2) True assms(3)] assms(2)
  show ?thesis by (auto simp: timer_inv_def)
next
  case False
  then show ?thesis using assms by (simp add: Timer_disarm_def)
qed

lemma isFirst_iff: "isFirst it s \<longleftrightarrow> queue s \<noteq> [] \<and> node (hd (queue s)) = it"
  by (cases "queue s") (simp_all add: isFirst_def)

lemma TimerFD_arm_parts:
  assumes "TimerFD_arm t d cb s = Inr u"
  shows "queue u = queue_insert \<lparr>trigger = clock s + d, node = next_node s, owner = t, action = cb\<rparr> (queue s)"
    "timers u = (timers s)(t := (timers s t)\<lparr>iterator := next_node s\<rparr>)"
    "next_node u = Suc (next_node s)" "clock u = clock s"
  using assms by (auto simp: TimerFD_arm_def Let_def toAbsolute_def split: if_splits)

lemma TimerFD_arm_setting:
  assumes "timer_inv s" "setting_ok s" "0 < clock s + d" "TimerFD_arm t d cb s = Inr u"
  shows "setting_ok u"
proof -
  let ?n = "\<lparr>trigger = clock s + d, node = next_node s, owner = t, action = cb\<rparr>"
  let ?s1 = "s\<lparr>queue := queue_insert ?n (queue s), next_node := next_node s + 1,
    timers := (timers s)(t := (timers s t)\<lparr>iterator := next_node s\<rparr>)\<rparr>"
  have arm: "u = (if isFirst (next_node s) ?s1 then armTimerFD (clock s + d) ?s1 else ?s1)"
    using assms(4) by (simp add: TimerFD_arm_def Let_def toAbsolute_def split: if_split_asm)
  have first: "isFirst (next_node s) ?s1 \<longleftrightarrow> queue s = [] \<or> clock s + d < trigger (hd (queue s))"
  proof (cases "queue s = []")
    case False
    then have "node (hd (queue s)) < next_node s"
      using assms(1) by (simp add: timer_inv_def tq_inv_def)
    then show ?thesis using False by (simp add: isFirst_iff hd_queue_insert)
  qed (simp add: isFirst_iff)
  show ?thesis
  proof (cases "isFirst (next_node s) ?s1")
    case True
    then have "nextTrigger ?s1 = clock s + d"
      using first by (auto simp: nextTrigger_def hd_queue_insert)
    then have "setting_ok (armTimerFD (clock s + d) ?s1)"
      using setting_ok_arm [of ?s1] assms(3) by (simp add: nextTrigger_def)
    with True show ?thesis by (simp only: arm if_True)
  next
    case False
    then have "queue s \<noteq> []" "hd (queue ?s1) = hd (queue s)"
      using first by (simp_all add: hd_queue_insert)
    then have "setting_ok ?s1" using assms(2) by (simp add: setting_ok_def)
    with False show ?thesis by (simp only: arm if_False)
  qed
qed

lemma Timer_arm_inv:
  assumes "keeps_timers g" "timer_inv s" "0 < d" "Timer_arm g t d (Some cb) s = Inr u"
  shows "timer_inv u \<and> armed (timers u t) \<and> clock u = clock s \<and>
    set (queue u) \<subseteq> insert \<lparr>trigger = clock s + d, node = next_node s, owner = t, action = cb\<rparr> (set (queue s)) \<and>
    (setting_ok s \<longrightarrow> setting_ok u)"
proof -
  obtain s1 s2 s3 where s1: "Timer_disarm g t s = Inr s1" and s2: "g s1 = Inr s2"
    and s3: "TimerFD_arm t d cb s2 = Inr s3"
    and u: "u = s3\<lparr>timers := (timers s3)(t := (timers s3 t)\<lparr>armed := True\<rparr>)\<rparr>"
    using assms(4) by (auto simp: Timer_arm_def rbind_Inr_iff)
  note arm = TimerFD_arm_parts [OF s3]
  note i1 = Timer_disarm_inv [OF assms(1,2) s1] and k = keeps_timersD [OF assms(1) s2]
  have nn: "next_node s1 = next_node s"
    using Timer_disarm_armed [OF assms(1,2) _ s1] s1 by (cases "armed (timers s t)") (simp_all add: Timer_disarm_def)
  have inv: "timer_inv s2" "\<not> armed (timers s2 t)" "clock s2 = clock s"
    "set (queue s2) \<subseteq> set (queue s)" "next_node s2 = next_node s" "setting_ok s \<Longrightarrow> setting_ok s2"
    using i1 k nn by simp_all
  have ts: "timers u = (timers s2)(t := \<lparr>armed = True, iterator = next_node s2\<rparr>)"
    unfolding u by (cases "timers s2 t") (simp add: arm)
  have pos: "0 < clock s2 + d" using inv(1) assms(3) by (simp add: timer_inv_def)
  have "tq_inv (queue u) (next_node u) (timers u)"
    using tq_inv_insert [of "queue s2" "next_node s2" "timers s2" t] inv(1,2)
    unfolding ts unfolding u by (simp add: arm timer_inv_def)
  then have "timer_inv u" using inv(1) pos unfolding u by (auto simp: timer_inv_def arm)
  moreover have "setting_ok u" if "setting_ok s"
    using TimerFD_arm_setting [OF inv(1) inv(6) [OF that] pos s3] unfolding u by (simp add: setting_ok_def)
  ultimately show ?thesis using inv ts unfolding u by (auto simp: arm)
qed

section \<open>Code that uses timers\<close>

text \<open>What a callback may do: arm timers with positive durations, disarm them, and anything that
  is not about timers, while time passes.\<close>

inductive uses_timers ::
  "(('c, 'z) timerFD_scheme \<Rightarrow> ('c, 'z) timerFD_scheme result) \<Rightarrow>
   ('c, 'z) timerFD_scheme \<Rightarrow> ('c, 'z) timerFD_scheme \<Rightarrow> bool" for g s where
  none: "uses_timers g s s"
| arm: "uses_timers g s t \<Longrightarrow> 0 < d \<Longrightarrow> Timer_arm g i d (Some cb) t = Inr u \<Longrightarrow> uses_timers g s u"
| disarm: "uses_timers g s t \<Longrightarrow> Timer_disarm g i t = Inr u \<Longrightarrow> uses_timers g s u"
| other: "uses_timers g s t \<Longrightarrow> queue u = queue t \<Longrightarrow> next_node u = next_node t \<Longrightarrow>
    timers u = timers t \<Longrightarrow> timer_setting u = timer_setting t \<Longrightarrow> clock t \<le> clock u \<Longrightarrow> uses_timers g s u"

lemma uses_timers_inv:
  assumes "keeps_timers g" "timer_inv s" "uses_timers g s t"
  shows "timer_inv t \<and> clock s \<le> clock t \<and> (setting_ok s \<longrightarrow> setting_ok t) \<and>
    (\<forall>n\<in>set (queue t). n \<in> set (queue s) \<or> clock s < trigger n)"
  using assms(3)
proof (induction rule: uses_timers.induct)
  case none
  then show ?case using assms(2) by simp
next
  case (arm t d i cb u)
  then show ?case using Timer_arm_inv [OF assms(1) _ arm.hyps(2,3)] by fastforce
next
  case (disarm t i u)
  then show ?case using Timer_disarm_inv [OF assms(1) _ disarm.hyps(2)] by fastforce
next
  case (other t u)
  then show ?case by (auto simp: timer_inv_def setting_ok_def)
qed

text \<open>The nodes that the loop has still to execute.\<close>

definition expired :: "int \<Rightarrow> ('c, 'z) timerFD_scheme \<Rightarrow> nat set" where
  "expired now s = node ` {n \<in> set (queue s). trigger n \<le> now}"

lemma finite_expired [simp]: "finite (expired now s)"
  by (simp add: expired_def)

lemma pop_step:
  assumes "keeps_timers g" "timer_inv s" "queue s = n # q" "now \<le> clock s"
    and "run (action n) (s\<lparr>queue := q, timers := (timers s)(owner n := (timers s (owner n))\<lparr>armed := False\<rparr>)\<rparr>) = Inr s'"
    and "uses_timers g (s\<lparr>queue := q, timers := (timers s)(owner n := (timers s (owner n))\<lparr>armed := False\<rparr>)\<rparr>) s'"
  shows "timer_inv s' \<and> now \<le> clock s' \<and> expired now s' \<subseteq> expired now s - {node n}"
proof -
  let ?s = "s\<lparr>queue := q, timers := (timers s)(owner n := (timers s (owner n))\<lparr>armed := False\<rparr>)\<rparr>"
  have tq: "tq_inv (n # q) (next_node s) (timers s)" using assms(2,3) by (simp add: timer_inv_def)
  have inv: "timer_inv ?s" using tq_inv_pop [OF tq] assms(2,3) by (simp add: timer_inv_def)
  have fresh: "node n \<notin> node ` set q" using tq by (simp add: tq_inv_def)
  have u: "timer_inv s'" "clock s \<le> clock s'"
    "\<forall>m\<in>set (queue s'). m \<in> set q \<or> clock s < trigger m"
    using uses_timers_inv [OF assms(1) inv assms(6)] by simp_all
  have "expired now s' \<subseteq> node ` {m \<in> set q. trigger m \<le> now}"
    using u(3) assms(4) by (force simp: expired_def)
  also have "\<dots> \<subseteq> expired now s - {node n}" using fresh assms(3) by (auto simp: expired_def) (metis imageI)
  finally show ?thesis using u assms(4) by simp
qed

lemma hd_above:
  assumes "timer_inv s" "queue s \<noteq> [] \<Longrightarrow> now < trigger (hd (queue s))" "n \<in> set (queue s)"
  shows "now < trigger n"
proof -
  have "sorted (map trigger (queue s))" using assms(1) by (simp add: timer_inv_def tq_inv_def)
  then have "trigger (hd (queue s)) \<le> trigger n" using assms(3) by (cases "queue s") auto
  with assms(2,3) show ?thesis by (cases "queue s") auto
qed

text \<open>What expiration does: the due nodes are taken from the front of the queue one by one, and the
  callback of each is called, with its timer no longer armed; \<open>ns\<close> are the nodes in the order in
  which their callbacks are called.\<close>

inductive expiry ::
  "('c \<Rightarrow> ('c, 'z) timerFD_scheme \<Rightarrow> ('c, 'z) timerFD_scheme result) \<Rightarrow> int \<Rightarrow> ('c, 'z) timerFD_scheme \<Rightarrow>
   'c timer_node list \<Rightarrow> ('c, 'z) timerFD_scheme \<Rightarrow> bool" for run now where
  nothing_due: "(\<forall>n\<in>set (queue s). now < trigger n) \<Longrightarrow> expiry run now s [] s"
| fire: "queue s = n # q \<Longrightarrow> trigger n \<le> now \<Longrightarrow>
    run (action n) (s\<lparr>queue := q, timers := (timers s)(owner n := (timers s (owner n))\<lparr>armed := False\<rparr>)\<rparr>) = Inr s' \<Longrightarrow>
    expiry run now s' ns t \<Longrightarrow> expiry run now s (n # ns) t"

text \<open>Callbacks that leave the queue alone are called exactly for the due nodes, in queue order.\<close>

lemma expiry_due:
  assumes "expiry run now s ns t" "\<And>c s s'. run c s = Inr s' \<Longrightarrow> queue s' = queue s"
  shows "ns = takeWhile (\<lambda>n. trigger n \<le> now) (queue s)"
  using assms(1)
proof (induction rule: expiry.induct)
  case (nothing_due s)
  then show ?case by (cases "queue s") auto
next
  case (fire s n q s' ns t)
  then show ?case using assms(2) [OF fire.hyps(3)] by simp
qed

lemma expire_loop_returns:
  assumes "keeps_timers g" "timer_inv s" "queue s \<noteq> []" "trigger (hd (queue s)) \<le> now" "now \<le> clock s"
    and run: "\<And>c s. \<exists>t. run c s = Inr t \<and> uses_timers g s t"
  shows "\<exists>t ns t' x. expire_loop run now s = Some (Inr t) \<and> expiry run now s ns t' \<and> t = t'\<lparr>timer_setting := x\<rparr> \<and>
    timer_inv t \<and> setting_ok t \<and> (\<forall>n\<in>set (queue t). now < trigger n)"
  using assms(2-5)
proof (induction "card (expired now s)" arbitrary: s rule: less_induct)
  case less
  obtain n q where q: "queue s = n # q" using less.prems(2) by (cases "queue s") auto
  let ?s = "s\<lparr>queue := q, timers := (timers s)(owner n := (timers s (owner n))\<lparr>armed := False\<rparr>)\<rparr>"
  obtain s' where s': "run (action n) ?s = Inr s'" "uses_timers g ?s s'" using run by blast
  note p = pop_step [of g s n q now run s', OF assms(1) less.prems(1) q less.prems(4) s']
  have pop: "popAndExecuteFirstTimer run s = Inr s'" using q s' by (simp add: popAndExecuteFirstTimer_def)
  have "node n \<in> expired now s" using q less.prems(3) by (auto simp: expired_def)
  then have smaller: "card (expired now s') < card (expired now s)"
    using p by (intro psubset_card_mono) auto
  show ?case
  proof (cases "queue s' \<noteq> [] \<and> trigger (hd (queue s')) \<le> now")
    case True
    then have "expire_loop run now s = expire_loop run now s'"
      by (subst expire_loop.simps) (simp add: pop)
    moreover obtain t ns t' x where t: "expire_loop run now s' = Some (Inr t)" "expiry run now s' ns t'"
      "t = t'\<lparr>timer_setting := x\<rparr>" "timer_inv t" "setting_ok t" "\<forall>n\<in>set (queue t). now < trigger n"
      using less.hyps [OF smaller] p True by blast
    moreover have "expiry run now s (n # ns) t'" using expiry.fire [OF q _ s'(1) t(2)] q less.prems(3) by simp
    ultimately show ?thesis by metis
  next
    case False
    let ?t = "if queue s' = [] then disarmTimerFD s' else armTimerFD (nextTrigger s') s'"
    have "expire_loop run now s = Some (Inr ?t)"
      using False by (subst expire_loop.simps) (auto simp: pop)
    moreover have "timer_inv ?t" "setting_ok ?t"
      using p by (simp_all add: setting_ok_arm setting_ok_disarm timer_inv_first)
    moreover have above: "\<forall>n\<in>set (queue s'). now < trigger n" using hd_above [of s' now] p False by auto
    then have "\<forall>n\<in>set (queue ?t). now < trigger n" by simp
    moreover have "expiry run now s [n] s'"
      using expiry.fire [of s n q now run s' "[]" s', OF q _ s'(1) expiry.nothing_due [OF above]] q less.prems(3) by simp
    moreover have "\<exists>x. ?t = s'\<lparr>timer_setting := x\<rparr>"
      by (cases "queue s' = []") (auto simp: armTimerFD_def disarmTimerFD_def setTimeForTimerFD_def)
    ultimately show ?thesis by blast
  qed
qed

text \<open>What callbacks keep, and does not mention the queue, the timers or the kernel timer, is
  kept by the whole loop.\<close>

lemma expire_loop_invariant:
  assumes "expire_loop run now s = Some (Inr t)" "I s"
    and "\<And>s q ts. I s \<Longrightarrow> I (s\<lparr>queue := q, timers := ts\<rparr>)" "\<And>s x. I s \<Longrightarrow> I (s\<lparr>timer_setting := x\<rparr>)"
    and "\<And>c s t. I s \<Longrightarrow> run c s = Inr t \<Longrightarrow> I t"
  shows "I t"
proof -
  have pop: "I s'" if "popAndExecuteFirstTimer run s = Inr s'" "I s" for s s'
  proof (cases "queue s")
    case (Cons n q)
    then show ?thesis
      using that(1) assms(3) [OF that(2)] assms(5) by (simp add: popAndExecuteFirstTimer_def) blast
  qed (use that in \<open>simp add: popAndExecuteFirstTimer_def\<close>)
  define P where "P run' s r \<longleftrightarrow> (run' = run \<longrightarrow> I s \<longrightarrow> (\<forall>t. r = Inr t \<longrightarrow> I t))"
    for run' :: "'a \<Rightarrow> ('a, 'b) timerFD_scheme \<Rightarrow> ('a, 'b) timerFD_scheme result" and s and r :: "('a, 'b) timerFD_scheme result"
  have "P run s r" if "expire_loop run now s = Some r" for r
  proof (rule expire_loop.raw_induct [where P = "\<lambda>run' now s r. P run' s r", OF _ that])
    fix f :: "('a \<Rightarrow> ('a, 'b) timerFD_scheme \<Rightarrow> ('a, 'b) timerFD_scheme result) \<Rightarrow> int \<Rightarrow>
        ('a, 'b) timerFD_scheme \<Rightarrow> ('a, 'b) timerFD_scheme result option" and run' now s r
    assume IH: "\<And>run' now s r. f run' now s = Some r \<Longrightarrow> P run' s r"
      and eq: "(case popAndExecuteFirstTimer run' s of Inl e \<Rightarrow> Some (Inl e)
        | Inr s' \<Rightarrow> if queue s' = [] then Some (Inr (disarmTimerFD s'))
            else if trigger (hd (queue s')) \<le> now then f run' now s'
            else Some (Inr (armTimerFD (nextTrigger s') s'))) = Some r"
    show "P run' s r"
    proof (cases "popAndExecuteFirstTimer run' s")
      case (Inl e)
      then show ?thesis using eq by (auto simp: P_def)
    next
      case (Inr s')
      have keep: "I s'" "I (armTimerFD d s')" "I (disarmTimerFD s')" if "run' = run" "I s" for d
        using pop [of s s'] Inr that assms(4) [of s']
        by (simp_all add: armTimerFD_def disarmTimerFD_def setTimeForTimerFD_def)
      consider "r = Inr (disarmTimerFD s')" | "f run' now s' = Some r" | "r = Inr (armTimerFD (nextTrigger s') s')"
        using eq unfolding Inr sum.case by (metis option.inject)
      then show ?thesis
      proof cases
        case 2
        then have "P run' s' r" by (rule IH)
        then show ?thesis using keep(1) unfolding P_def by blast
      qed (use keep in \<open>simp_all add: P_def\<close>)
    qed
  qed
  with assms(1,2) show ?thesis by (simp add: P_def)
qed

lemma handleEvents_returns:
  assumes "keeps_timers g" "timer_inv s" "setting_ok s"
    and run: "\<And>c s. \<exists>t. run c s = Inr t \<and> uses_timers g s t"
  shows "\<exists>t ns t' x. TimerFD_handleEvents run s = Some (Inr t) \<and> expiry run (clock s) s ns t' \<and>
    t = t'\<lparr>timer_setting := x\<rparr> \<and> timer_inv t \<and> setting_ok t \<and> (\<forall>n\<in>set (queue t). clock s < trigger n)"
proof (cases "timerExpired s")
  case True
  then have "queue s \<noteq> []" "trigger (hd (queue s)) \<le> clock s"
    using assms(3) by (auto simp: timerExpired_def setting_ok_def split: if_splits)
  then show ?thesis
    using expire_loop_returns [OF assms(1,2), of "clock s" run] run True
    by (simp add: TimerFD_handleEvents_def handleExpiredTimers_def)
next
  case False
  then have "queue s \<noteq> [] \<Longrightarrow> clock s < trigger (hd (queue s))"
    using assms(3) by (simp add: timerExpired_def setting_ok_def)
  then have "\<forall>n\<in>set (queue s). clock s < trigger n" using hd_above [OF assms(2)] by blast
  moreover have "s = s\<lparr>timer_setting := timer_setting s\<rparr>" by simp
  ultimately show ?thesis
    using expiry.nothing_due [of s "clock s" run] assms(2,3) False
    unfolding TimerFD_handleEvents_def if_not_P [OF False] by blast
qed

lemma keeps_timers_Inr [simp]: "keeps_timers Inr"
  by (simp add: keeps_timers_def)

definition sample_timers :: "bool timerFD" where
  "sample_timers = \<lparr>callbacks = [], event_counter = 0,
     queue = [\<lparr>trigger = 5, node = 0, owner = 3, action = True\<rparr>], next_node = 1,
     timers = (\<lambda>_. \<lparr>armed = False, iterator = 0\<rparr>)(3 := \<lparr>armed = True, iterator = 0\<rparr>),
     timer_setting = (0, 5), clock = 7\<rparr>"

lemma sample_timers_inv: "timer_inv sample_timers" "setting_ok sample_timers"
  by (auto simp: sample_timers_def timer_inv_def tq_inv_def setting_ok_def kernel_trigger_def
      NANOSECONDS_IN_ONE_SECOND_def split: if_splits)

text \<open>C16: handling the timerfd event always returns, and until then it calls the callbacks of the
  due timers: node by node from the front of the queue, each with its timer disarmed and its node
  out of the queue, until no node is due (\<open>expiry\<close>); a callback may arm and disarm any timer,
  with positive durations. Only the kernel timer is changed after the last call. If the callbacks
  leave the queue alone, those called are exactly the due ones, in the order of their triggers
  and, among equal triggers, of arming. At the end the queue and the timer objects are consistent,
  nothing is due, and the kernel timer is set to the next trigger, or disarmed when no timer is
  left.\<close>

theorem expired_timers_are_handled:
  assumes "keeps_timers g" "timer_inv s" "setting_ok s"
    and "\<And>c s. \<exists>t. run c s = Inr t \<and> uses_timers g s t"
  shows "\<exists>t ns t' x. TimerFD_handleEvents run s = Some (Inr t) \<and> expiry run (clock s) s ns t' \<and>
    t = t'\<lparr>timer_setting := x\<rparr> \<and> timer_inv t \<and> setting_ok t \<and> (\<forall>n\<in>set (queue t). clock s < trigger n) \<and>
    ((\<forall>c s s'. run c s = Inr s' \<longrightarrow> queue s' = queue s) \<longrightarrow>
      ns = takeWhile (\<lambda>n. trigger n \<le> clock s) (queue s))"
proof -
  obtain t ns t' x where "TimerFD_handleEvents run s = Some (Inr t)" "expiry run (clock s) s ns t'"
    "t = t'\<lparr>timer_setting := x\<rparr>" "timer_inv t" "setting_ok t" "\<forall>n\<in>set (queue t). clock s < trigger n"
    using handleEvents_returns [of g s run, OF assms] by blast
  then show ?thesis using expiry_due [of run "clock s" s ns t'] by blast
qed

theorem expired_timers_are_handled_witness:
  "\<exists>t ns t' x. TimerFD_handleEvents (\<lambda>c s. Inr (s\<lparr>callbacks := callbacks s @ [c]\<rparr>)) sample_timers = Some (Inr t) \<and>
    expiry (\<lambda>c s. Inr (s\<lparr>callbacks := callbacks s @ [c]\<rparr>)) 7 sample_timers ns t' \<and>
    t = t'\<lparr>timer_setting := x\<rparr> \<and> map action ns = [True] \<and> timer_inv t"
proof -
  have "uses_timers Inr s (s\<lparr>callbacks := callbacks s @ [c]\<rparr>)" for c and s :: "bool timerFD"
    by (rule uses_timers.other [OF uses_timers.none]) simp_all
  then have "\<exists>t. Inr (s\<lparr>callbacks := callbacks s @ [c]\<rparr>) = (Inr t :: bool timerFD result) \<and> uses_timers Inr s t" for c s
    by blast
  from expired_timers_are_handled [OF keeps_timers_Inr sample_timers_inv this]
  show ?thesis by (fastforce simp: sample_timers_def)
qed

text \<open>C17: any sequence of timer operations keeps the kernel timer set to the earliest trigger
  (disarmed when there is none), the queue in trigger order, and a timer armed exactly while it
  has its one node in the queue.\<close>

theorem timer_operations_keep_earliest:
  assumes "keeps_timers g" "timer_inv s" "setting_ok s" "uses_timers g s t"
  shows "kernel_trigger (timer_setting t) = (if queue t = [] then None else Some (trigger (hd (queue t)))) \<and>
    sorted (map trigger (queue t)) \<and>
    (isArmed i t \<longleftrightarrow> (\<exists>n\<in>set (queue t). owner n = i \<and> node n = iterator (timers t i)))"
  using uses_timers_inv [OF assms(1,2,4)] assms(3)
  by (auto simp: setting_ok_def timer_inv_def tq_inv_def isArmed_def) metis+

definition sample_rearmed :: "bool timerFD" where
  "sample_rearmed = sample_timers\<lparr>queue := [\<lparr>trigger = 8, node = 1, owner = 3, action = False\<rparr>],
     next_node := 2, timers := (\<lambda>_. \<lparr>armed = False, iterator = 0\<rparr>)(3 := \<lparr>armed = True, iterator = 1\<rparr>),
     timer_setting := (0, 8)\<rparr>"

lemma sample_rearmed_arm: "Timer_arm Inr 3 1 (Some False) sample_timers = Inr sample_rearmed"
  by (simp add: Timer_arm_def Timer_disarm_def TimerFD_disarm_def TimerFD_arm_def sample_timers_def
      sample_rearmed_def isFirst_def disarmTimerFD_def setTimeForTimerFD_def armTimerFD_def toAbsolute_def fits_duration_def
      NANOSECONDS_IN_ONE_SECOND_def signed_divide_int_def signed_modulo_int_def fun_eq_iff)

theorem timer_operations_keep_earliest_witness:
  "kernel_trigger (timer_setting sample_rearmed) = Some 8 \<and> isArmed 3 sample_rearmed"
proof -
  have "uses_timers Inr sample_timers sample_rearmed"
    using uses_timers.arm [OF uses_timers.none, of 1 Inr 3 False] sample_rearmed_arm by simp
  from timer_operations_keep_earliest [OF keeps_timers_Inr sample_timers_inv this, of 3]
  show ?thesis by (simp add: sample_rearmed_def)
qed

end
