(* ===== verification/Engine_Core.thy ===== *)
theory Engine_Core
  imports Timer_FD
begin

text \<open>
  \<open>EngineImpl\<close> (\<open>src/engineimpl.cpp\<close>), \<open>FileDescriptor\<close> (\<open>src/filedescriptor.cpp\<close>) and the system
  calls they make (\<open>src/system.cpp\<close>): file descriptor monitoring over epoll, the callback queue and
  the timers behind one event loop.

  The engine's record extends those of \<open>EventFD\<close> and \<open>TimerFD\<close>, which it creates on first use
  (\<open>eventFD\<close>, \<open>timerFD\<close>: their descriptors). \<open>interest\<close> is the kernel's interest list of the epoll
  descriptor. The code of the user (handlers and callbacks) and the kernel are arguments: user
  code may change the whole state, and the theorems about a round of events ask that it does so
  through the operations of the engine (\<open>engine_uses\<close>).
\<close>

definition EVENT_IN :: "32 word" where "EVENT_IN = 0x001"
definition EVENT_OUT :: "32 word" where "EVENT_OUT = 0x004"
definition EVENT_ERR :: "32 word" where "EVENT_ERR = 0x008"
definition EVENT_HUP :: "32 word" where "EVENT_HUP = 0x010"

datatype 'h handler = EventFD_handler | TimerFD_handler | UserHandler 'h

datatype 'c callback = SetStopped | UserCallback 'c

record ('h, 'c) engine = "'c callback timerFD" +
  handlers :: "(int \<times> 'h handler) list"
  ebuffer :: "(int \<times> 32 word) list"
  stopped :: bool
  interest :: "(int \<times> 32 word) list"
  eventFD :: "int option"
  timerFD :: "int option"

section \<open>The kernel\<close>

datatype epoll_op = EPOLL_CTL_ADD | EPOLL_CTL_MOD | EPOLL_CTL_DEL

definition EEXIST :: int where "EEXIST = 17"
definition ENOENT :: int where "ENOENT = 2"

text \<open>\<open>ctl_errno\<close>: the errors of \<open>epoll_ctl\<close> other than those of the interest list;
  \<open>ready\<close>: the events \<open>epoll_wait\<close> reports, empty when it returns 0 or is interrupted;
  \<open>new_fd\<close>: the descriptor that \<open>eventfd\<close> or \<open>timerfd_create\<close> returns.\<close>

record 's kernel =
  ctl_errno :: "epoll_op \<Rightarrow> int \<Rightarrow> 's \<Rightarrow> int option"
  ready :: "nat \<Rightarrow> int \<Rightarrow> 's \<Rightarrow> (int \<times> 32 word) list result"
  new_fd :: "'s \<Rightarrow> int result"

definition epoll_ctl ::
  "('h, 'c, 'z) engine_scheme kernel \<Rightarrow> epoll_op \<Rightarrow> int \<Rightarrow> 32 word \<Rightarrow> ('h, 'c, 'z) engine_scheme \<Rightarrow>
   ('h, 'c, 'z) engine_scheme result" where
  "epoll_ctl k op fd events s =
     (let fail = (\<lambda>err. Inl (Throw (StdSystemError ''epoll_ctl'' err)))
      in case ctl_errno k op fd s of
           Some err \<Rightarrow> fail err
         | None \<Rightarrow>
             (case op of
                EPOLL_CTL_ADD \<Rightarrow> if fd \<in> fst ` set (interest s) then fail EEXIST
                                 else Inr (s\<lparr>interest := (fd, events) # interest s\<rparr>)
              | EPOLL_CTL_MOD \<Rightarrow> if fd \<notin> fst ` set (interest s) then fail ENOENT
                                 else Inr (s\<lparr>interest := (fd, events) # map_erase fd (interest s)\<rparr>)
              | EPOLL_CTL_DEL \<Rightarrow> if fd \<notin> fst ` set (interest s) then fail ENOENT
                                 else Inr (s\<lparr>interest := map_erase fd (interest s)\<rparr>)))"

section \<open>Monitored descriptors\<close>

definition addMonitoredFD ::
  "('h, 'c, 'z) engine_scheme kernel \<Rightarrow> int \<Rightarrow> 32 word \<Rightarrow> 'h handler \<Rightarrow> ('h, 'c, 'z) engine_scheme \<Rightarrow>
   ('h, 'c, 'z) engine_scheme result" where
  "addMonitoredFD k fd events eh s =
     (if fd \<in> fst ` set (handlers s) then Inl (Abort ''Monitored fd has already been added'')
      else rbind (epoll_ctl k EPOLL_CTL_ADD fd events s)
             (\<lambda>s'. Inr (s'\<lparr>handlers := map_insert fd eh (handlers s')\<rparr>)))"

definition modifyMonitoredFD ::
  "('h, 'c, 'z) engine_scheme kernel \<Rightarrow> int \<Rightarrow> 32 word \<Rightarrow> ('h, 'c, 'z) engine_scheme \<Rightarrow>
   ('h, 'c, 'z) engine_scheme result" where
  "modifyMonitoredFD k fd events s =
     (if fd \<notin> fst ` set (handlers s) then Inl (Abort ''Modified monitored fd does not exist'')
      else epoll_ctl k EPOLL_CTL_MOD fd events s)"

text \<open>The loop over the event buffer stops at the first entry of the descriptor.\<close>

fun mark_deleted :: "int \<Rightarrow> (int \<times> 32 word) list \<Rightarrow> (int \<times> 32 word) list" where
  "mark_deleted fd [] = []"
| "mark_deleted fd ((f, ev) # es) = (if f = fd then (-1, ev) # es else (f, ev) # mark_deleted fd es)"

definition deleteMonitoredFD ::
  "('h, 'c, 'z) engine_scheme kernel \<Rightarrow> int \<Rightarrow> ('h, 'c, 'z) engine_scheme \<Rightarrow>
   ('h, 'c, 'z) engine_scheme result" where
  "deleteMonitoredFD k fd s =
     (if fd \<notin> fst ` set (handlers s) then Inl (Abort ''Monitored (to be deleted) fd does not exist'')
      else epoll_ctl k EPOLL_CTL_DEL fd 0
             (s\<lparr>handlers := map_erase fd (handlers s), ebuffer := mark_deleted fd (ebuffer s)\<rparr>))"

section \<open>Timers and posted callbacks\<close>

definition getTimerFD ::
  "('h, 'c, 'z) engine_scheme kernel \<Rightarrow> ('h, 'c, 'z) engine_scheme \<Rightarrow> ('h, 'c, 'z) engine_scheme result" where
  "getTimerFD k s =
     (case timerFD s of
        Some _ \<Rightarrow> Inr s
      | None \<Rightarrow>
          rbind (new_fd k s) (\<lambda>fd.
          rbind (addMonitoredFD k fd EVENT_IN TimerFD_handler s) (\<lambda>s'. Inr (s'\<lparr>timerFD := Some fd\<rparr>))))"

definition getEventFD ::
  "('h, 'c, 'z) engine_scheme kernel \<Rightarrow> ('h, 'c, 'z) engine_scheme \<Rightarrow> ('h, 'c, 'z) engine_scheme result" where
  "getEventFD k s =
     (case eventFD s of
        Some _ \<Rightarrow> Inr s
      | None \<Rightarrow>
          rbind (new_fd k s) (\<lambda>fd.
          rbind (addMonitoredFD k fd EVENT_IN EventFD_handler s) (\<lambda>s'. Inr (s'\<lparr>eventFD := Some fd\<rparr>))))"

text \<open>A client arms a timer with \<open>Timer::arm\<close>, which calls \<open>Engine::armTimer\<close>, which creates the
  \<open>TimerFD\<close> on first use and forwards to it; \<open>armTimer\<close> and \<open>disarmTimer\<close> are these calls together.\<close>

definition armTimer ::
  "('h, 'c, 'z) engine_scheme kernel \<Rightarrow> nat \<Rightarrow> int \<Rightarrow> 'c option \<Rightarrow> ('h, 'c, 'z) engine_scheme \<Rightarrow>
   ('h, 'c, 'z) engine_scheme result" where
  "armTimer k t duration cb s = Timer_arm (getTimerFD k) t duration (map_option UserCallback cb) s"

definition disarmTimer ::
  "('h, 'c, 'z) engine_scheme kernel \<Rightarrow> nat \<Rightarrow> ('h, 'c, 'z) engine_scheme \<Rightarrow>
   ('h, 'c, 'z) engine_scheme result" where
  "disarmTimer k t s = Timer_disarm (getTimerFD k) t s"

definition postCallback ::
  "('h, 'c, 'z) engine_scheme kernel \<Rightarrow> 'c callback option \<Rightarrow> ('h, 'c, 'z) engine_scheme \<Rightarrow>
   ('h, 'c, 'z) engine_scheme result" where
  "postCallback k cb s = rbind (getEventFD k s) (post cb)"

definition stop ::
  "('h, 'c, 'z) engine_scheme kernel \<Rightarrow> ('h, 'c, 'z) engine_scheme \<Rightarrow> ('h, 'c, 'z) engine_scheme result" where
  "stop k s = postCallback k (Some SetStopped) s"

section \<open>The event loop\<close>

record ('h, 'c, 's) user_code =
  call_handler :: "'h \<Rightarrow> 32 word \<Rightarrow> 's \<Rightarrow> 's result"
  call_callback :: "'c \<Rightarrow> 's \<Rightarrow> 's result"

definition run_callback ::
  "('h, 'c, ('h, 'c, 'z) engine_scheme) user_code \<Rightarrow> 'c callback \<Rightarrow> ('h, 'c, 'z) engine_scheme \<Rightarrow>
   ('h, 'c, 'z) engine_scheme result" where
  "run_callback u cb s =
     (case cb of SetStopped \<Rightarrow> Inr (s\<lparr>stopped := True\<rparr>) | UserCallback c \<Rightarrow> call_callback u c s)"

text \<open>\<open>handlers[fd](events)\<close>: calling a missing handler throws. \<open>None\<close> is not returning.\<close>

definition callHandler ::
  "('h, 'c, ('h, 'c, 'z) engine_scheme) user_code \<Rightarrow> int \<times> 32 word \<Rightarrow> ('h, 'c, 'z) engine_scheme \<Rightarrow>
   ('h, 'c, 'z) engine_scheme result option" where
  "callHandler u e s =
     (case map_of (handlers s) (fst e) of
        None \<Rightarrow> Some (Inl (Throw StdBadFunctionCall))
      | Some EventFD_handler \<Rightarrow> Some (Event_FD.handleEvents (run_callback u) s)
      | Some TimerFD_handler \<Rightarrow> TimerFD_handleEvents (run_callback u) s
      | Some (UserHandler h) \<Rightarrow> Some (call_handler u h (snd e) s))"

text \<open>The loop over the event buffer, from position \<open>i\<close>, with \<open>n\<close> entries to go. It reads the
  buffer at each step: an entry may have been cleared by an earlier handler.\<close>

fun event_loop ::
  "('h, 'c, ('h, 'c, 'z) engine_scheme) user_code \<Rightarrow> nat \<Rightarrow> nat \<Rightarrow> ('h, 'c, 'z) engine_scheme \<Rightarrow>
   ('h, 'c, 'z) engine_scheme result option" where
  "event_loop u i 0 s = Some (Inr s)"
| "event_loop u i (Suc n) s =
     (if fst (ebuffer s ! i) \<noteq> -1
      then case callHandler u (ebuffer s ! i) s of
             Some (Inr s') \<Rightarrow> event_loop u (Suc i) n s'
           | r \<Rightarrow> r
      else event_loop u (Suc i) n s)"

definition epollWait ::
  "('h, 'c, 'z) engine_scheme kernel \<Rightarrow> ('h, 'c, ('h, 'c, 'z) engine_scheme) user_code \<Rightarrow> int \<Rightarrow>
   ('h, 'c, 'z) engine_scheme \<Rightarrow> ('h, 'c, 'z) engine_scheme result option" where
  "epollWait k u timeout s =
     (case ready k (length (handlers s)) timeout s of
        Inl e \<Rightarrow> Some (Inl e)
      | Inr [] \<Rightarrow> Some (Inr (s\<lparr>ebuffer := take (length (handlers s)) (ebuffer s @ replicate (length (handlers s)) (0, 0))\<rparr>))
      | Inr es \<Rightarrow> event_loop u 0 (length es) (s\<lparr>ebuffer := es\<rparr>))"

definition handleEvents ::
  "('h, 'c, 'z) engine_scheme kernel \<Rightarrow> ('h, 'c, ('h, 'c, 'z) engine_scheme) user_code \<Rightarrow>
   ('h, 'c, 'z) engine_scheme \<Rightarrow> ('h, 'c, 'z) engine_scheme result option" where
  "handleEvents k u s = (if handlers s \<noteq> [] then epollWait k u 0 s else Some (Inr s))"

partial_function (option) run_loop ::
  "('h, 'c, 'z) engine_scheme kernel \<Rightarrow> ('h, 'c, ('h, 'c, 'z) engine_scheme) user_code \<Rightarrow>
   ('h, 'c, 'z) engine_scheme \<Rightarrow> ('h, 'c, 'z) engine_scheme result option" where
  "run_loop k u s =
     (if stopped s then Some (Inr (s\<lparr>stopped := False\<rparr>))
      else case epollWait k u (-1) s of
             None \<Rightarrow> None
           | Some (Inl e) \<Rightarrow> Some (Inl e)
           | Some (Inr s') \<Rightarrow> run_loop k u s')"

text \<open>A new engine, at the time \<open>now\<close>.\<close>

definition EngineImpl :: "int \<Rightarrow> ('h, 'c) engine" where
  "EngineImpl now = \<lparr>callbacks = [], event_counter = 0, queue = [], next_node = 0,
     timers = \<lambda>_. \<lparr>armed = False, iterator = 0\<rparr>, timer_setting = (0, 0), clock = now,
     handlers = [], ebuffer = [], stopped = False, interest = [], eventFD = None, timerFD = None\<rparr>"

section \<open>The interest list and the event buffer\<close>

text \<open>The kernel monitors exactly the descriptors that have a handler.\<close>

definition fd_inv :: "('h, 'c, 'z) engine_scheme \<Rightarrow> bool" where
  "fd_inv s = (key_sorted (map fst (handlers s)) \<and> fst ` set (interest s) = fst ` set (handlers s))"

text \<open>While a batch of events is handled, every entry of the buffer that is not cleared is the
  only one of its descriptor, and that descriptor has a handler.\<close>

definition batch_inv :: "('h, 'c, 'z) engine_scheme \<Rightarrow> bool" where
  "batch_inv s = (distinct (filter (\<lambda>fd. fd \<noteq> -1) (map fst (ebuffer s))) \<and>
     (\<forall>e\<in>set (ebuffer s). fst e = -1 \<or> fst e \<in> fst ` set (handlers s)))"

lemma length_mark_deleted [simp]: "length (mark_deleted fd es) = length es"
  by (induction es rule: mark_deleted.induct) auto

lemma mark_deleted_fds:
  "distinct (filter (\<lambda>f. f \<noteq> -1) (map fst es)) \<Longrightarrow>
     map fst (mark_deleted fd es) = map (\<lambda>e. if fst e = fd then -1 else fst e) es"
proof (induction fd es rule: mark_deleted.induct)
  case (2 fd f ev es)
  then show ?case
    by (cases "f = fd"; cases "fd = -1") (auto simp: image_iff split: if_splits)
qed simp

lemma filter_marked:
  "filter (\<lambda>f. f \<noteq> -1) (map (\<lambda>e. if fst e = fd then -1 else fst e) es)
     = filter (\<lambda>f. f \<noteq> fd) (filter (\<lambda>f. f \<noteq> (-1 :: int)) (map fst es))"
  by (induction es) auto

lemma dom_map_erase [simp]: "fst ` set (map_erase fd m) = fst ` set m - {fd}"
  by (force simp: map_erase_def)

lemma key_sorted_map_erase: "key_sorted (map fst m) \<Longrightarrow> key_sorted (map fst (map_erase fd m))"
  unfolding map_erase_def by (induction m) (auto simp: split_beta)

lemma epoll_ctl_parts:
  assumes "epoll_ctl k op fd ev s = Inr t"
  shows "handlers t = handlers s \<and> ebuffer t = ebuffer s \<and> stopped t = stopped s \<and> eventFD t = eventFD s \<and>
    timerFD t = timerFD s \<and> queue t = queue s \<and> next_node t = next_node s \<and> timers t = timers s \<and>
    timer_setting t = timer_setting s \<and> clock t = clock s \<and> callbacks t = callbacks s \<and>
    fst ` set (interest t) = (case op of EPOLL_CTL_DEL \<Rightarrow> fst ` set (interest s) - {fd}
      | _ \<Rightarrow> insert fd (fst ` set (interest s)))"
proof -
  have "ctl_errno k op fd s = None" using assms by (simp add: epoll_ctl_def split: option.splits)
  note step = assms [unfolded epoll_ctl_def Let_def this option.case]
  obtain i where i: "t = s\<lparr>interest := i\<rparr>" "fst ` set i = (case op of
      EPOLL_CTL_DEL \<Rightarrow> fst ` set (interest s) - {fd} | _ \<Rightarrow> insert fd (fst ` set (interest s)))"
  proof (cases op)
    case EPOLL_CTL_ADD
    with step that [of "(fd, ev) # interest s"] show ?thesis by (simp split: if_splits)
  next
    case EPOLL_CTL_MOD
    with step that [of "(fd, ev) # map_erase fd (interest s)"] show ?thesis by (simp split: if_splits)
  next
    case EPOLL_CTL_DEL
    with step that [of "map_erase fd (interest s)"] show ?thesis by (simp split: if_splits)
  qed
  show ?thesis unfolding i(1) using i(2) by simp
qed

lemma addMonitoredFD_inv:
  assumes "addMonitoredFD k fd ev eh s = Inr t"
  shows "fd_inv s \<Longrightarrow> fd_inv t" "batch_inv s \<Longrightarrow> batch_inv t" "ebuffer t = ebuffer s"
    "handlers t = map_insert fd eh (handlers s)" "fd \<notin> fst ` set (handlers s)"
proof -
  obtain u where fresh: "fd \<notin> fst ` set (handlers s)" and u: "epoll_ctl k EPOLL_CTL_ADD fd ev s = Inr u"
    and t: "t = u\<lparr>handlers := map_insert fd eh (handlers u)\<rparr>"
    using assms by (auto simp: addMonitoredFD_def rbind_Inr_iff split: if_splits)
  note p = epoll_ctl_parts [OF u]
  show "fd_inv s \<Longrightarrow> fd_inv t" "batch_inv s \<Longrightarrow> batch_inv t" "ebuffer t = ebuffer s"
    "handlers t = map_insert fd eh (handlers s)" "fd \<notin> fst ` set (handlers s)"
    using p fresh unfolding t by (auto simp: fd_inv_def batch_inv_def)
qed

lemma modifyMonitoredFD_inv:
  assumes "modifyMonitoredFD k fd ev s = Inr t"
  shows "fd_inv s \<Longrightarrow> fd_inv t" "batch_inv s \<Longrightarrow> batch_inv t" "ebuffer t = ebuffer s"
    "handlers t = handlers s"
proof -
  have fd: "fd \<in> fst ` set (handlers s)" and u: "epoll_ctl k EPOLL_CTL_MOD fd ev s = Inr t"
    using assms by (auto simp: modifyMonitoredFD_def split: if_splits)
  note p = epoll_ctl_parts [OF u]
  show "fd_inv s \<Longrightarrow> fd_inv t" "batch_inv s \<Longrightarrow> batch_inv t" "ebuffer t = ebuffer s"
    "handlers t = handlers s"
    using p fd by (simp_all add: fd_inv_def batch_inv_def insert_absorb)
qed

lemma deleteMonitoredFD_inv:
  assumes "deleteMonitoredFD k fd s = Inr t"
  shows "fd_inv s \<Longrightarrow> fd_inv t" "batch_inv s \<Longrightarrow> batch_inv t" "ebuffer t = mark_deleted fd (ebuffer s)"
    "handlers t = map_erase fd (handlers s)"
proof -
  let ?s = "s\<lparr>handlers := map_erase fd (handlers s), ebuffer := mark_deleted fd (ebuffer s)\<rparr>"
  have u: "epoll_ctl k EPOLL_CTL_DEL fd 0 ?s = Inr t"
    using assms by (auto simp: deleteMonitoredFD_def split: if_splits)
  note p = epoll_ctl_parts [OF u]
  show "fd_inv s \<Longrightarrow> fd_inv t" "ebuffer t = mark_deleted fd (ebuffer s)"
    "handlers t = map_erase fd (handlers s)"
    using p by (auto simp: fd_inv_def key_sorted_map_erase)
  show "batch_inv t" if b: "batch_inv s"
  proof -
    have fds: "map fst (ebuffer t) = map (\<lambda>e. if fst e = fd then -1 else fst e) (ebuffer s)"
      using p b by (simp add: batch_inv_def mark_deleted_fds)
    have "distinct (filter (\<lambda>f. f \<noteq> -1) (map fst (ebuffer t)))"
      unfolding fds filter_marked using b by (simp only: batch_inv_def distinct_filter)
    moreover have "f = -1 \<or> f \<in> fst ` set (handlers t)" if "f \<in> set (map fst (ebuffer t))" for f
      using that b p unfolding fds by (auto simp: batch_inv_def split: if_splits)
    ultimately show ?thesis by (simp add: batch_inv_def)
  qed
qed

section \<open>Code that uses the engine\<close>

text \<open>The buffer holds the reported events, some of them cleared.\<close>

definition holds_events :: "(int \<times> 32 word) list \<Rightarrow> (int \<times> 32 word) list \<Rightarrow> bool" where
  "holds_events es buf = list_all2 (\<lambda>e b. b = e \<or> b = (-1, snd e)) es buf"

lemma holds_events_refl [simp]: "holds_events es es"
  by (simp add: holds_events_def list_all2_same)

lemma holds_events_mark_deleted: "holds_events es buf \<Longrightarrow> holds_events es (mark_deleted fd buf)"
  unfolding holds_events_def by (induction rule: list_all2_induct) auto

lemma holds_events_nth:
  "holds_events es buf \<Longrightarrow> i < length es \<Longrightarrow> i < length buf \<and> (buf ! i = es ! i \<or> buf ! i = (-1, snd (es ! i)))"
  by (simp add: holds_events_def list_all2_conv_all_nth)

text \<open>The part of the state the invariants are about, without the timers.\<close>

definition fds_ok :: "(int \<times> 32 word) list \<Rightarrow> ('h, 'c, 'z) engine_scheme \<Rightarrow> bool" where
  "fds_ok es s = (fd_inv s \<and> batch_inv s \<and> holds_events es (ebuffer s))"

lemma fds_ok_cong:
  "handlers t = handlers s \<Longrightarrow> ebuffer t = ebuffer s \<Longrightarrow> interest t = interest s \<Longrightarrow> fds_ok es t = fds_ok es s"
  by (simp add: fds_ok_def fd_inv_def batch_inv_def)

lemma fds_ok_update [simp]:
  "fds_ok es (s\<lparr>queue := q\<rparr>) = fds_ok es s" "fds_ok es (s\<lparr>timers := ts\<rparr>) = fds_ok es s"
  "fds_ok es (s\<lparr>timer_setting := x\<rparr>) = fds_ok es s" "fds_ok es (s\<lparr>next_node := nn\<rparr>) = fds_ok es s"
  "fds_ok es (s\<lparr>timerFD := tf\<rparr>) = fds_ok es s" "fds_ok es (s\<lparr>eventFD := ef\<rparr>) = fds_ok es s"
  "fds_ok es (s\<lparr>stopped := b\<rparr>) = fds_ok es s" "fds_ok es (s\<lparr>callbacks := cbs\<rparr>) = fds_ok es s"
  "fds_ok es (s\<lparr>event_counter := m\<rparr>) = fds_ok es s"
  by (rule fds_ok_cong; simp)+

lemma fds_ok_ops:
  "addMonitoredFD k fd ev eh s = Inr t \<Longrightarrow> fds_ok es s \<Longrightarrow> fds_ok es t"
  "modifyMonitoredFD k fd ev s = Inr t \<Longrightarrow> fds_ok es s \<Longrightarrow> fds_ok es t"
  "deleteMonitoredFD k fd s = Inr t \<Longrightarrow> fds_ok es s \<Longrightarrow> fds_ok es t"
  using addMonitoredFD_inv [of k fd ev eh s t] modifyMonitoredFD_inv [of k fd ev s t]
    deleteMonitoredFD_inv [of k fd s t]
  by (auto simp: fds_ok_def holds_events_mark_deleted)

lemma fds_ok_getTimerFD: "getTimerFD k s = Inr t \<Longrightarrow> fds_ok es s \<Longrightarrow> fds_ok es t"
  by (auto simp: getTimerFD_def rbind_Inr_iff fds_ok_ops(1) split: option.splits)

lemma fds_ok_getEventFD: "getEventFD k s = Inr t \<Longrightarrow> fds_ok es s \<Longrightarrow> fds_ok es t"
  by (auto simp: getEventFD_def rbind_Inr_iff fds_ok_ops(1) split: option.splits)

lemma fds_ok_set_time [simp]: "fds_ok es (armTimerFD d s) = fds_ok es s" "fds_ok es (disarmTimerFD s) = fds_ok es s"
  by (simp_all add: armTimerFD_def disarmTimerFD_def setTimeForTimerFD_def)

lemma fds_ok_disarm: "disarmTimer k i s = Inr t \<Longrightarrow> fds_ok es s \<Longrightarrow> fds_ok es t"
  by (auto simp: disarmTimer_def Timer_disarm_def TimerFD_disarm_def rbind_Inr_iff Let_def
      fds_ok_getTimerFD split: if_splits)

lemma fds_ok_arm: "armTimer k i d cb s = Inr t \<Longrightarrow> fds_ok es s \<Longrightarrow> fds_ok es t"
  using fds_ok_disarm [unfolded disarmTimer_def, of k i s _ es]
  by (auto simp: armTimer_def Timer_arm_def TimerFD_arm_def toAbsolute_def rbind_Inr_iff Let_def
      fds_ok_getTimerFD split: if_splits option.splits)

lemma fds_ok_post: "postCallback k cb s = Inr t \<Longrightarrow> fds_ok es s \<Longrightarrow> fds_ok es t"
  by (auto simp: postCallback_def rbind_Inr_iff post_def sys_write_def atomicPushBack_def
      fds_ok_getEventFD split: option.splits if_splits)

inductive engine_uses ::
  "('h, 'c, 'z) engine_scheme kernel \<Rightarrow> ('h, 'c, 'z) engine_scheme \<Rightarrow> ('h, 'c, 'z) engine_scheme \<Rightarrow> bool"
  for k s where
  none: "engine_uses k s s"
| add: "engine_uses k s t \<Longrightarrow> addMonitoredFD k fd ev (UserHandler h) t = Inr u \<Longrightarrow> engine_uses k s u"
| modify: "engine_uses k s t \<Longrightarrow> modifyMonitoredFD k fd ev t = Inr u \<Longrightarrow> engine_uses k s u"
| delete: "engine_uses k s t \<Longrightarrow> deleteMonitoredFD k fd t = Inr u \<Longrightarrow> engine_uses k s u"
| post: "engine_uses k s t \<Longrightarrow> postCallback k cb t = Inr u \<Longrightarrow> engine_uses k s u"
| arm: "engine_uses k s t \<Longrightarrow> 0 < d \<Longrightarrow> armTimer k i d (Some c) t = Inr u \<Longrightarrow> engine_uses k s u"
| disarm: "engine_uses k s t \<Longrightarrow> disarmTimer k i t = Inr u \<Longrightarrow> engine_uses k s u"
| other: "engine_uses k s t \<Longrightarrow> handlers u = handlers t \<Longrightarrow> ebuffer u = ebuffer t \<Longrightarrow> interest u = interest t \<Longrightarrow>
    queue u = queue t \<Longrightarrow> next_node u = next_node t \<Longrightarrow> timers u = timers t \<Longrightarrow>
    timer_setting u = timer_setting t \<Longrightarrow> clock t \<le> clock u \<Longrightarrow> engine_uses k s u"

lemma engine_uses_fds: "engine_uses k s t \<Longrightarrow> fds_ok es s \<Longrightarrow> fds_ok es t"
proof (induction rule: engine_uses.induct)
  case (other t u)
  then show ?case using fds_ok_cong [of u t es] by simp
qed (auto intro: fds_ok_ops fds_ok_post fds_ok_arm fds_ok_disarm)

text \<open>Everything but arming and disarming leaves the timers alone.\<close>

definition same_timers :: "('h, 'c, 'z) engine_scheme \<Rightarrow> ('h, 'c, 'z) engine_scheme \<Rightarrow> bool" where
  "same_timers s t = (queue t = queue s \<and> next_node t = next_node s \<and> timers t = timers s \<and>
     timer_setting t = timer_setting s \<and> clock t = clock s)"

lemma same_timers_ops:
  "addMonitoredFD k fd ev eh s = Inr t \<Longrightarrow> same_timers s t"
  "modifyMonitoredFD k fd ev s = Inr t \<Longrightarrow> same_timers s t"
  "deleteMonitoredFD k fd s = Inr t \<Longrightarrow> same_timers s t"
  by (auto simp: addMonitoredFD_def modifyMonitoredFD_def deleteMonitoredFD_def same_timers_def rbind_Inr_iff
      split: if_splits dest!: epoll_ctl_parts)

lemma same_timers_getTimerFD: "getTimerFD k s = Inr t \<Longrightarrow> same_timers s t"
  by (auto simp: getTimerFD_def rbind_Inr_iff same_timers_def split: option.splits
      dest!: same_timers_ops(1) [unfolded same_timers_def])

lemma same_timers_post: "postCallback k cb s = Inr t \<Longrightarrow> same_timers s t"
  by (auto simp: postCallback_def getEventFD_def rbind_Inr_iff same_timers_def post_def sys_write_def
      atomicPushBack_def split: option.splits if_splits
      dest!: same_timers_ops(1) [unfolded same_timers_def])

lemma keeps_timers_getTimerFD [simp]: "keeps_timers (getTimerFD k)"
  using same_timers_getTimerFD by (fastforce simp: keeps_timers_def same_timers_def)

lemma engine_uses_timers: "engine_uses k s t \<Longrightarrow> uses_timers (getTimerFD k) s t"
proof (induction rule: engine_uses.induct)
  case none
  show ?case by (rule uses_timers.none)
next
  case (arm t d i c u)
  then show ?case using uses_timers.arm [of "getTimerFD k" s t d i "UserCallback c"] by (simp add: armTimer_def)
next
  case (disarm t i u)
  then show ?case using uses_timers.disarm [of "getTimerFD k" s t i] by (simp add: disarmTimer_def)
next
  case (other t u)
  then show ?case using uses_timers.other [of "getTimerFD k" s t u] by simp
next
  case (add t fd ev h u)
  then show ?case using uses_timers.other [of "getTimerFD k" s t u] same_timers_ops(1) [of k fd ev _ t u]
    by (simp add: same_timers_def)
next
  case (modify t fd ev u)
  then show ?case using uses_timers.other [of "getTimerFD k" s t u] same_timers_ops(2) [of k fd ev t u]
    by (simp add: same_timers_def)
next
  case (delete t fd u)
  then show ?case using uses_timers.other [of "getTimerFD k" s t u] same_timers_ops(3) [of k fd t u]
    by (simp add: same_timers_def)
next
  case (post t cb u)
  then show ?case using uses_timers.other [of "getTimerFD k" s t u] same_timers_post [of k cb t u]
    by (simp add: same_timers_def)
qed

section \<open>A round of events\<close>

definition engine_inv :: "('h, 'c, 'z) engine_scheme \<Rightarrow> bool" where
  "engine_inv s = (fd_inv s \<and> timer_inv s \<and> setting_ok s)"

lemma engine_inv_EngineImpl: "0 \<le> now \<Longrightarrow> engine_inv (EngineImpl now)"
  by (simp add: EngineImpl_def engine_inv_def fd_inv_def timer_inv_def tq_inv_def setting_ok_def kernel_trigger_def)

text \<open>The kernel reports descriptors of the interest list, each at most once in a call.\<close>

definition kernel_ok :: "('h, 'c, 'z) engine_scheme kernel \<Rightarrow> bool" where
  "kernel_ok k = (\<forall>n timeout s. \<exists>es. ready k n timeout s = Inr es \<and> distinct (map fst es) \<and>
     fst ` set es \<subseteq> fst ` set (interest s))"

definition user_ok ::
  "('h, 'c, 'z) engine_scheme kernel \<Rightarrow> ('h, 'c, ('h, 'c, 'z) engine_scheme) user_code \<Rightarrow> bool" where
  "user_ok k u = ((\<forall>h ev s. \<exists>t. call_handler u h ev s = Inr t \<and> engine_uses k s t) \<and>
     (\<forall>c s. \<exists>t. call_callback u c s = Inr t \<and> engine_uses k s t))"

definition round_ok :: "(int \<times> 32 word) list \<Rightarrow> ('h, 'c, 'z) engine_scheme \<Rightarrow> bool" where
  "round_ok es s = (fds_ok es s \<and> timer_inv s \<and> setting_ok s)"

lemma engine_uses_round: "engine_uses k s t \<Longrightarrow> round_ok es s \<Longrightarrow> round_ok es t"
  using engine_uses_fds [of k s t es] uses_timers_inv [OF keeps_timers_getTimerFD _ engine_uses_timers, of s k t]
  by (simp add: round_ok_def)

lemma run_callback_uses:
  "user_ok k u \<Longrightarrow> \<exists>t. run_callback u c s = Inr t \<and> engine_uses k s t"
proof (cases c)
  case SetStopped
  have "engine_uses k s (s\<lparr>stopped := True\<rparr>)" by (rule engine_uses.other [OF engine_uses.none]) simp_all
  with SetStopped show ?thesis by (simp add: run_callback_def)
qed (simp add: run_callback_def user_ok_def)

lemma for_each_keeps:
  assumes "\<And>c s. I s \<Longrightarrow> \<exists>t. body c s = Inr t \<and> I t"
  shows "I s \<Longrightarrow> \<exists>t. for_each body cs s = Inr t \<and> I t"
proof (induction cs arbitrary: s)
  case (Cons c cs)
  obtain t where "body c s = Inr t" "I t" using assms Cons.prems by blast
  then show ?case using Cons.IH by simp
qed simp

lemma event_handler_round:
  assumes "user_ok k u" "round_ok es s"
  shows "\<exists>t. Event_FD.handleEvents (run_callback u) s = Inr t \<and> round_ok es t"
proof -
  have "round_ok es (s\<lparr>event_counter := 0, callbacks := []\<rparr>)"
    by (rule engine_uses_round [OF engine_uses.other [OF engine_uses.none] assms(2)]) simp_all
  moreover have "\<exists>t. execute (run_callback u) c s = Inr t \<and> round_ok es t" if "round_ok es s" for c s
    using run_callback_uses [OF assms(1), of c s] engine_uses_round [OF _ that] by (auto simp: execute_def)
  ultimately show ?thesis unfolding handleEvents_batch by (intro for_each_keeps) auto
qed

lemma timer_handler_round:
  assumes "user_ok k u" "round_ok es s"
  shows "\<exists>t. TimerFD_handleEvents (run_callback u) s = Some (Inr t) \<and> round_ok es t"
proof -
  have uses: "\<exists>t. run_callback u c s = Inr t \<and> uses_timers (getTimerFD k) s t" for c s
    using run_callback_uses [OF assms(1), of c s] engine_uses_timers by blast
  have inv: "timer_inv s" "setting_ok s" "fds_ok es s" using assms(2) by (simp_all add: round_ok_def)
  obtain t where t: "TimerFD_handleEvents (run_callback u) s = Some (Inr t)" "timer_inv t" "setting_ok t"
    using handleEvents_returns [OF keeps_timers_getTimerFD inv(1,2), of "run_callback u", OF uses] by blast
  have keep: "fds_ok es t'" if "fds_ok es s'" "run_callback u c s' = Inr t'" for c s' t'
    using that run_callback_uses [OF assms(1), of c s'] engine_uses_fds [of k s' t' es] by auto
  have "fds_ok es t"
  proof (cases "timerExpired s")
    case True
    then have "expire_loop (run_callback u) (clock s) s = Some (Inr t)"
      using t(1) by (simp add: TimerFD_handleEvents_def handleExpiredTimers_def)
    then show ?thesis
      by (rule expire_loop_invariant [where I = "fds_ok es"]) (simp_all add: inv keep)
  next
    case False
    then show ?thesis using t(1) inv(3) by (simp add: TimerFD_handleEvents_def)
  qed
  with t show ?thesis by (simp add: round_ok_def)
qed

text \<open>What handling an event means: the handler of its descriptor is called with its events, where
  those of the engine's own descriptors execute the posted callbacks and the expired timers.\<close>

definition handled_event ::
  "('h, 'c, ('h, 'c, 'z) engine_scheme) user_code \<Rightarrow> int \<times> 32 word \<Rightarrow> ('h, 'c, 'z) engine_scheme \<Rightarrow>
   ('h, 'c, 'z) engine_scheme \<Rightarrow> bool" where
  "handled_event u e s t =
     (case map_of (handlers s) (fst e) of
        None \<Rightarrow> False
      | Some EventFD_handler \<Rightarrow> Event_FD.handleEvents (run_callback u) s = Inr t
      | Some TimerFD_handler \<Rightarrow> TimerFD_handleEvents (run_callback u) s = Some (Inr t)
      | Some (UserHandler h) \<Rightarrow> call_handler u h (snd e) s = Inr t)"

text \<open>Handling a batch: the events in their order, each handled, or left out when the code of an
  earlier one has cleared it from the buffer; \<open>i\<close> is the position in the buffer.\<close>

inductive handled_batch ::
  "('h, 'c, ('h, 'c, 'z) engine_scheme) user_code \<Rightarrow> nat \<Rightarrow> (int \<times> 32 word) list \<Rightarrow> ('h, 'c, 'z) engine_scheme \<Rightarrow>
   ('h, 'c, 'z) engine_scheme \<Rightarrow> bool" for u where
  finished: "handled_batch u i [] s s"
| handled: "ebuffer s ! i = e \<Longrightarrow> fst e \<noteq> -1 \<Longrightarrow> handled_event u e s s' \<Longrightarrow> handled_batch u (Suc i) es s' t \<Longrightarrow>
    handled_batch u i (e # es) s t"
| cleared: "ebuffer s ! i = (-1, snd e) \<Longrightarrow> handled_batch u (Suc i) es s t \<Longrightarrow> handled_batch u i (e # es) s t"

lemma callHandler_round:
  assumes "user_ok k u" "round_ok es s" "e \<in> set (ebuffer s)" "fst e \<noteq> -1"
  shows "\<exists>t. callHandler u e s = Some (Inr t) \<and> handled_event u e s t \<and> round_ok es t"
proof -
  have "fst e \<in> fst ` set (handlers s)"
    using assms(2-4) by (auto simp: round_ok_def fds_ok_def batch_inv_def)
  then obtain eh where eh: "map_of (handlers s) (fst e) = Some eh"
    by (metis domD dom_map_of_conv_image_fst)
  show ?thesis
  proof (cases eh)
    case (UserHandler h)
    obtain t where "call_handler u h (snd e) s = Inr t" "engine_uses k s t"
      using assms(1) unfolding user_ok_def by blast
    then show ?thesis using eh UserHandler engine_uses_round assms(2) by (simp add: callHandler_def handled_event_def)
  qed (use eh event_handler_round timer_handler_round assms(1,2) in \<open>simp_all add: callHandler_def handled_event_def\<close>)
qed

lemma event_loop_round:
  assumes "user_ok k u" "i \<le> length es" "round_ok es s"
  shows "\<exists>t. event_loop u i (length es - i) s = Some (Inr t) \<and> handled_batch u i (drop i es) s t \<and> round_ok es t"
  using assms(2,3)
proof (induction "length es - i" arbitrary: i s)
  case 0
  then show ?case by (auto intro: handled_batch.finished)
next
  case (Suc m)
  then have i: "i < length es" "length es - i = Suc (length es - Suc i)" "m = length es - Suc i" by simp_all
  have buf: "i < length (ebuffer s)" "ebuffer s ! i = es ! i \<or> ebuffer s ! i = (-1, snd (es ! i))"
    using holds_events_nth [OF _ i(1), of "ebuffer s"] Suc.prems(2) by (simp_all add: round_ok_def fds_ok_def)
  have drop: "drop i es = es ! i # drop (Suc i) es" using i(1) by (simp add: Cons_nth_drop_Suc)
  show ?case
  proof (cases "fst (ebuffer s ! i) = -1")
    case False
    then have e: "ebuffer s ! i = es ! i" using buf(2) by auto
    obtain s' where s': "callHandler u (es ! i) s = Some (Inr s')" "handled_event u (es ! i) s s'" "round_ok es s'"
      using callHandler_round [OF assms(1) Suc.prems(2) nth_mem [OF buf(1)] False] e by auto
    obtain t where "event_loop u (Suc i) (length es - Suc i) s' = Some (Inr t)"
      "handled_batch u (Suc i) (drop (Suc i) es) s' t" "round_ok es t"
      using Suc.hyps(1) [OF i(3) _ s'(3)] i(1) by auto
    then show ?thesis unfolding i(2) drop using s' False e handled_batch.handled [OF e] by auto
  next
    case True
    obtain t where "event_loop u (Suc i) (length es - Suc i) s = Some (Inr t)"
      "handled_batch u (Suc i) (drop (Suc i) es) s t" "round_ok es t"
      using Suc.hyps(1) [OF i(3) _ Suc.prems(2)] i(1) by auto
    moreover have "ebuffer s ! i = (-1, snd (es ! i))" using buf(2) True by (auto simp: prod_eq_iff)
    ultimately show ?thesis unfolding i(2) drop using True handled_batch.cleared [of s i "es ! i" u "drop (Suc i) es" t] by simp
  qed
qed

lemma engine_inv_ebuffer [simp]: "engine_inv (s\<lparr>ebuffer := es\<rparr>) = engine_inv s"
  by (simp add: engine_inv_def fd_inv_def timer_inv_def setting_ok_def)

lemma epollWait_round:
  assumes "kernel_ok k" "user_ok k u" "engine_inv s" "ready k (length (handlers s)) timeout s = Inr es"
  shows "\<exists>t buf. epollWait k u timeout s = Some (Inr t) \<and> handled_batch u 0 es (s\<lparr>ebuffer := buf\<rparr>) t \<and>
    (es \<noteq> [] \<longrightarrow> buf = es) \<and> engine_inv t"
proof (cases es)
  case Nil
  then show ?thesis using assms(3,4) by (auto simp: epollWait_def intro: handled_batch.finished)
next
  case (Cons e es')
  have "distinct (map fst es)" "fst ` set es \<subseteq> fst ` set (interest s)"
    using assms(1,4) unfolding kernel_ok_def by (metis sum.inject(2))+
  then have "round_ok es (s\<lparr>ebuffer := es\<rparr>)"
    using assms(3) by (auto simp: round_ok_def fds_ok_def engine_inv_def fd_inv_def batch_inv_def
        timer_inv_def setting_ok_def)
  then obtain t where "event_loop u 0 (length es) (s\<lparr>ebuffer := es\<rparr>) = Some (Inr t)" "round_ok es t"
    "handled_batch u 0 es (s\<lparr>ebuffer := es\<rparr>) t"
    using event_loop_round [OF assms(2), of 0 es] by auto
  then show ?thesis using assms(4) Cons by (auto simp: epollWait_def round_ok_def engine_inv_def fds_ok_def)
qed

text \<open>C11: a round of events is handled to the end, and every event of it: \<open>es\<close> are the events that
  the kernel reports, and they are taken in their order, each by a call of the handler that its
  descriptor has at that moment with its event mask (the engine's own descriptors execute the posted callbacks and
  the expired timers), except those that code of an earlier handler has cleared from the buffer by
  deleting their descriptor. Afterwards the kernel monitors exactly the descriptors with handlers,
  the timer queue is consistent and the kernel timer is set to the earliest trigger. The user's
  code may add, modify and delete any descriptor, post callbacks and arm or disarm timers while the
  round is going on.\<close>

theorem round_of_events_completes:
  assumes "kernel_ok k" "user_ok k u" "engine_inv s" "ready k (length (handlers s)) 0 s = Inr es"
  shows "\<exists>t buf. handleEvents k u s = Some (Inr t) \<and> handled_batch u 0 es (s\<lparr>ebuffer := buf\<rparr>) t \<and>
    (es \<noteq> [] \<longrightarrow> buf = es) \<and> engine_inv t"
proof (cases "handlers s = []")
  case True
  then have "interest s = []" using assms(3) by (simp add: engine_inv_def fd_inv_def)
  moreover have "fst ` set es \<subseteq> fst ` set (interest s)"
    using assms(1,4) unfolding kernel_ok_def by (metis sum.inject(2))
  ultimately have "es = []" by simp
  moreover have "s = s\<lparr>ebuffer := ebuffer s\<rparr>" by simp
  ultimately show ?thesis
    using True assms(3) handled_batch.finished [of u 0 s] by (metis handleEvents_def)
next
  case False
  then show ?thesis using epollWait_round [OF assms] by (simp add: handleEvents_def)
qed

definition sample_kernel :: "(nat, nat, unit) engine_scheme kernel" where
  "sample_kernel = \<lparr>ctl_errno = \<lambda>_ _ _. None,
     ready = \<lambda>_ _ s. Inr (take 1 (map (\<lambda>e. (fst e, EVENT_IN)) (interest s))), new_fd = \<lambda>_. Inr 9\<rparr>"

definition sample_user :: "(nat, nat, (nat, nat, unit) engine_scheme) user_code" where
  "sample_user = \<lparr>call_handler = \<lambda>_ _. Inr, call_callback = \<lambda>_. Inr\<rparr>"

definition sample_engine :: "(nat, nat) engine" where
  "sample_engine = \<lparr>callbacks = [UserCallback 4], event_counter = 1, queue = [], next_node = 0,
     timers = \<lambda>_. \<lparr>armed = False, iterator = 0\<rparr>, timer_setting = (0, 0), clock = 0,
     handlers = [(9, EventFD_handler)], ebuffer = [], stopped = False,
     interest = [(9, EVENT_IN)], eventFD = Some 9, timerFD = None\<rparr>"

lemma sample_kernel_ok: "kernel_ok sample_kernel"
proof -
  have "distinct (map fst (take 1 (map (\<lambda>e. (fst e, EVENT_IN)) xs)))"
    "fst ` set (take 1 (map (\<lambda>e. (fst e, EVENT_IN)) xs)) \<subseteq> fst ` set xs" for xs :: "(int \<times> 32 word) list"
    by (cases xs; simp)+
  then show ?thesis unfolding kernel_ok_def sample_kernel_def kernel.simps by blast
qed

lemma sample_engine_ok: "engine_inv sample_engine" "user_ok sample_kernel sample_user"
  by (simp_all add: engine_inv_def fd_inv_def timer_inv_def tq_inv_def setting_ok_def kernel_trigger_def
      sample_engine_def user_ok_def sample_user_def engine_uses.none)

theorem round_of_events_completes_witness:
  "\<exists>t. handleEvents sample_kernel sample_user sample_engine = Some (Inr t) \<and> engine_inv t \<and>
     Event_FD.handleEvents (run_callback sample_user) (sample_engine\<lparr>ebuffer := [(9, EVENT_IN)]\<rparr>) = Inr t"
proof -
  have "ready sample_kernel (length (handlers sample_engine)) 0 sample_engine = Inr [(9, EVENT_IN)]"
    by (simp add: sample_kernel_def sample_engine_def)
  from round_of_events_completes [OF sample_kernel_ok sample_engine_ok(2,1) this]
  obtain t where t: "handleEvents sample_kernel sample_user sample_engine = Some (Inr t)" "engine_inv t"
    "handled_batch sample_user 0 [(9, EVENT_IN)] (sample_engine\<lparr>ebuffer := [(9, EVENT_IN)]\<rparr>) t" by auto
  from t(3) have "Event_FD.handleEvents (run_callback sample_user) (sample_engine\<lparr>ebuffer := [(9, EVENT_IN)]\<rparr>) = Inr t"
    by (auto simp: handled_event_def sample_engine_def elim!: handled_batch.cases)
  with t show ?thesis by blast
qed

text \<open>C24: when a descriptor stops being monitored in the middle of a batch of events, its
  pending event of that batch is dropped, every other pending event stays in its place, and no
  event of it is left even if the same descriptor number is monitored again at once.\<close>

theorem deleted_descriptor_loses_its_event:
  assumes "batch_inv s" "fd \<noteq> -1" "deleteMonitoredFD k fd s = Inr t" "addMonitoredFD k fd ev eh t = Inr u"
  shows "fd \<notin> fst ` set (ebuffer u) \<and>
    map fst (ebuffer u) = map (\<lambda>e. if fst e = fd then -1 else fst e) (ebuffer s)"
proof -
  have "ebuffer t = mark_deleted fd (ebuffer s)"
    using assms(3) by (auto simp: deleteMonitoredFD_def split: if_splits dest!: epoll_ctl_parts)
  then have eq: "map fst (ebuffer u) = map (\<lambda>e. if fst e = fd then -1 else fst e) (ebuffer s)"
    using assms(1) addMonitoredFD_inv(3) [OF assms(4)] by (simp add: batch_inv_def mark_deleted_fds)
  have "fd \<notin> set (map fst (ebuffer u))" unfolding eq using assms(2) by (auto split: if_splits)
  with eq show ?thesis by (metis list.set_map)
qed

definition sample_batch :: "(nat, nat) engine" where
  "sample_batch = sample_engine\<lparr>handlers := [(5, UserHandler 0), (9, EventFD_handler)],
     interest := [(5, EVENT_IN), (9, EVENT_IN)], ebuffer := [(9, EVENT_IN), (5, EVENT_IN)]\<rparr>"

theorem deleted_descriptor_loses_its_event_witness:
  "\<exists>t u. deleteMonitoredFD sample_kernel 5 sample_batch = Inr t \<and>
     addMonitoredFD sample_kernel 5 EVENT_OUT (UserHandler 1) t = Inr u \<and> map fst (ebuffer u) = [9, -1]"
proof -
  obtain t where t: "deleteMonitoredFD sample_kernel 5 sample_batch = Inr t"
    by (simp add: deleteMonitoredFD_def epoll_ctl_def sample_kernel_def sample_batch_def)
  obtain u where u: "addMonitoredFD sample_kernel 5 EVENT_OUT (UserHandler 1) t = Inr u"
    using t by (auto simp: addMonitoredFD_def deleteMonitoredFD_def epoll_ctl_def sample_kernel_def
        sample_batch_def map_erase_def)
  have "batch_inv sample_batch" by (simp add: batch_inv_def sample_batch_def)
  from deleted_descriptor_loses_its_event [OF this _ t u] t u
  show ?thesis by (simp add: sample_batch_def)
qed

section \<open>Owned descriptors\<close>

text \<open>\<open>FileDescriptor\<close> owns a native descriptor and closes it once. \<open>call\<close> runs the function set
  with \<open>atClose\<close>; \<open>close_fails\<close> says when the system call fails, which aborts.\<close>

record 'cb fileDescriptor =
  native :: int
  atCloseCb :: "'cb option"

definition FileDescriptor :: "int \<Rightarrow> 'cb fileDescriptor" where
  "FileDescriptor fd = \<lparr>native = fd, atCloseCb = None\<rparr>"

definition moveFD :: "int \<Rightarrow> int \<times> int" where
  "moveFD fd = (fd, -1)"

definition FileDescriptor_move :: "'cb fileDescriptor \<Rightarrow> 'cb fileDescriptor \<times> 'cb fileDescriptor" where
  "FileDescriptor_move d =
     (let (ret, left) = moveFD (native d)
      in (\<lparr>native = ret, atCloseCb = atCloseCb d\<rparr>, \<lparr>native = left, atCloseCb = None\<rparr>))"

definition atClose :: "'cb \<Rightarrow> 'cb fileDescriptor \<Rightarrow> 'cb fileDescriptor" where
  "atClose cb d = d\<lparr>atCloseCb := Some cb\<rparr>"

definition System_close :: "(int \<Rightarrow> bool) \<Rightarrow> int \<Rightarrow> 's \<Rightarrow> 's result" where
  "System_close close_fails fd s = (if close_fails fd then Inl (Abort ''close failed'') else Inr s)"

definition FileDescriptor_close ::
  "('cb \<Rightarrow> int \<Rightarrow> 's \<Rightarrow> 's result) \<Rightarrow> (int \<Rightarrow> bool) \<Rightarrow> 'cb fileDescriptor \<Rightarrow> 's \<Rightarrow>
   ('cb fileDescriptor \<times> 's) result" where
  "FileDescriptor_close call close_fails d s =
     (if native d < 0 then Inr (d, s)
      else rbind (case atCloseCb d of None \<Rightarrow> Inr s | Some cb \<Rightarrow> call cb (native d) s) (\<lambda>s1.
           rbind (System_close close_fails (native d) s1) (\<lambda>s2. Inr (d\<lparr>native := -1\<rparr>, s2))))"

definition FileDescriptor_move_assign ::
  "('cb \<Rightarrow> int \<Rightarrow> 's \<Rightarrow> 's result) \<Rightarrow> (int \<Rightarrow> bool) \<Rightarrow> 'cb fileDescriptor \<Rightarrow> 'cb fileDescriptor \<Rightarrow> 's \<Rightarrow>
   (('cb fileDescriptor \<times> 'cb fileDescriptor) \<times> 's) result" where
  "FileDescriptor_move_assign call close_fails this_fd d s =
     rbind (FileDescriptor_close call close_fails this_fd s) (\<lambda>(_, s'). Inr (FileDescriptor_move d, s'))"

text \<open>The overload of \<open>addMonitoredFD\<close> for owned descriptors: its at-close function is
  \<open>deleteMonitoredFD\<close>.\<close>

definition addMonitoredFileDescriptor ::
  "('h, 'c, 'z) engine_scheme kernel \<Rightarrow>
   (('h, 'c, 'z) engine_scheme kernel \<Rightarrow> int \<Rightarrow> ('h, 'c, 'z) engine_scheme \<Rightarrow> ('h, 'c, 'z) engine_scheme result) fileDescriptor \<Rightarrow>
   32 word \<Rightarrow> 'h handler \<Rightarrow> ('h, 'c, 'z) engine_scheme \<Rightarrow>
   ((('h, 'c, 'z) engine_scheme kernel \<Rightarrow> int \<Rightarrow> ('h, 'c, 'z) engine_scheme \<Rightarrow> ('h, 'c, 'z) engine_scheme result) fileDescriptor
     \<times> ('h, 'c, 'z) engine_scheme) result" where
  "addMonitoredFileDescriptor k d events eh s =
     rbind (addMonitoredFD k (native d) events eh s) (\<lambda>s'. Inr (atClose deleteMonitoredFD d, s'))"

lemma close_twice:
  assumes "FileDescriptor_close call f d s = Inr (d', s')"
  shows "native d' < 0 \<and> FileDescriptor_close call' f' d' t = Inr (d', t)"
  using assms by (auto simp: FileDescriptor_close_def rbind_Inr_iff split: if_splits)

lemma move_leaves_one_owner:
  "FileDescriptor_move d = (a, b) \<Longrightarrow> native a = native d \<and> native b < 0 \<and>
     FileDescriptor_close call f b s = Inr (b, s)"
  by (auto simp: FileDescriptor_move_def moveFD_def FileDescriptor_close_def)

text \<open>Closing an owned descriptor that the engine monitors ends the monitoring before the
  descriptor is closed.\<close>

lemma close_ends_monitoring:
  assumes "addMonitoredFileDescriptor k d ev eh s = Inr (d', t)" "0 \<le> native d" "fd_inv s"
    and "FileDescriptor_close (\<lambda>cb. cb k) f d' t = Inr (d'', u)"
  shows "fd_inv u \<and> native d \<notin> fst ` set (handlers u) \<and> native d'' = -1"
proof -
  have t: "addMonitoredFD k (native d) ev eh s = Inr t" and d': "d' = atClose deleteMonitoredFD d"
    using assms(1) by (auto simp: addMonitoredFileDescriptor_def rbind_Inr_iff)
  have u: "deleteMonitoredFD k (native d) t = Inr u" and d'': "native d'' = -1"
    using assms(2,4) unfolding d'
    by (auto simp: FileDescriptor_close_def atClose_def System_close_def rbind_Inr_iff split: if_splits)
  show ?thesis
    using addMonitoredFD_inv(1) [OF t assms(3)] deleteMonitoredFD_inv(1,4) [OF u] d'' by simp
qed

end
