(* ===== verification/Epoll_Adapter.thy ===== *)
theory Epoll_Adapter
  imports Engine_Core
begin

text \<open>
  The adapters that connect hiredis to the engine (\<open>src/redis/hiredisepolladapter.cpp\<close>,
  \<open>src/redis/hiredisclusterepolladapter.cpp\<close>). hiredis asks for read or write events through hooks;
  the adapter keeps what is asked for in \<open>reading\<close> and \<open>writing\<close>, the event mask in \<open>eventState\<close>, and
  tells the engine.

  The adapters use the engine through the three operations of \<open>fd_ops\<close>. The locale \<open>fd_monitor\<close> has
  what the engine promises about them, and is interpreted by \<open>EngineImpl\<close>. The code of hiredis that
  runs when events are delivered is an argument; it calls the adapter's operations.
\<close>

unbundle bit_operations_syntax

record 's fd_ops =
  add_fd :: "int \<Rightarrow> 32 word \<Rightarrow> 's \<Rightarrow> 's result"
  modify_fd :: "int \<Rightarrow> 32 word \<Rightarrow> 's \<Rightarrow> 's result"
  delete_fd :: "int \<Rightarrow> 's \<Rightarrow> 's result"

text \<open>The members of \<open>HiredisEpollAdapter\<close> and of \<open>HiredisClusterEpollAdapter::Node\<close> are the same;
  \<open>ac_fd\<close> is the descriptor of the attached context.\<close>

record adapter =
  ac_fd :: "int option"
  eventState :: "32 word"
  reading :: bool
  writing :: bool
  isMonitoring :: bool

section \<open>HiredisEpollAdapter\<close>

definition HiredisEpollAdapter :: adapter where
  "HiredisEpollAdapter = \<lparr>ac_fd = None, eventState = 0, reading = False, writing = False, isMonitoring = False\<rparr>"

text \<open>\<open>ac->c.fd\<close> with a null context is undefined.\<close>

definition with_fd :: "adapter \<Rightarrow> (int \<Rightarrow> 'r result) \<Rightarrow> 'r result" where
  "with_fd a f = (case ac_fd a of None \<Rightarrow> Inl Undefined | Some fd \<Rightarrow> f fd)"

definition attach :: "'s fd_ops \<Rightarrow> int \<Rightarrow> adapter \<times> 's \<Rightarrow> (adapter \<times> 's) result" where
  "attach ops fd = (\<lambda>(a, s).
     rbind (add_fd ops fd 0 s) (\<lambda>s'. Inr
       (\<lparr>ac_fd = Some fd, eventState = 0, reading = False, writing = False, isMonitoring = True\<rparr>, s')))"

definition addRead :: "'s fd_ops \<Rightarrow> adapter \<times> 's \<Rightarrow> (adapter \<times> 's) result" where
  "addRead ops = (\<lambda>(a, s).
     if reading a then Inr (a, s)
     else let a' = a\<lparr>reading := True, eventState := eventState a OR EVENT_IN\<rparr>
          in with_fd a' (\<lambda>fd. rbind (modify_fd ops fd (eventState a') s) (\<lambda>s'. Inr (a', s'))))"

definition delRead :: "'s fd_ops \<Rightarrow> adapter \<times> 's \<Rightarrow> (adapter \<times> 's) result" where
  "delRead ops = (\<lambda>(a, s).
     let a' = a\<lparr>reading := False, eventState := eventState a AND NOT EVENT_IN\<rparr>
     in with_fd a' (\<lambda>fd. rbind (modify_fd ops fd (eventState a') s) (\<lambda>s'. Inr (a', s'))))"

definition addWrite :: "'s fd_ops \<Rightarrow> adapter \<times> 's \<Rightarrow> (adapter \<times> 's) result" where
  "addWrite ops = (\<lambda>(a, s).
     if writing a then Inr (a, s)
     else let a' = a\<lparr>writing := True, eventState := eventState a OR EVENT_OUT\<rparr>
          in with_fd a' (\<lambda>fd. rbind (modify_fd ops fd (eventState a') s) (\<lambda>s'. Inr (a', s'))))"

definition delWrite :: "'s fd_ops \<Rightarrow> adapter \<times> 's \<Rightarrow> (adapter \<times> 's) result" where
  "delWrite ops = (\<lambda>(a, s).
     let a' = a\<lparr>writing := False, eventState := eventState a AND NOT EVENT_OUT\<rparr>
     in with_fd a' (\<lambda>fd. rbind (modify_fd ops fd (eventState a') s) (\<lambda>s'. Inr (a', s'))))"

definition cleanUp :: "'s fd_ops \<Rightarrow> adapter \<times> 's \<Rightarrow> (adapter \<times> 's) result" where
  "cleanUp ops = (\<lambda>(a, s).
     let a' = a\<lparr>reading := False, writing := False, eventState := 0\<rparr>
     in with_fd a' (\<lambda>fd. rbind (delete_fd ops fd s) (\<lambda>s'. Inr (a'\<lparr>isMonitoring := False\<rparr>, s'))))"

text \<open>\<open>handleRead\<close> and \<open>handleWrite\<close> are \<open>redisAsyncHandleRead\<close> and \<open>redisAsyncHandleWrite\<close>.\<close>

definition eventHandler ::
  "(adapter \<times> 's \<Rightarrow> (adapter \<times> 's) result) \<Rightarrow> (adapter \<times> 's \<Rightarrow> (adapter \<times> 's) result) \<Rightarrow> 32 word \<Rightarrow>
   adapter \<times> 's \<Rightarrow> (adapter \<times> 's) result" where
  "eventHandler handleRead handleWrite events x =
     rbind (if events AND EVENT_IN \<noteq> 0 then if reading (fst x) then handleRead x else Inr x else Inr x)
       (\<lambda>y. if events AND EVENT_OUT \<noteq> 0 then if writing (fst y) then handleWrite y else Inr y else Inr y)"

definition HiredisEpollAdapter_destroy :: "'s fd_ops \<Rightarrow> adapter \<times> 's \<Rightarrow> (adapter \<times> 's) result" where
  "HiredisEpollAdapter_destroy ops x =
     (if ac_fd (fst x) \<noteq> None \<and> isMonitoring (fst x) then cleanUp ops x else Inr x)"

section \<open>HiredisClusterEpollAdapter\<close>

text \<open>The operations of a node repeat those of the single adapter, except that its event handler
  also asks \<open>isMonitoring\<close>. The adapter keeps one node per descriptor; erasing a node runs its
  destructor.\<close>

definition Node :: "'s fd_ops \<Rightarrow> int \<Rightarrow> 's \<Rightarrow> (adapter \<times> 's) result" where
  "Node ops fd s =
     rbind (add_fd ops fd 0 s) (\<lambda>s'. Inr
       (\<lparr>ac_fd = Some fd, eventState = 0, reading = False, writing = False, isMonitoring = True\<rparr>, s'))"

definition Node_addRead :: "'s fd_ops \<Rightarrow> adapter \<times> 's \<Rightarrow> (adapter \<times> 's) result" where
  "Node_addRead ops = (\<lambda>(a, s).
     if reading a then Inr (a, s)
     else let a' = a\<lparr>reading := True, eventState := eventState a OR EVENT_IN\<rparr>
          in with_fd a' (\<lambda>fd. rbind (modify_fd ops fd (eventState a') s) (\<lambda>s'. Inr (a', s'))))"

definition Node_addWrite :: "'s fd_ops \<Rightarrow> adapter \<times> 's \<Rightarrow> (adapter \<times> 's) result" where
  "Node_addWrite ops = (\<lambda>(a, s).
     if writing a then Inr (a, s)
     else let a' = a\<lparr>writing := True, eventState := eventState a OR EVENT_OUT\<rparr>
          in with_fd a' (\<lambda>fd. rbind (modify_fd ops fd (eventState a') s) (\<lambda>s'. Inr (a', s'))))"

definition Node_delRead :: "'s fd_ops \<Rightarrow> adapter \<times> 's \<Rightarrow> (adapter \<times> 's) result" where
  "Node_delRead ops = (\<lambda>(a, s).
     let a' = a\<lparr>reading := False, eventState := eventState a AND NOT EVENT_IN\<rparr>
     in with_fd a' (\<lambda>fd. rbind (modify_fd ops fd (eventState a') s) (\<lambda>s'. Inr (a', s'))))"

definition Node_delWrite :: "'s fd_ops \<Rightarrow> adapter \<times> 's \<Rightarrow> (adapter \<times> 's) result" where
  "Node_delWrite ops = (\<lambda>(a, s).
     let a' = a\<lparr>writing := False, eventState := eventState a AND NOT EVENT_OUT\<rparr>
     in with_fd a' (\<lambda>fd. rbind (modify_fd ops fd (eventState a') s) (\<lambda>s'. Inr (a', s'))))"

definition Node_cleanup :: "'s fd_ops \<Rightarrow> adapter \<times> 's \<Rightarrow> (adapter \<times> 's) result" where
  "Node_cleanup ops = (\<lambda>(a, s).
     let a' = a\<lparr>reading := False, writing := False, eventState := 0\<rparr>
     in with_fd a' (\<lambda>fd. rbind (delete_fd ops fd s) (\<lambda>s'. Inr (a'\<lparr>isMonitoring := False\<rparr>, s'))))"

definition Node_destroy :: "'s fd_ops \<Rightarrow> adapter \<times> 's \<Rightarrow> (adapter \<times> 's) result" where
  "Node_destroy ops x = (if isMonitoring (fst x) then Node_cleanup ops x else Inr x)"

definition Node_eventHandler ::
  "(adapter \<times> 's \<Rightarrow> (adapter \<times> 's) result) \<Rightarrow> (adapter \<times> 's \<Rightarrow> (adapter \<times> 's) result) \<Rightarrow> 32 word \<Rightarrow>
   adapter \<times> 's \<Rightarrow> (adapter \<times> 's) result" where
  "Node_eventHandler handleRead handleWrite events x =
     rbind (if events AND EVENT_IN \<noteq> 0
            then if reading (fst x) \<and> isMonitoring (fst x) then handleRead x else Inr x else Inr x)
       (\<lambda>y. if events AND EVENT_OUT \<noteq> 0
            then if writing (fst y) \<and> isMonitoring (fst y) then handleWrite y else Inr y else Inr y)"

definition detach :: "'s fd_ops \<Rightarrow> int \<Rightarrow> (int \<times> adapter) list \<times> 's \<Rightarrow> ((int \<times> adapter) list \<times> 's) result" where
  "detach ops fd = (\<lambda>(nodes, s).
     case map_of nodes fd of
       None \<Rightarrow> Inr (nodes, s)
     | Some n \<Rightarrow> rbind (Node_destroy ops (n, s)) (\<lambda>(_, s'). Inr (map_erase fd nodes, s')))"

definition cluster_attach :: "'s fd_ops \<Rightarrow> int \<Rightarrow> (int \<times> adapter) list \<times> 's \<Rightarrow> ((int \<times> adapter) list \<times> 's) result" where
  "cluster_attach ops fd x =
     rbind (detach ops fd x) (\<lambda>(nodes, s).
       rbind (Node ops fd s) (\<lambda>(n, s'). Inr (map_insert fd n nodes, s')))"

section \<open>The events asked for are the events monitored\<close>

text \<open>The hooks hiredis calls: a context is attached before the others are used, and not used
  after its clean up.\<close>

inductive hooks :: "'s fd_ops \<Rightarrow> adapter \<times> 's \<Rightarrow> adapter \<times> 's \<Rightarrow> bool" for ops x where
  start: "hooks ops x x"
| hook_attach: "hooks ops x y \<Longrightarrow> \<not> isMonitoring (fst y) \<Longrightarrow> attach ops fd y = Inr z \<Longrightarrow> hooks ops x z"
| hook_addRead: "hooks ops x y \<Longrightarrow> isMonitoring (fst y) \<Longrightarrow> addRead ops y = Inr z \<Longrightarrow> hooks ops x z"
| hook_delRead: "hooks ops x y \<Longrightarrow> isMonitoring (fst y) \<Longrightarrow> delRead ops y = Inr z \<Longrightarrow> hooks ops x z"
| hook_addWrite: "hooks ops x y \<Longrightarrow> isMonitoring (fst y) \<Longrightarrow> addWrite ops y = Inr z \<Longrightarrow> hooks ops x z"
| hook_delWrite: "hooks ops x y \<Longrightarrow> isMonitoring (fst y) \<Longrightarrow> delWrite ops y = Inr z \<Longrightarrow> hooks ops x z"
| hook_cleanUp: "hooks ops x y \<Longrightarrow> isMonitoring (fst y) \<Longrightarrow> cleanUp ops y = Inr z \<Longrightarrow> hooks ops x z"

definition event_mask :: "bool \<Rightarrow> bool \<Rightarrow> 32 word" where
  "event_mask r w = (if r then EVENT_IN else 0) OR (if w then EVENT_OUT else 0)"

lemma event_mask_updates:
  "event_mask r w OR EVENT_IN = event_mask True w" "event_mask r w OR EVENT_OUT = event_mask r True"
  "event_mask r w AND NOT EVENT_IN = event_mask False w" "event_mask r w AND NOT EVENT_OUT = event_mask r False"
  "event_mask False False = 0"
  by (cases r; cases w; simp add: event_mask_def EVENT_IN_def EVENT_OUT_def)+

locale fd_monitor =
  fixes ops :: "'s fd_ops" and monitored :: "'s \<Rightarrow> int \<Rightarrow> 32 word option"
  assumes add_law: "add_fd ops fd ev s = Inr t \<Longrightarrow> monitored s fd = None \<and> monitored t = (monitored s)(fd \<mapsto> ev)"
    and modify_law: "modify_fd ops fd ev s = Inr t \<Longrightarrow> monitored s fd \<noteq> None \<and> monitored t = (monitored s)(fd \<mapsto> ev)"
    and delete_law: "delete_fd ops fd s = Inr t \<Longrightarrow> monitored s fd \<noteq> None \<and> monitored t = (monitored s)(fd := None)"
begin

text \<open>What an attached adapter has registered, and an adapter that is not attached has not.\<close>

definition registered :: "adapter \<times> 's \<Rightarrow> bool" where
  "registered = (\<lambda>(a, s). eventState a = event_mask (reading a) (writing a) \<and>
     (if isMonitoring a then \<exists>fd. ac_fd a = Some fd \<and> monitored s fd = Some (eventState a)
      else \<not> reading a \<and> \<not> writing a))"

lemma registered_attach: "attach ops fd (a, s) = Inr y \<Longrightarrow> registered y"
  by (auto simp: attach_def registered_def rbind_Inr_iff event_mask_updates dest: add_law)

lemma registered_modify:
  assumes "registered (a, s)" "isMonitoring a" "ac_fd a' = ac_fd a" "isMonitoring a'"
    "eventState a' = event_mask (reading a') (writing a')"
    "with_fd a' (\<lambda>fd. rbind (modify_fd ops fd (eventState a') s) (\<lambda>s'. Inr (a', s'))) = Inr y"
  shows "registered y"
  using assms by (auto simp: registered_def with_fd_def rbind_Inr_iff split: option.splits dest: modify_law)

lemma registered_ops:
  assumes "registered x" "isMonitoring (fst x)"
  shows "addRead ops x = Inr y \<Longrightarrow> registered y" "delRead ops x = Inr y \<Longrightarrow> registered y"
    "addWrite ops x = Inr y \<Longrightarrow> registered y" "delWrite ops x = Inr y \<Longrightarrow> registered y"
proof -
  obtain a s where x: "x = (a, s)" by (cases x)
  have e: "eventState a = event_mask (reading a) (writing a)" using assms(1) by (simp add: registered_def x)
  note m = registered_modify [OF assms(1) [unfolded x] assms(2) [unfolded x fst_conv]]
  show "addRead ops x = Inr y \<Longrightarrow> registered y"
    using m [of "a\<lparr>reading := True, eventState := eventState a OR EVENT_IN\<rparr>" y] assms e
    by (auto simp: addRead_def x Let_def event_mask_updates split: if_splits)
  show "delRead ops x = Inr y \<Longrightarrow> registered y"
    using m [of "a\<lparr>reading := False, eventState := eventState a AND NOT EVENT_IN\<rparr>" y] assms e
    by (auto simp: delRead_def x Let_def event_mask_updates)
  show "addWrite ops x = Inr y \<Longrightarrow> registered y"
    using m [of "a\<lparr>writing := True, eventState := eventState a OR EVENT_OUT\<rparr>" y] assms e
    by (auto simp: addWrite_def x Let_def event_mask_updates split: if_splits)
  show "delWrite ops x = Inr y \<Longrightarrow> registered y"
    using m [of "a\<lparr>writing := False, eventState := eventState a AND NOT EVENT_OUT\<rparr>" y] assms e
    by (auto simp: delWrite_def x Let_def event_mask_updates)
qed

lemma registered_cleanUp:
  "cleanUp ops (a, s) = Inr (b, t) \<Longrightarrow> registered (b, t) \<and> \<not> isMonitoring b \<and> ac_fd b = ac_fd a \<and>
     (\<forall>fd. ac_fd a = Some fd \<longrightarrow> monitored t fd = None)"
  by (auto simp: cleanUp_def Let_def registered_def with_fd_def rbind_Inr_iff event_mask_updates
      split: option.splits dest: delete_law)

lemma registered_hooks: "hooks ops x y \<Longrightarrow> registered x \<Longrightarrow> registered y"
proof (induction rule: hooks.induct)
  case (hook_attach y fd z)
  then show ?case using registered_attach by (cases y) blast
next
  case (hook_cleanUp y z)
  then show ?case using registered_cleanUp by (cases y; cases z) blast
qed (blast intro: registered_ops)+

lemma writing_monitored: "registered (a, s) \<Longrightarrow> reading a \<or> writing a \<Longrightarrow> isMonitoring a"
  by (auto simp: registered_def split: if_splits)

text \<open>The handlers of hiredis are only called while the context is attached, even if the read
  handler cleans up the connection before the write handler would be called.\<close>

lemma eventHandler_guarded:
  assumes "registered x" "\<And>x y. handleRead x = Inr y \<Longrightarrow> hooks ops x y"
  shows "eventHandler handleRead handleWrite events x =
    eventHandler (\<lambda>x. if isMonitoring (fst x) then handleRead x else Inl Undefined)
      (\<lambda>x. if isMonitoring (fst x) then handleWrite x else Inl Undefined) events x"
proof -
  have "isMonitoring (fst x)" if "reading (fst x)" using that assms(1) writing_monitored by (cases x) auto
  moreover have "isMonitoring (fst y)" if "writing (fst y)" "registered y" for y
    using that writing_monitored by (cases y) auto
  moreover have "registered y" if "handleRead x = Inr y" for y using that assms registered_hooks by blast
  ultimately show ?thesis using assms(1)
    by (cases "handleRead x") (simp_all add: eventHandler_def)
qed

end

section \<open>The engine as the monitor\<close>

definition engine_ops :: "('h, 'c, 'z) engine_scheme kernel \<Rightarrow> 'h \<Rightarrow> ('h, 'c, 'z) engine_scheme fd_ops" where
  "engine_ops k h = \<lparr>add_fd = \<lambda>fd ev. addMonitoredFD k fd ev (UserHandler h), modify_fd = modifyMonitoredFD k,
     delete_fd = deleteMonitoredFD k\<rparr>"

lemma epoll_ctl_interest:
  assumes "epoll_ctl k op fd ev s = Inr t"
  shows "(op = EPOLL_CTL_ADD \<longrightarrow> fd \<notin> fst ` set (interest s)) \<and> (op \<noteq> EPOLL_CTL_ADD \<longrightarrow> fd \<in> fst ` set (interest s)) \<and>
    map_of (interest t) = (map_of (interest s))(fd := (if op = EPOLL_CTL_DEL then None else Some ev))"
proof -
  have "ctl_errno k op fd s = None" using assms by (simp add: epoll_ctl_def split: option.splits)
  note step = assms [unfolded epoll_ctl_def Let_def this option.case]
  show ?thesis using step by (cases op) (auto simp: map_of_map_erase split: if_splits)
qed

interpretation engine_monitor: fd_monitor "engine_ops k h" "\<lambda>s. map_of (interest s)" for k h
proof unfold_locales
  fix fd ev s t
  show "map_of (interest s) fd = None \<and> map_of (interest t) = (map_of (interest s))(fd \<mapsto> ev)"
    if add: "add_fd (engine_ops k h) fd ev s = Inr t"
  proof -
    obtain u where "epoll_ctl k EPOLL_CTL_ADD fd ev s = Inr u" "interest t = interest u"
      using add by (auto simp: engine_ops_def addMonitoredFD_def rbind_Inr_iff split: if_splits)
    then show ?thesis using epoll_ctl_interest [of k EPOLL_CTL_ADD fd ev s u] by (simp add: map_of_eq_None_iff)
  qed
  show "map_of (interest s) fd \<noteq> None \<and> map_of (interest t) = (map_of (interest s))(fd \<mapsto> ev)"
    if "modify_fd (engine_ops k h) fd ev s = Inr t"
    using that epoll_ctl_interest [of k EPOLL_CTL_MOD fd ev s t]
    by (simp add: engine_ops_def modifyMonitoredFD_def map_of_eq_None_iff split: if_splits)
  show "map_of (interest s) fd \<noteq> None \<and> map_of (interest t) = (map_of (interest s))(fd := None)"
    if "delete_fd (engine_ops k h) fd s = Inr t"
    using that epoll_ctl_interest [of k EPOLL_CTL_DEL fd 0
      "s\<lparr>handlers := map_erase fd (handlers s), ebuffer := mark_deleted fd (ebuffer s)\<rparr>" t]
    by (simp add: engine_ops_def deleteMonitoredFD_def map_of_eq_None_iff split: if_splits)
qed

lemma node_operations:
  "Node ops fd s = attach ops fd (a, s)" "Node_addRead ops = addRead ops" "Node_delRead ops = delRead ops"
  "Node_addWrite ops = addWrite ops" "Node_delWrite ops = delWrite ops" "Node_cleanup ops = cleanUp ops"
  by (simp_all add: Node_def attach_def Node_addRead_def addRead_def Node_delRead_def delRead_def
      Node_addWrite_def addWrite_def Node_delWrite_def delWrite_def Node_cleanup_def cleanUp_def)


text \<open>C25: whatever the sequence of hooks hiredis calls on a new adapter, the event mask it keeps is
  the one of the directions asked for, and this mask is what epoll monitors for the attached
  descriptor; an adapter that is not attached asks for nothing.\<close>

theorem adapter_events_are_monitored:
  assumes "hooks (engine_ops k h) (HiredisEpollAdapter, s) (a, t)"
  shows "eventState a = (if reading a then EVENT_IN else 0) OR (if writing a then EVENT_OUT else 0) \<and>
    (if isMonitoring a then \<exists>fd. ac_fd a = Some fd \<and> map_of (interest t) fd = Some (eventState a)
     else \<not> reading a \<and> \<not> writing a)"
proof -
  have "engine_monitor.registered (HiredisEpollAdapter, s)"
    by (simp add: engine_monitor.registered_def HiredisEpollAdapter_def event_mask_def)
  from engine_monitor.registered_hooks [OF assms this, unfolded engine_monitor.registered_def event_mask_def split]
  show ?thesis .
qed

definition sample_hooks :: "(adapter \<times> (nat, nat) engine) result" where
  "sample_hooks = (let ops = engine_ops sample_kernel 0
     in rbind (attach ops 5 (HiredisEpollAdapter, sample_engine)) (\<lambda>x.
        rbind (addWrite ops x) (\<lambda>y. rbind (addRead ops y) (delWrite ops))))"

lemma sample_hooks_run:
  "sample_hooks = Inr (\<lparr>ac_fd = Some 5, eventState = EVENT_IN, reading = True, writing = False, isMonitoring = True\<rparr>,
     sample_engine\<lparr>handlers := [(5, UserHandler 0), (9, EventFD_handler)],
       interest := [(5, EVENT_IN), (9, EVENT_IN)]\<rparr>)"
  by (simp add: sample_hooks_def attach_def addWrite_def addRead_def delWrite_def HiredisEpollAdapter_def with_fd_def
      engine_ops_def addMonitoredFD_def modifyMonitoredFD_def epoll_ctl_def sample_kernel_def sample_engine_def
      map_erase_def EVENT_IN_def EVENT_OUT_def)

lemma monitoring_kept:
  "attach ops fd x = Inr y \<Longrightarrow> isMonitoring (fst y)"
  "addRead ops x = Inr y \<Longrightarrow> isMonitoring (fst x) \<Longrightarrow> isMonitoring (fst y)"
  "addWrite ops x = Inr y \<Longrightarrow> isMonitoring (fst x) \<Longrightarrow> isMonitoring (fst y)"
  by (cases x; auto simp: attach_def addRead_def addWrite_def Let_def with_fd_def rbind_Inr_iff
      split: if_splits option.splits)+

lemma sample_hooks_reached:
  assumes "sample_hooks = Inr x"
  shows "hooks (engine_ops sample_kernel 0) (HiredisEpollAdapter, sample_engine) x"
proof -
  let ?ops = "engine_ops sample_kernel 0"
  obtain u v w where u: "attach ?ops 5 (HiredisEpollAdapter, sample_engine) = Inr u"
    and v: "addWrite ?ops u = Inr v" and w: "addRead ?ops v = Inr w" and x: "delWrite ?ops w = Inr x"
    using assms by (auto simp: sample_hooks_def Let_def rbind_Inr_iff)
  have m: "isMonitoring (fst u)" "isMonitoring (fst v)" "isMonitoring (fst w)"
    using monitoring_kept u v w by blast+
  have "hooks ?ops (HiredisEpollAdapter, sample_engine) u"
    by (rule hook_attach [OF start _ u]) (simp add: HiredisEpollAdapter_def)
  from hook_delWrite [OF hook_addRead [OF hook_addWrite [OF this m(1) v] m(2) w] m(3) x] show ?thesis .
qed

theorem adapter_events_are_monitored_witness:
  "\<exists>a t. sample_hooks = Inr (a, t) \<and> isMonitoring a \<and> ac_fd a = Some 5 \<and> map_of (interest t) 5 = Some (eventState a)"
proof -
  obtain a t where r: "sample_hooks = Inr (a, t)" "isMonitoring a" "ac_fd a = Some 5" using sample_hooks_run by simp
  from adapter_events_are_monitored [OF sample_hooks_reached [OF r(1)]] r show ?thesis by auto
qed

text \<open>The nodes of a cluster: every node is kept under the descriptor of its context, and its mask
  is what epoll monitors for it.\<close>

definition nodes_inv :: "(int \<times> adapter) list \<times> ('h, 'c, 'z) engine_scheme \<Rightarrow> bool" where
  "nodes_inv = (\<lambda>(nodes, s). \<forall>fd n. map_of nodes fd = Some n \<longrightarrow> ac_fd n = Some fd \<and> isMonitoring n \<and>
     eventState n = event_mask (reading n) (writing n) \<and> map_of (interest s) fd = Some (eventState n))"

lemma detach_nodes:
  assumes "nodes_inv (nodes, s)" "detach (engine_ops k h) fd (nodes, s) = Inr (nodes', s')"
  shows "nodes_inv (nodes', s') \<and> map_of nodes' = (map_of nodes)(fd := None)"
proof (cases "map_of nodes fd")
  case None
  then show ?thesis using assms by (simp add: detach_def fun_upd_idem)
next
  case (Some n)
  have n: "isMonitoring n" "ac_fd n = Some fd" using assms(1) Some by (auto simp: nodes_inv_def)
  obtain m where "Node_cleanup (engine_ops k h) (n, s) = Inr (m, s')" "nodes' = map_erase fd nodes"
    using assms(2) Some n(1) by (auto simp: detach_def Node_destroy_def rbind_Inr_iff)
  moreover from this have "delete_fd (engine_ops k h) fd s = Inr s'"
    using n(2) by (auto simp: Node_cleanup_def Let_def with_fd_def rbind_Inr_iff)
  ultimately show ?thesis using assms(1) engine_monitor.delete_law [of k h fd s s']
    by (auto simp: nodes_inv_def map_of_map_erase)
qed

text \<open>Attaching a connection of a cluster node replaces the node of its descriptor, if there is
  one, by a node that asks for no events, and keeps the others; every node stays registered with
  exactly the events it asks for.\<close>

theorem attach_registers_cluster_node:
  assumes "nodes_inv (nodes, s)" "cluster_attach (engine_ops k h) fd (nodes, s) = Inr (nodes', s')"
  shows "nodes_inv (nodes', s') \<and> (\<exists>n. map_of nodes' = (map_of nodes)(fd \<mapsto> n) \<and> \<not> reading n \<and> \<not> writing n)"
proof -
  obtain ns1 s1 n ns2 where d: "detach (engine_ops k h) fd (nodes, s) = Inr (ns1, s1)"
    and n: "Node (engine_ops k h) fd s1 = Inr (n, s')" and nodes': "nodes' = map_insert fd n ns1"
    using assms(2) by (auto simp: cluster_attach_def rbind_Inr_iff)
  have new: "add_fd (engine_ops k h) fd 0 s1 = Inr s'"
    "n = \<lparr>ac_fd = Some fd, eventState = 0, reading = False, writing = False, isMonitoring = True\<rparr>"
    using n by (auto simp: Node_def rbind_Inr_iff)
  note ns1 = detach_nodes [OF assms(1) d]
  then have "fd \<notin> fst ` set ns1" by (metis fun_upd_same map_of_eq_None_iff)
  then have "map_of nodes' = (map_of nodes)(fd \<mapsto> n)" using ns1
    by (simp add: nodes' map_of_map_insert)
  with ns1 new engine_monitor.add_law [OF new(1)] show ?thesis
    by (auto simp: nodes_inv_def event_mask_def split: if_splits)
qed

theorem attach_registers_cluster_node_witness:
  "\<exists>nodes t n. cluster_attach (engine_ops sample_kernel 0) 5 ([], sample_engine) = Inr (nodes, t) \<and>
     map_of nodes 5 = Some n \<and> map_of (interest t) 5 = Some 0"
proof -
  obtain nodes t where r: "cluster_attach (engine_ops sample_kernel 0) 5 ([], sample_engine) = Inr (nodes, t)"
    by (simp add: cluster_attach_def detach_def Node_def engine_ops_def addMonitoredFD_def epoll_ctl_def
        sample_kernel_def sample_engine_def)
  have "nodes_inv ([], sample_engine)" by (simp add: nodes_inv_def)
  from attach_registers_cluster_node [OF this r] r show ?thesis
    by (auto simp: nodes_inv_def event_mask_def)
qed

end
