(* ===== verification/Command_Dispatcher.thy ===== *)
theory Command_Dispatcher
  imports Dispatcher_Base
begin

text \<open>
  \<open>AsyncHiredisCommandDispatcher\<close> (\<open>src/redis/asynchirediscommanddispatcher.cpp\<close>): one connection to
  one database. The state machine is disconnected, connection verification, connected; the
  connection is verified with a \<open>COMMAND\<close> query whose reply must list the commands of the Redis
  module, and is retried by a timer.

  hiredis is an argument: the result of \<open>redisAsyncConnect\<close> and of \<open>redisAsyncCommandArgv\<close> (with
  the error of the context when it fails). Entry points called by hiredis or the timer are
  \<open>connectCb\<close>, \<open>disconnectCb\<close>, \<open>hiredis_cb\<close> (\<open>cb\<close>) and \<open>retryTimerExpired\<close>.
\<close>

datatype serviceState = DISCONNECTED | CONNECTION_VERIFICATION | CONNECTED

record 's hiredis =
  async_connect :: "string \<Rightarrow> nat \<Rightarrow> 's \<Rightarrow> connect_result"
  command_argv :: "nat \<Rightarrow> string list \<Rightarrow> 's \<Rightarrow> (redis_context_err \<times> errno) option"
  have_vip :: bool

record ('cb, 'a, 'd) hiredisDispatcher = "('cb, 'a, 'd) dispatcher" +
  address :: string
  ip_port :: nat
  serviceState :: serviceState
  ac :: connect_result
  usedForSentinel :: bool

type_synonym ('cb, 'a, 'd, 'z) hd_state = "('cb, 'a, 'd, 'z) hiredisDispatcher_scheme"
type_synonym ('cb, 'a, 'd, 'z) hd_client = "('cb, 'a, 'd, ('cb, 'a, 'd, 'z) hiredisDispatcher_scheme) client_code"
type_synonym ('cb, 'a, 'd, 'z) hd_lib = "('cb, 'a, 'd, 'z) hiredisDispatcher_scheme hiredis"

section \<open>Operations\<close>

definition armConnectionRetryTimer :: "int \<Rightarrow> retry_action \<Rightarrow> ('cb, 'a, 'd, 'z) hd_state \<Rightarrow> ('cb, 'a, 'd, 'z) hd_state" where
  "armConnectionRetryTimer duration retryAction s = arm_retry duration retryAction s"

definition isValidCb :: "nat \<Rightarrow> ('cb, 'a, 'd, 'z) hd_state \<Rightarrow> bool" where
  "isValidCb a s = (a \<in> fst ` set (cbs s))"

definition removeCb :: "nat \<Rightarrow> ('cb, 'a, 'd, 'z) hd_state \<Rightarrow> ('cb, 'a, 'd, 'z) hd_state" where
  "removeCb a s = s\<lparr>cbs := erase_first a (cbs s)\<rparr>"

definition dispatch_checked ::
  "('cb, 'a, 'd, 'z) hd_lib \<Rightarrow> 'cb commandCb \<Rightarrow> contents \<Rightarrow> bool \<Rightarrow> ('cb, 'a, 'd, 'z) hd_state \<Rightarrow>
   ('cb, 'a, 'd, 'z) hd_state result" where
  "dispatch_checked lib commandCb c checkConnectionState s =
     (if checkConnectionState \<and> serviceState s \<noteq> CONNECTED
      then Inr (emit (Post (PostCommandError commandCb (make_error_code_dispatcher DEC_NOT_CONNECTED))) s)
      else let a = next_cb s; s1 = push_cb commandCb s
           in rbind (argv c) (\<lambda>args.
                let s2 = emit (HiCommand a args) s1
                in case command_argv lib a args s1 of
                     None \<Rightarrow> Inr s2
                   | Some (err, en) \<Rightarrow>
                       Inr (emit (Post (PostCommandError commandCb (getRedisError (have_vip lib) en err None)))
                              (removeCb a s2))))"

definition dispatchAsync ::
  "('cb, 'a, 'd, 'z) hd_lib \<Rightarrow> 'cb commandCb \<Rightarrow> namespace \<Rightarrow> contents \<Rightarrow> ('cb, 'a, 'd, 'z) hd_state \<Rightarrow>
   ('cb, 'a, 'd, 'z) hd_state result" where
  "dispatchAsync lib commandCb ns c s = dispatch_checked lib commandCb c True s"

definition setConnected ::
  "('cb, 'a, 'd, 'z) hd_client \<Rightarrow> ('cb, 'a, 'd, 'z) hd_state \<Rightarrow> ('cb, 'a, 'd, 'z) hd_state result" where
  "setConnected u s =
     (let s1 = s\<lparr>serviceState := CONNECTED\<rparr>
      in case connectAck s1 of
           None \<Rightarrow> Inr s1
         | Some ack \<Rightarrow> rbind (on_connect u ack s1) (\<lambda>s2. Inr (s2\<lparr>connectAck := None\<rparr>)))"

definition setDisconnected ::
  "('cb, 'a, 'd, 'z) hd_client \<Rightarrow> ('cb, 'a, 'd, 'z) hd_state \<Rightarrow> ('cb, 'a, 'd, 'z) hd_state result" where
  "setDisconnected u s =
     (let s1 = s\<lparr>serviceState := DISCONNECTED\<rparr>
      in rbind (case disconnectCallback s1 of None \<Rightarrow> Inr s1 | Some d \<Rightarrow> on_disconnect u d s1)
           (\<lambda>s2. Inr (armConnectionRetryTimer connectionRetryTimerDuration RetryConnect s2)))"

definition connect ::
  "('cb, 'a, 'd, 'z) hd_lib \<Rightarrow> ('cb, 'a, 'd, 'z) hd_client \<Rightarrow> ('cb, 'a, 'd, 'z) hd_state \<Rightarrow>
   ('cb, 'a, 'd, 'z) hd_state result" where
  "connect lib u s =
     (let r = async_connect lib (c_str (address s)) (ip_port s) s;
          s1 = emit (HiConnect (c_str (address s)) (ip_port s)) (s\<lparr>ac := r\<rparr>)
      in if r = ConnectNull \<or> r = ConnectErr then setDisconnected u s1
         else Inr (emit HiSetDisconnectCallback (emit HiSetConnectCallback (emit HiAttach s1))))"

definition verifyConnection ::
  "('cb, 'a, 'd, 'z) hd_lib \<Rightarrow> ('cb, 'a, 'd, 'z) hd_client \<Rightarrow> ('cb, 'a, 'd, 'z) hd_state \<Rightarrow>
   ('cb, 'a, 'd, 'z) hd_state result" where
  "verifyConnection lib u s =
     (if usedForSentinel s then setConnected u s
      else dispatch_checked lib VerifyConnectionReply (build1 ''COMMAND'') False
             (disarm_retry (s\<lparr>serviceState := CONNECTION_VERIFICATION\<rparr>)))"

definition verifyConnectionReply ::
  "('cb, 'a, 'd, 'z) hd_client \<Rightarrow> error_code \<Rightarrow> reply \<Rightarrow> ('cb, 'a, 'd, 'z) hd_state \<Rightarrow>
   ('cb, 'a, 'd, 'z) hd_state result" where
  "verifyConnectionReply u error r s =
     (if ec_bool error
      then Inr (if retryTimer s = None
                then armConnectionRetryTimer connectionVerificationRetryTimerDuration RetryVerifyConnection s
                else s)
      else rbind (parseCommandListReply r) (\<lambda>cmds.
             if checkRedisModuleCommands cmds then setConnected u s
             else Inl (Abort ''Required Redis module extension commands not available.'')))"

definition call_commandCb ::
  "('cb, 'a, 'd, 'z) hd_client \<Rightarrow> 'cb commandCb \<Rightarrow> error_code \<Rightarrow> reply \<Rightarrow> ('cb, 'a, 'd, 'z) hd_state \<Rightarrow>
   ('cb, 'a, 'd, 'z) hd_state result" where
  "call_commandCb u commandCb error r s =
     (case commandCb of
        VerifyConnectionReply \<Rightarrow> verifyConnectionReply u error r s
      | ClientCb c \<Rightarrow> on_reply u c error r s)"

definition callCommandCbWithError ::
  "('cb, 'a, 'd, 'z) hd_client \<Rightarrow> 'cb commandCb \<Rightarrow> error_code \<Rightarrow> ('cb, 'a, 'd, 'z) hd_state \<Rightarrow>
   ('cb, 'a, 'd, 'z) hd_state result" where
  "callCommandCbWithError u commandCb error s = call_commandCb u commandCb error AsyncRedisReply_default s"

definition waitConnectedAsync :: "'a \<Rightarrow> ('cb, 'a, 'd, 'z) hd_state \<Rightarrow> ('cb, 'a, 'd, 'z) hd_state" where
  "waitConnectedAsync ack s =
     (let s1 = s\<lparr>connectAck := Some ack\<rparr>
      in if serviceState s1 = CONNECTED then emit (Post (PostConnectAck ack)) s1 else s1)"

definition registerDisconnectCb :: "'d \<Rightarrow> ('cb, 'a, 'd, 'z) hd_state \<Rightarrow> ('cb, 'a, 'd, 'z) hd_state" where
  "registerDisconnectCb d s = s\<lparr>disconnectCallback := Some d\<rparr>"

definition disableCommandCallbacks :: "('cb, 'a, 'd, 'z) hd_state \<Rightarrow> ('cb, 'a, 'd, 'z) hd_state" where
  "disableCommandCallbacks s = s\<lparr>clientCallbacksEnabled := False\<rparr>"

definition isClientCallbacksEnabled :: "('cb, 'a, 'd, 'z) hd_state \<Rightarrow> bool" where
  "isClientCallbacksEnabled s = clientCallbacksEnabled s"

text \<open>The callback is called through its address; \<open>rr\<close> is null only together with an error.\<close>

definition handleReply ::
  "('cb, 'a, 'd, 'z) hd_client \<Rightarrow> nat \<Rightarrow> error_code \<Rightarrow> redisReply option \<Rightarrow> ('cb, 'a, 'd, 'z) hd_state \<Rightarrow>
   ('cb, 'a, 'd, 'z) hd_state result" where
  "handleReply u a error rr s =
     (if \<not> isValidCb a s then Inl (Abort ''Invalid callback function.'')
      else let commandCb = the (map_of (cbs s) a)
           in rbind (if ec_bool error then call_commandCb u commandCb error AsyncRedisReply_default s
                     else case rr of
                            None \<Rightarrow> Inl Undefined
                          | Some r \<Rightarrow> call_commandCb u commandCb error (AsyncRedisReply r) s)
                (\<lambda>s1. Inr (if \<not> usePermanentCommandCallbacks s1 then removeCb a s1 else s1)))"

definition disconnectHiredis :: "('cb, 'a, 'd, 'z) hd_state \<Rightarrow> ('cb, 'a, 'd, 'z) hd_state" where
  "disconnectHiredis s =
     (if serviceState s = CONNECTED \<or> serviceState s = CONNECTION_VERIFICATION then emit HiFree s else s)"

section \<open>Entry points\<close>

definition connectCb ::
  "('cb, 'a, 'd, 'z) hd_lib \<Rightarrow> ('cb, 'a, 'd, 'z) hd_client \<Rightarrow> bool \<Rightarrow> ('cb, 'a, 'd, 'z) hd_state \<Rightarrow>
   ('cb, 'a, 'd, 'z) hd_state result" where
  "connectCb lib u isConnected s = (if isConnected then verifyConnection lib u s else setDisconnected u s)"

definition disconnectCb ::
  "('cb, 'a, 'd, 'z) hd_client \<Rightarrow> ('cb, 'a, 'd, 'z) hd_state \<Rightarrow> ('cb, 'a, 'd, 'z) hd_state result" where
  "disconnectCb u s = setDisconnected u s"

definition hiredis_cb ::
  "('cb, 'a, 'd, 'z) hd_lib \<Rightarrow> ('cb, 'a, 'd, 'z) hd_client \<Rightarrow> redis_context_err \<Rightarrow> errno \<Rightarrow>
   redisReply option \<Rightarrow> nat \<Rightarrow> ('cb, 'a, 'd, 'z) hd_state \<Rightarrow> ('cb, 'a, 'd, 'z) hd_state result" where
  "hiredis_cb lib u err en rr a s =
     (if isClientCallbacksEnabled s then handleReply u a (getRedisError (have_vip lib) en err rr) rr s else Inr s)"

definition retryTimerExpired ::
  "('cb, 'a, 'd, 'z) hd_lib \<Rightarrow> ('cb, 'a, 'd, 'z) hd_client \<Rightarrow> ('cb, 'a, 'd, 'z) hd_state \<Rightarrow>
   ('cb, 'a, 'd, 'z) hd_state result" where
  "retryTimerExpired lib u s =
     (case retryTimer s of
        None \<Rightarrow> Inr s
      | Some (_, action) \<Rightarrow>
          (let s1 = s\<lparr>retryTimer := None\<rparr>
           in case action of RetryConnect \<Rightarrow> connect lib u s1 | RetryVerifyConnection \<Rightarrow> verifyConnection lib u s1))"

definition AsyncHiredisCommandDispatcher ::
  "('cb, 'a, 'd, unit) hd_lib \<Rightarrow> ('cb, 'a, 'd, unit) hd_client \<Rightarrow> string \<Rightarrow> 16 word \<Rightarrow> bool \<Rightarrow> bool \<Rightarrow>
   ('cb, 'a, 'd, unit) hd_state result" where
  "AsyncHiredisCommandDispatcher lib u addr net_port permanent sentinel =
     connect lib u
       \<lparr>cbs = [], next_cb = 0, connectAck = None, disconnectCallback = None, clientCallbacksEnabled = True,
        usePermanentCommandCallbacks = permanent, retryTimer = None, out = [], address = addr,
        ip_port = unat (ntohs net_port), serviceState = DISCONNECTED, ac = ConnectNull,
        usedForSentinel = sentinel\<rparr>"

text \<open>After the body of the destructor its timer member is destroyed, which disarms it.\<close>

definition AsyncHiredisCommandDispatcher_destroy :: "('cb, 'a, 'd, 'z) hd_state \<Rightarrow> ('cb, 'a, 'd, 'z) hd_state" where
  "AsyncHiredisCommandDispatcher_destroy s = disarm_retry (disconnectHiredis s)"

section \<open>The contract\<close>

lemma emit_hd_parts [simp]:
  "serviceState (emit e s) = serviceState s" "ac (emit e s) = ac s" "usedForSentinel (emit e s) = usedForSentinel s"
  "address (emit e s) = address s" "ip_port (emit e s) = ip_port s"
  by (simp_all add: emit_def)

lemma push_cb_hd_parts [simp]:
  "serviceState (push_cb c s) = serviceState s" "ac (push_cb c s) = ac s" "usedForSentinel (push_cb c s) = usedForSentinel s"
  by (simp_all add: push_cb_def)

lemma removeCb_parts [simp]:
  "cbs (removeCb a s) = erase_first a (cbs s)" "next_cb (removeCb a s) = next_cb s" "out (removeCb a s) = out s"
  "retryTimer (removeCb a s) = retryTimer s" "serviceState (removeCb a s) = serviceState s"
  "usedForSentinel (removeCb a s) = usedForSentinel s" "ac (removeCb a s) = ac s"
  "clientCallbacksEnabled (removeCb a s) = clientCallbacksEnabled s"
  "usePermanentCommandCallbacks (removeCb a s) = usePermanentCommandCallbacks s"
  by (simp_all add: removeCb_def)

lemma disp_inv_remove [simp]: "disp_inv s \<Longrightarrow> disp_inv (removeCb a s)"
  by (auto simp: disp_inv_def distinct_erase_first dest!: subsetD [OF erase_first_subset])

text \<open>A command handed to hiredis, and one that hiredis refuses.\<close>

lemma dispatch_checked_cases:
  assumes "\<not> (check \<and> serviceState s \<noteq> CONNECTED)" "sized c"
  shows "dispatch_checked lib cb c check s =
    Inr (case command_argv lib (next_cb s) (stack c) (push_cb cb s) of
           None \<Rightarrow> emit (HiCommand (next_cb s) (stack c)) (push_cb cb s)
         | Some (err, en) \<Rightarrow>
             emit (Post (PostCommandError cb (getRedisError (have_vip lib) en err None)))
               (removeCb (next_cb s) (emit (HiCommand (next_cb s) (stack c)) (push_cb cb s))))"
  using assms(1)
  by (auto simp: dispatch_checked_def argv_sized [OF assms(2)] Let_def split: option.splits)

lemma getRedisError_None_bool [simp]: "ec_bool (getRedisError vip en err None)"
  by (simp add: getRedisError_def)

lemma dispatchAsync_connected:
  assumes "serviceState s = CONNECTED" "disp_inv s" "sized c"
  shows "\<exists>t. dispatchAsync lib cb ns c s = Inr t \<and> serviceState t = CONNECTED \<and>
      (\<exists>e. out t = out s @ e \<and>
         (map sent e = [Some (stack c)] \<and> cbs t = cbs s @ [(next_cb s, cb)] \<or>
          (\<exists>ec. map sent e = [Some (stack c), None] \<and> error_post cb (last e) = Some ec \<and> ec_bool ec \<and> cbs t = cbs s)))"
proof (cases "command_argv lib (next_cb s) (stack c) (push_cb cb s)")
  case None
  then show ?thesis using dispatch_checked_cases [of True s c lib cb] assms by (simp add: dispatchAsync_def)
next
  case (Some x)
  then show ?thesis using dispatch_checked_cases [of True s c lib cb] assms
    by (cases x) (simp add: dispatchAsync_def disp_inv_def erase_first_last)
qed

interpretation hiredis_dispatcher: command_dispatcher "dispatchAsync lib" "\<lambda>s. serviceState s = CONNECTED" for lib
proof unfold_locales
  show "dispatchAsync lib cb ns c s = Inr (emit (Post (PostCommandError cb (make_error_code_dispatcher DEC_NOT_CONNECTED))) s)"
    if "serviceState s \<noteq> CONNECTED" for s cb ns c
    using that by (simp add: dispatchAsync_def dispatch_checked_def)
qed (rule dispatchAsync_connected, assumption+, simp)

section \<open>Clients\<close>

text \<open>What the code of a client does with the dispatcher from inside a callback, besides what it
  does to its own state: it may wait, register a disconnect callback and dispatch commands.\<close>

definition same_dispatcher :: "('cb, 'a, 'd, 'z) hd_state \<Rightarrow> ('cb, 'a, 'd, 'z) hd_state \<Rightarrow> bool" where
  "same_dispatcher s t = (cbs t = cbs s \<and> next_cb t = next_cb s \<and> retryTimer t = retryTimer s \<and>
     clientCallbacksEnabled t = clientCallbacksEnabled s \<and>
     usePermanentCommandCallbacks t = usePermanentCommandCallbacks s \<and>
     serviceState t = serviceState s \<and> usedForSentinel t = usedForSentinel s \<and> ac t = ac s \<and> out t = out s)"

inductive client_uses :: "('cb, 'a, 'd, 'z) hd_lib \<Rightarrow> ('cb, 'a, 'd, 'z) hd_state \<Rightarrow> ('cb, 'a, 'd, 'z) hd_state \<Rightarrow> bool"
  for lib s where
  none: "client_uses lib s s"
| wait: "client_uses lib s t \<Longrightarrow> client_uses lib s (waitConnectedAsync ack t)"
| register: "client_uses lib s t \<Longrightarrow> client_uses lib s (registerDisconnectCb d t)"
| dispatch: "client_uses lib s t \<Longrightarrow> sized c \<Longrightarrow> dispatchAsync lib (ClientCb f) ns c t = Inr u \<Longrightarrow> client_uses lib s u"
| own: "client_uses lib s t \<Longrightarrow> same_dispatcher t u \<Longrightarrow> client_uses lib s u"

definition client_ok :: "('cb, 'a, 'd, 'z) hd_lib \<Rightarrow> ('cb, 'a, 'd, 'z) hd_client \<Rightarrow> bool" where
  "client_ok lib u =
     ((\<forall>f e r s. \<exists>t. on_reply u f e r s = Inr t \<and> client_uses lib s t) \<and>
      (\<forall>ack s. \<exists>t. on_connect u ack s = Inr t \<and> client_uses lib s t) \<and>
      (\<forall>d s. \<exists>t. on_disconnect u d s = Inr t \<and> client_uses lib s t))"

text \<open>What such code keeps.\<close>

definition grows :: "('cb, 'a, 'd, 'z) hd_state \<Rightarrow> ('cb, 'a, 'd, 'z) hd_state \<Rightarrow> bool" where
  "grows s t =
     (serviceState t = serviceState s \<and> retryTimer t = retryTimer s \<and> usedForSentinel t = usedForSentinel s \<and>
      ac t = ac s \<and> clientCallbacksEnabled t = clientCallbacksEnabled s \<and>
      usePermanentCommandCallbacks t = usePermanentCommandCallbacks s \<and>
      next_cb s \<le> next_cb t \<and> (disp_inv s \<longrightarrow> disp_inv t) \<and>
      (disp_inv s \<longrightarrow> (\<exists>new. cbs t = cbs s @ new \<and> (\<forall>a\<in>fst ` set new. next_cb s \<le> a))) \<and>
      (\<exists>es. out t = out s @ es))"

lemma grows_refl [simp]: "grows s s"
  by (simp add: grows_def)

lemma grows_trans:
  assumes "grows s t" "grows t u"
  shows "grows s u"
proof -
  have "\<exists>new. cbs u = cbs s @ new \<and> (\<forall>a\<in>fst ` set new. next_cb s \<le> a)" if d: "disp_inv s"
  proof -
    obtain n1 n2 where "cbs t = cbs s @ n1" "\<forall>a\<in>fst ` set n1. next_cb s \<le> a"
      "cbs u = cbs t @ n2" "\<forall>a\<in>fst ` set n2. next_cb t \<le> a" "next_cb s \<le> next_cb t"
      using assms d unfolding grows_def by blast
    then show ?thesis by (intro exI [of _ "n1 @ n2"]) auto
  qed
  moreover have "\<exists>es. out u = out s @ es" using assms unfolding grows_def by (metis append.assoc)
  ultimately show ?thesis using assms by (simp add: grows_def)
qed

lemma grows_dispatchAsync:
  assumes "sized c" "dispatchAsync lib f ns c s = Inr t"
  shows "grows s t"
proof (cases "serviceState s = CONNECTED")
  case False
  then have "t = emit (Post (PostCommandError f (make_error_code_dispatcher DEC_NOT_CONNECTED))) s"
    using assms(2) hiredis_dispatcher.not_connected [of s lib f ns c] by simp
  then show ?thesis by (simp add: grows_def)
next
  case True
  have "t = (case command_argv lib (next_cb s) (stack c) (push_cb f s) of
      None \<Rightarrow> emit (HiCommand (next_cb s) (stack c)) (push_cb f s)
    | Some (err, en) \<Rightarrow> emit (Post (PostCommandError f (getRedisError (have_vip lib) en err None)))
        (removeCb (next_cb s) (emit (HiCommand (next_cb s) (stack c)) (push_cb f s))))"
    using dispatch_checked_cases [of True s c lib f] True assms by (simp add: dispatchAsync_def)
  then show ?thesis
    by (cases "command_argv lib (next_cb s) (stack c) (push_cb f s)")
       (auto simp: grows_def disp_inv_def erase_first_last less_SucI, fastforce)
qed

lemma client_uses_grows: "client_uses lib s t \<Longrightarrow> grows s t"
proof (induction rule: client_uses.induct)
  case none
  then show ?case by simp
next
  case (wait t ack)
  have "grows t (waitConnectedAsync ack t)"
    by (simp add: grows_def waitConnectedAsync_def Let_def disp_inv_def)
  with wait show ?case by (blast intro: grows_trans)
next
  case (register t d)
  have "grows t (registerDisconnectCb d t)" by (simp add: grows_def registerDisconnectCb_def disp_inv_def)
  with register show ?case by (blast intro: grows_trans)
next
  case (dispatch t c f ns u)
  then show ?case using grows_dispatchAsync grows_trans by blast
next
  case (own t u)
  have "grows t u" using own.hyps(2) by (simp add: grows_def same_dispatcher_def disp_inv_def)
  with own show ?case by (blast intro: grows_trans)
qed

lemma client_grows:
  assumes "client_ok lib u"
  shows "\<exists>t. on_reply u f e r s = Inr t \<and> grows s t" "\<exists>t. on_connect u ack s = Inr t \<and> grows s t"
    "\<exists>t. on_disconnect u d s = Inr t \<and> grows s t"
  using assms client_uses_grows unfolding client_ok_def by (meson)+

section \<open>Replies\<close>

definition keeps_cbs :: "('cb, 'a, 'd, 'z) hd_state \<Rightarrow> ('cb, 'a, 'd, 'z) hd_state \<Rightarrow> bool" where
  "keeps_cbs s t =
     (disp_inv t \<and> next_cb s \<le> next_cb t \<and>
      usePermanentCommandCallbacks t = usePermanentCommandCallbacks s \<and>
      clientCallbacksEnabled t = clientCallbacksEnabled s \<and> usedForSentinel t = usedForSentinel s \<and>
      (\<exists>new. cbs t = cbs s @ new \<and> (\<forall>a\<in>fst ` set new. next_cb s \<le> a)) \<and> (\<exists>es. out t = out s @ es))"

lemma grows_keeps_cbs: "disp_inv s \<Longrightarrow> grows s t \<Longrightarrow> keeps_cbs s t"
  by (auto simp: grows_def keeps_cbs_def)

lemma setConnected_cases:
  assumes "client_ok lib u" "disp_inv s"
  shows "\<exists>t. setConnected u s = Inr t \<and> keeps_cbs s t \<and> serviceState t = CONNECTED \<and> retryTimer t = retryTimer s"
proof (cases "connectAck s")
  case None
  then show ?thesis using assms(2) by (simp add: setConnected_def keeps_cbs_def disp_inv_def)
next
  case (Some ack)
  obtain t where t: "on_connect u ack (s\<lparr>serviceState := CONNECTED\<rparr>) = Inr t" "grows (s\<lparr>serviceState := CONNECTED\<rparr>) t"
    using client_grows(2) [OF assms(1)] by blast
  have d: "disp_inv (s\<lparr>serviceState := CONNECTED\<rparr>)" using assms(2) by (simp add: disp_inv_def)
  show ?thesis using Some t grows_keeps_cbs [OF d t(2)] unfolding grows_def
    by (simp add: setConnected_def keeps_cbs_def disp_inv_def)
qed

lemma setDisconnected_cases:
  assumes "client_ok lib u" "disp_inv s"
  shows "\<exists>t. setDisconnected u s = Inr t \<and> keeps_cbs s t \<and> serviceState t = DISCONNECTED \<and>
    retryTimer t = Some (connectionRetryTimerDuration, RetryConnect) \<and> ac t = ac s"
proof -
  let ?s = "s\<lparr>serviceState := DISCONNECTED\<rparr>"
  have d: "disp_inv ?s" using assms(2) by (simp add: disp_inv_def)
  obtain t where t: "(case disconnectCallback ?s of None \<Rightarrow> Inr ?s | Some d \<Rightarrow> on_disconnect u d ?s) = Inr t" "grows ?s t"
    using client_grows(3) [OF assms(1)] by (cases "disconnectCallback s") auto
  then have "setDisconnected u s = Inr (armConnectionRetryTimer connectionRetryTimerDuration RetryConnect t)"
    by (simp add: setDisconnected_def Let_def)
  then show ?thesis using grows_keeps_cbs [OF d t(2)] t(2) unfolding grows_def
    by (simp add: keeps_cbs_def armConnectionRetryTimer_def arm_retry_def disp_inv_def) (metis append.assoc)
qed

lemma verifyConnectionReply_cases:
  assumes "client_ok lib u" "disp_inv s" "verifyConnectionReply u error r s = Inr t"
  shows "keeps_cbs s t \<and>
    (if ec_bool error then serviceState t = serviceState s \<and> retryTimer t \<noteq> None \<and>
       (\<forall>d. retryTimer t = Some (d, RetryConnect) \<longrightarrow> retryTimer s = Some (d, RetryConnect))
     else serviceState t = CONNECTED \<and> retryTimer t = retryTimer s \<and>
       (\<exists>cmds. parseCommandListReply r = Inr cmds \<and> checkRedisModuleCommands cmds))"
proof (cases "ec_bool error")
  case True
  then have t: "t = (if retryTimer s = None
      then armConnectionRetryTimer connectionVerificationRetryTimerDuration RetryVerifyConnection s else s)"
    using assms(3) by (simp add: verifyConnectionReply_def)
  show ?thesis unfolding t using assms(2) True
    by (cases "retryTimer s = None")
       (simp_all add: keeps_cbs_def armConnectionRetryTimer_def arm_retry_def disp_inv_def)
next
  case False
  then obtain cmds where "parseCommandListReply r = Inr cmds" "checkRedisModuleCommands cmds" "setConnected u s = Inr t"
    using assms(3) by (auto simp: verifyConnectionReply_def rbind_Inr_iff split: if_splits)
  then show ?thesis using False setConnected_cases [OF assms(1,2)] by auto
qed

lemma call_commandCb_keeps:
  assumes "client_ok lib u" "disp_inv s" "call_commandCb u f error r s = Inr t"
  shows "keeps_cbs s t"
proof (cases f)
  case VerifyConnectionReply
  then show ?thesis using assms verifyConnectionReply_cases [OF assms(1,2), of error r t]
    by (simp add: call_commandCb_def)
next
  case (ClientCb g)
  then have "grows s t" using client_grows(1) [OF assms(1), of g error r s] assms(3) by (simp add: call_commandCb_def)
  then show ?thesis using grows_keeps_cbs assms(2) by blast
qed

lemma handleReply_parts:
  assumes "client_ok lib u" "disp_inv s" "handleReply u a error rr s = Inr t"
  shows "\<exists>f r t'. (a, f) \<in> set (cbs s) \<and> call_commandCb u f error r s = Inr t' \<and> keeps_cbs s t' \<and>
    (if ec_bool error then r = AsyncRedisReply_default else \<exists>x. rr = Some x \<and> r = AsyncRedisReply x) \<and>
    t = (if usePermanentCommandCallbacks s then t' else removeCb a t')"
proof -
  have v: "a \<in> fst ` set (cbs s)" using assms(3) by (auto simp: handleReply_def isValidCb_def split: if_splits)
  then obtain f where f: "map_of (cbs s) a = Some f" by (metis domD dom_map_of_conv_image_fst)
  obtain r t' where t': "call_commandCb u f error r s = Inr t'"
    "if ec_bool error then r = AsyncRedisReply_default else \<exists>x. rr = Some x \<and> r = AsyncRedisReply x"
    "t = (if \<not> usePermanentCommandCallbacks t' then removeCb a t' else t')"
    using assms(3) f v
    by (cases "ec_bool error"; cases rr) (auto simp: handleReply_def isValidCb_def rbind_Inr_iff)
  have k: "keeps_cbs s t'" using call_commandCb_keeps [OF assms(1,2) t'(1)] .
  have "usePermanentCommandCallbacks t' = usePermanentCommandCallbacks s" using k by (simp add: keeps_cbs_def)
  then have "t = (if usePermanentCommandCallbacks s then t' else removeCb a t')" using t'(3) by simp
  then show ?thesis using t'(1,2) k map_of_SomeD [OF f] by blast
qed

text \<open>C10: a reply calls its callback once. Handling a reply is one call of the callback stored at the
  address, with the error and the reply (an empty reply when there is an error), and then exactly
  this callback is taken out of the list, whatever the client does from inside it: all other
  callbacks, and those of the commands it dispatches meanwhile, stay in order. After that a reply
  for the same list node aborts and calls nothing.\<close>

theorem reply_callback_called_once:
  assumes "client_ok lib u" "disp_inv s" "\<not> usePermanentCommandCallbacks s" "handleReply u a error rr s = Inr t"
  shows "\<exists>f r t' new. (a, f) \<in> set (cbs s) \<and> call_commandCb u f error r s = Inr t' \<and>
    (if ec_bool error then r = AsyncRedisReply_default else \<exists>x. rr = Some x \<and> r = AsyncRedisReply x) \<and>
    t = t'\<lparr>cbs := filter (\<lambda>c. fst c \<noteq> a) (cbs s) @ new\<rparr> \<and> cbs t' = cbs s @ new \<and> disp_inv t \<and>
    handleReply u a error' rr' t = Inl (Abort ''Invalid callback function.'')"
proof -
  obtain f r t' where t': "(a, f) \<in> set (cbs s)" "call_commandCb u f error r s = Inr t'" "keeps_cbs s t'" "t = removeCb a t'"
    "if ec_bool error then r = AsyncRedisReply_default else \<exists>x. rr = Some x \<and> r = AsyncRedisReply x"
    using handleReply_parts [OF assms(1,2,4)] assms(3) by auto
  obtain new where new: "cbs t' = cbs s @ new" "\<forall>b\<in>fst ` set new. next_cb s \<le> b" using t'(3) by (auto simp: keeps_cbs_def)
  have inv: "disp_inv t'" using t'(3) by (simp add: keeps_cbs_def)
  have "a < next_cb s" using assms(2) t'(1) by (force simp: disp_inv_def)
  then have "filter (\<lambda>c. fst c \<noteq> a) new = new" using new(2) by (force simp: filter_id_conv)
  moreover have "erase_first a (cbs t') = filter (\<lambda>c. fst c \<noteq> a) (cbs t')" using inv by (simp add: disp_inv_def erase_first_filter)
  ultimately have t: "t = t'\<lparr>cbs := filter (\<lambda>c. fst c \<noteq> a) (cbs s) @ new\<rparr>" by (simp add: t'(4) new(1) removeCb_def)
  have "disp_inv t" "a \<notin> fst ` set (cbs t)"
    using inv unfolding t'(4) by (simp_all add: set_erase_first disp_inv_def [of t'])
  then have "handleReply u a error' rr' t = Inl (Abort ''Invalid callback function.'')" by (simp add: handleReply_def isValidCb_def)
  then show ?thesis using t' t new(1) \<open>disp_inv t\<close> by blast
qed

section \<open>The life of a connection\<close>

text \<open>The dispatcher with the events that hiredis, the retry timer and the engine deliver. Beside
  the dispatcher a state has \<open>p\<close>: a connection attempt is under way and hiredis will report its
  result; and \<open>n\<close>: how many of the posted callbacks have run, first come first served. Replies
  with data only arrive while there is a connection.\<close>

definition posts :: "('cb, 'a) effect list \<Rightarrow> ('cb, 'a) posted list" where
  "posts es = concat (map (\<lambda>e. case e of Post p \<Rightarrow> [p] | _ \<Rightarrow> []) es)"

datatype ('cb, 'a) hd_event =
    ClientCall
  | ConnectResult bool
  | Disconnected
  | ReplyEvent redis_context_err errno "redisReply option" nat
  | PostedCallback "('cb, 'a) posted"
  | TimerExpired

inductive hd_step ::
  "('cb, 'a, 'd, 'z) hd_lib \<Rightarrow> ('cb, 'a, 'd, 'z) hd_client \<Rightarrow> ('cb, 'a) hd_event \<Rightarrow> ('cb, 'a, 'd, 'z) hd_state \<times> bool \<times> nat \<Rightarrow>
   ('cb, 'a, 'd, 'z) hd_state \<times> bool \<times> nat \<Rightarrow> bool" for lib u where
  client: "client_uses lib s t \<Longrightarrow> hd_step lib u ClientCall (s, p, n) (t, p, n)"
| connect_result: "connectCb lib u ok s = Inr t \<Longrightarrow> hd_step lib u (ConnectResult ok) (s, True, n) (t, False, n)"
| disconnected: "serviceState s \<noteq> DISCONNECTED \<Longrightarrow> disconnectCb u s = Inr t \<Longrightarrow> hd_step lib u Disconnected (s, p, n) (t, False, n)"
| reply: "serviceState s = DISCONNECTED \<longrightarrow> rr = None \<Longrightarrow> hiredis_cb lib u err en rr a s = Inr t \<Longrightarrow>
    hd_step lib u (ReplyEvent err en rr a) (s, p, n) (t, p, n)"
| posted_error: "drop n (posts (out s)) = PostCommandError f ec # rest \<Longrightarrow> callCommandCbWithError u f ec s = Inr t \<Longrightarrow>
    hd_step lib u (PostedCallback (PostCommandError f ec)) (s, p, n) (t, p, Suc n)"
| posted_ack: "drop n (posts (out s)) = PostConnectAck ack # rest \<Longrightarrow> on_connect u ack s = Inr t \<Longrightarrow>
    hd_step lib u (PostedCallback (PostConnectAck ack)) (s, p, n) (t, p, Suc n)"
| timer: "retryTimer s = Some (d, action) \<Longrightarrow> retryTimerExpired lib u s = Inr t \<Longrightarrow>
    hd_step lib u TimerExpired (s, p, n) (t, if action = RetryConnect then ac t = ConnectOk else p, n)"

inductive hd_reachable ::
  "('cb, 'a, 'd, unit) hd_lib \<Rightarrow> ('cb, 'a, 'd, unit) hd_client \<Rightarrow> ('cb, 'a, 'd, unit) hd_state \<times> bool \<times> nat \<Rightarrow> bool"
  for lib u where
  created: "AsyncHiredisCommandDispatcher lib u addr net_port permanent sentinel = Inr s \<Longrightarrow>
    hd_reachable lib u (s, ac s = ConnectOk, 0)"
| step: "hd_reachable lib u x \<Longrightarrow> hd_step lib u ev x y \<Longrightarrow> hd_reachable lib u y"

text \<open>A verification is going on: its reply or its posted error is still to come.\<close>

definition verifying :: "nat \<Rightarrow> ('cb, 'a, 'd, 'z) hd_state \<Rightarrow> bool" where
  "verifying n s = ((\<exists>a. (a, VerifyConnectionReply) \<in> set (cbs s)) \<or>
     (\<exists>ec. PostCommandError VerifyConnectionReply ec \<in> set (drop n (posts (out s)))))"

text \<open>Something will happen that brings the connection forward.\<close>

definition not_stuck :: "('cb, 'a, 'd, 'z) hd_state \<Rightarrow> bool \<Rightarrow> nat \<Rightarrow> bool" where
  "not_stuck s p n =
     (case serviceState s of
        DISCONNECTED \<Rightarrow> retryTimer s \<noteq> None \<or> p
      | CONNECTION_VERIFICATION \<Rightarrow> retryTimer s \<noteq> None \<or> verifying n s
      | CONNECTED \<Rightarrow> True)"

definition life_inv :: "('cb, 'a, 'd, 'z) hd_state \<times> bool \<times> nat \<Rightarrow> bool" where
  "life_inv = (\<lambda>(s, p, n). disp_inv s \<and> clientCallbacksEnabled s \<and> n \<le> length (posts (out s)) \<and> not_stuck s p n \<and>
     (\<forall>d. retryTimer s = Some (d, RetryConnect) \<longrightarrow> serviceState s = DISCONNECTED \<and> \<not> p))"

lemma posts_append [simp]: "posts (xs @ ys) = posts xs @ posts ys"
  by (simp add: posts_def)

lemma posts_Cons [simp]:
  "posts [] = []" "posts (e # es) = (case e of Post p \<Rightarrow> [p] | _ \<Rightarrow> []) @ posts es"
  by (simp_all add: posts_def)

lemma verifying_keeps: "keeps_cbs s t \<Longrightarrow> verifying n s \<Longrightarrow> verifying n t"
  by (auto simp: verifying_def keeps_cbs_def)

lemma erase_first_keeps: "(b, x) \<in> set xs \<Longrightarrow> b \<noteq> a \<Longrightarrow> (b, x) \<in> set (erase_first a xs)"
  by (induction a xs rule: erase_first.induct) auto

lemma verifying_remove:
  assumes "verifying n s" "disp_inv s" "(a, ClientCb g) \<in> set (cbs s)"
  shows "verifying n (removeCb a s)"
proof -
  have "b \<noteq> a" if "(b, VerifyConnectionReply) \<in> set (cbs s)" for b
    using that assms(2,3) by (auto simp: disp_inv_def dest: eq_key_imp_eq_value)
  then show ?thesis using assms(1) by (auto simp: verifying_def intro: erase_first_keeps)
qed

lemma life_inv_grows:
  assumes "grows s t" "life_inv (s, p, n)"
  shows "life_inv (t, p, n)"
proof -
  have "verifying n s \<Longrightarrow> verifying n t"
    using verifying_keeps [OF grows_keeps_cbs [OF _ assms(1)]] assms(2) by (simp add: life_inv_def)
  moreover have "serviceState t = serviceState s" "retryTimer t = retryTimer s" "disp_inv t" "clientCallbacksEnabled t"
    "n \<le> length (posts (out t))"
    using assms by (auto simp: grows_def life_inv_def)
  ultimately show ?thesis
    using assms(2) by (auto simp: life_inv_def not_stuck_def split: serviceState.splits)
qed

lemma disarm_retry_parts [simp]:
  "cbs (disarm_retry s) = cbs s" "next_cb (disarm_retry s) = next_cb s" "retryTimer (disarm_retry s) = None"
  "clientCallbacksEnabled (disarm_retry s) = clientCallbacksEnabled s"
  "usePermanentCommandCallbacks (disarm_retry s) = usePermanentCommandCallbacks s"
  "serviceState (disarm_retry h) = serviceState h" "usedForSentinel (disarm_retry h) = usedForSentinel h"
  by (simp_all add: disarm_retry_def)

lemma sized_COMMAND [simp]: "sized (build1 ''COMMAND'')"
  by (simp add: build1_def)

lemma verifyConnection_cases:
  assumes "client_ok lib u" "disp_inv s"
  shows "\<exists>t. verifyConnection lib u s = Inr t \<and> disp_inv t \<and> clientCallbacksEnabled t = clientCallbacksEnabled s \<and>
    (\<exists>es. out t = out s @ es) \<and>
    (if usedForSentinel s then serviceState t = CONNECTED \<and> retryTimer t = retryTimer s
     else serviceState t = CONNECTION_VERIFICATION \<and> retryTimer t = None \<and> (n \<le> length (posts (out s)) \<longrightarrow> verifying n t))"
proof (cases "usedForSentinel s")
  case True
  then show ?thesis using setConnected_cases [OF assms] by (auto simp: verifyConnection_def keeps_cbs_def)
next
  case False
  let ?s = "disarm_retry (s\<lparr>serviceState := CONNECTION_VERIFICATION\<rparr>)"
  have d: "disp_inv ?s" using assms(2) by (simp add: disp_inv_def)
  have o: "\<exists>es. out ?s = out s @ es" by (simp add: disarm_retry_def emit_def)
  show ?thesis
  proof (cases "command_argv lib (next_cb ?s) (stack (build1 ''COMMAND'')) (push_cb VerifyConnectionReply ?s)")
    case None
    then show ?thesis using False d o dispatch_checked_cases [of False ?s "build1 ''COMMAND''" lib VerifyConnectionReply]
      by (auto simp: verifyConnection_def verifying_def)
  next
    case (Some x)
    then show ?thesis using False d o dispatch_checked_cases [of False ?s "build1 ''COMMAND''" lib VerifyConnectionReply]
      by (cases x) (auto simp: verifyConnection_def verifying_def)
  qed
qed

lemma life_inv_setDisconnected:
  assumes "client_ok lib u" "disp_inv s" "clientCallbacksEnabled s" "n \<le> length (posts (out s))"
    "setDisconnected u s = Inr t"
  shows "life_inv (t, False, n)"
  using setDisconnected_cases [OF assms(1,2)] assms
  by (auto simp: life_inv_def not_stuck_def keeps_cbs_def)

lemma connect_cases:
  assumes "connect lib u s = Inr t"
  shows "ac t = ConnectOk \<and> serviceState t = serviceState s \<and> retryTimer t = retryTimer s \<and> cbs t = cbs s \<and>
      next_cb t = next_cb s \<and> clientCallbacksEnabled t = clientCallbacksEnabled s \<and> (\<exists>es. out t = out s @ es) \<or>
    (\<exists>s1 es. setDisconnected u s1 = Inr t \<and> cbs s1 = cbs s \<and> next_cb s1 = next_cb s \<and> ac s1 \<noteq> ConnectOk \<and>
      clientCallbacksEnabled s1 = clientCallbacksEnabled s \<and> out s1 = out s @ es)"
proof (cases "async_connect lib (c_str (address s)) (ip_port s) s")
  case ConnectOk
  then show ?thesis using assms by (auto simp: connect_def Let_def)
qed (use assms in \<open>fastforce simp: connect_def Let_def\<close>)+

lemma life_inv_connect:
  assumes "client_ok lib u" "disp_inv s" "clientCallbacksEnabled s" "n \<le> length (posts (out s))"
    "serviceState s = DISCONNECTED" "retryTimer s = None" "connect lib u s = Inr t"
  shows "life_inv (t, ac t = ConnectOk, n)"
  using connect_cases [OF assms(7)]
proof (elim disjE exE conjE)
  fix s1 es
  assume s1: "setDisconnected u s1 = Inr t" "cbs s1 = cbs s" "next_cb s1 = next_cb s" "ac s1 \<noteq> ConnectOk"
    "clientCallbacksEnabled s1 = clientCallbacksEnabled s" "out s1 = out s @ es"
  have d: "disp_inv s1" using s1 assms(2) by (simp add: disp_inv_def)
  have "ac t \<noteq> ConnectOk" using setDisconnected_cases [OF assms(1) d] s1(1,4) by auto
  then show ?thesis using life_inv_setDisconnected [OF assms(1) d _ _ s1(1), of n] s1 assms by simp
qed (use assms in \<open>auto simp: life_inv_def not_stuck_def disp_inv_def\<close>)

lemma life_inv_verifyConnection:
  assumes "client_ok lib u" "life_inv (s, p, n)" "verifyConnection lib u s = Inr t"
    "\<And>d. retryTimer s \<noteq> Some (d, RetryConnect)"
  shows "life_inv (t, p', n)"
proof -
  have s: "disp_inv s" "clientCallbacksEnabled s" "n \<le> length (posts (out s))"
    using assms(2) by (simp_all add: life_inv_def)
  show ?thesis
    using verifyConnection_cases [OF assms(1) s(1), of n] s assms(3,4)
    by (cases "usedForSentinel s") (auto simp: life_inv_def not_stuck_def)
qed

lemma life_inv_verifyReply:
  assumes "client_ok lib u" "life_inv (s, p, n)" "verifyConnectionReply u error r s = Inr t"
    "serviceState s = DISCONNECTED \<Longrightarrow> ec_bool error"
  shows "life_inv (t, p, n) \<and> \<not> (serviceState t = CONNECTION_VERIFICATION \<and> retryTimer t = None)"
proof -
  have s: "disp_inv s" "clientCallbacksEnabled s" "n \<le> length (posts (out s))"
    "\<And>d. retryTimer s = Some (d, RetryConnect) \<Longrightarrow> serviceState s = DISCONNECTED \<and> \<not> p"
    using assms(2) by (simp_all add: life_inv_def)
  note t = verifyConnectionReply_cases [OF assms(1) s(1) assms(3)]
  have k: "disp_inv t" "clientCallbacksEnabled t" "n \<le> length (posts (out t))"
    using t s by (auto simp: keeps_cbs_def)
  show ?thesis
  proof (cases "ec_bool error")
    case True
    then show ?thesis using t k s(4) by (auto simp: life_inv_def not_stuck_def split: serviceState.splits)
  next
    case False
    then have "retryTimer s \<noteq> Some (d, RetryConnect)" for d using s(4) assms(4) by blast
    then show ?thesis using t k False by (auto simp: life_inv_def not_stuck_def)
  qed
qed

lemma life_inv_handleReply:
  assumes "client_ok lib u" "life_inv (s, p, n)" "handleReply u a error rr s = Inr t"
    "serviceState s = DISCONNECTED \<Longrightarrow> ec_bool error"
  shows "life_inv (t, p, n)"
proof -
  have s: "disp_inv s" "clientCallbacksEnabled s" "n \<le> length (posts (out s))" "not_stuck s p n"
    using assms(2) by (simp_all add: life_inv_def)
  obtain f r t' where t': "(a, f) \<in> set (cbs s)" "call_commandCb u f error r s = Inr t'" "keeps_cbs s t'"
    "t = (if usePermanentCommandCallbacks s then t' else removeCb a t')"
    using handleReply_parts [OF assms(1) s(1) assms(3)] by blast
  have "life_inv (t', p, n) \<and> (serviceState t' = CONNECTION_VERIFICATION \<and> retryTimer t' = None \<longrightarrow>
      (\<exists>g. f = ClientCb g))"
  proof (cases f)
    case (ClientCb g)
    then have "grows s t'" using client_grows(1) [OF assms(1), of g error r s] t'(2) by (simp add: call_commandCb_def)
    then show ?thesis using life_inv_grows assms(2) ClientCb by blast
  next
    case VerifyConnectionReply
    then have "verifyConnectionReply u error r s = Inr t'" using t'(2) by (simp add: call_commandCb_def)
    from life_inv_verifyReply [OF assms(1,2) this] show ?thesis using assms(4) by blast
  qed
  moreover have "disp_inv t'" "(a, f) \<in> set (cbs t')" using t'(1,3) by (auto simp: keeps_cbs_def)
  ultimately show ?thesis using verifying_remove [of n t' a] t'(4)
    by (auto simp: life_inv_def not_stuck_def split: serviceState.splits)
qed

lemma life_inv_posted:
  assumes "client_ok lib u" "life_inv (s, p, n)" "n < length (posts (out s))" "keeps_cbs s t" "life_inv (t, p, n)"
    "serviceState t = CONNECTION_VERIFICATION \<and> retryTimer t = None \<Longrightarrow>
       \<forall>ec. posts (out s) ! n \<noteq> PostCommandError VerifyConnectionReply ec"
  shows "life_inv (t, p, Suc n)"
proof -
  obtain es where es: "out t = out s @ es" using assms(4) by (auto simp: keeps_cbs_def)
  have drop: "drop n (posts (out t)) = posts (out s) ! n # drop (Suc n) (posts (out t))"
    using assms(3) es by (simp add: Cons_nth_drop_Suc [symmetric] nth_append)
  have "retryTimer t \<noteq> None \<or> verifying (Suc n) t" if "verifying n t" "serviceState t = CONNECTION_VERIFICATION"
    using assms(6) that unfolding verifying_def drop by (metis set_ConsD)
  then show ?thesis using assms(3,5) es
    by (auto simp: life_inv_def not_stuck_def split: serviceState.splits)
qed

lemma drop_ConsD: "drop n xs = x # ys \<Longrightarrow> n < length xs \<and> xs ! n = x"
  by (metis Cons_nth_drop_Suc drop_all list.inject list.simps(3) not_less)

text \<open>A posted error of the verification never succeeds: the reply it carries lists nothing.\<close>

lemma posted_verification_is_error:
  "verifyConnectionReply u ec AsyncRedisReply_default s = Inr t \<Longrightarrow> ec_bool ec"
  by (auto simp: verifyConnectionReply_def AsyncRedisReply_default_def parseCommandListReply_def getArray_def
      checkRedisModuleCommands_def Let_def missing_fold_empty set_required split: if_splits)

lemma life_inv_step:
  assumes "client_ok lib u" "hd_step lib u ev x y" "life_inv x"
  shows "life_inv y"
  using assms(2,3)
proof (induction rule: hd_step.induct)
  case (client s t p n)
  then show ?case using client_uses_grows life_inv_grows by blast
next
  case (connect_result ok s t n)
  then have s: "disp_inv s" "clientCallbacksEnabled s" "n \<le> length (posts (out s))"
    "\<And>d. retryTimer s \<noteq> Some (d, RetryConnect)" by (simp_all add: life_inv_def)
  show ?case
  proof (cases ok)
    case True
    then show ?thesis
      using life_inv_verifyConnection [OF assms(1) connect_result(2) _ s(4)] connect_result(1) by (simp add: connectCb_def)
  next
    case False
    then show ?thesis
      using life_inv_setDisconnected [OF assms(1) s(1-3)] connect_result(1) by (simp add: connectCb_def)
  qed
next
  case (disconnected s t p n)
  then show ?case using life_inv_setDisconnected [OF assms(1), of s n t] by (simp add: life_inv_def disconnectCb_def)
next
  case (reply s rr err en a t p n)
  have "clientCallbacksEnabled s" using reply(3) by (simp add: life_inv_def)
  moreover have "serviceState s = DISCONNECTED \<Longrightarrow> ec_bool (getRedisError (have_vip lib) en err rr)"
    using reply(1) by simp
  ultimately show ?case
    using life_inv_handleReply [OF assms(1) reply(3)] reply(2)
    by (simp add: hiredis_cb_def isClientCallbacksEnabled_def)
next
  case (posted_error n s f ec rest t p)
  note d = drop_ConsD [OF posted_error(1)]
  have s: "disp_inv s" using posted_error(3) by (simp add: life_inv_def)
  have call: "call_commandCb u f ec AsyncRedisReply_default s = Inr t"
    using posted_error(2) by (simp add: callCommandCbWithError_def)
  have "life_inv (t, p, n) \<and> (f = VerifyConnectionReply \<longrightarrow> \<not> (serviceState t = CONNECTION_VERIFICATION \<and> retryTimer t = None))"
  proof (cases f)
    case VerifyConnectionReply
    then have v: "verifyConnectionReply u ec AsyncRedisReply_default s = Inr t" using call by (simp add: call_commandCb_def)
    have "ec_bool ec" using v by (rule posted_verification_is_error)
    then show ?thesis using life_inv_verifyReply [OF assms(1) posted_error(3) v] by simp
  next
    case (ClientCb g)
    then have "grows s t" using client_grows(1) [OF assms(1), of g ec AsyncRedisReply_default s] call
      by (simp add: call_commandCb_def)
    then show ?thesis using life_inv_grows posted_error(3) ClientCb by blast
  qed
  then show ?case
    using life_inv_posted [OF assms(1) posted_error(3) _ call_commandCb_keeps [OF assms(1) s call]] d by auto
next
  case (posted_ack n s ack rest t p)
  note d = drop_ConsD [OF posted_ack(1)]
  have g: "grows s t" using client_grows(2) [OF assms(1), of ack s] posted_ack(2) by simp
  have "keeps_cbs s t" using grows_keeps_cbs g posted_ack(3) by (auto simp: life_inv_def)
  then show ?case
    using life_inv_posted [OF assms(1) posted_ack(3)] life_inv_grows [OF g posted_ack(3)] d by auto
next
  case (timer s d action t p n)
  let ?s = "s\<lparr>retryTimer := None\<rparr>"
  have s: "disp_inv ?s" "clientCallbacksEnabled ?s" "n \<le> length (posts (out ?s))"
    using timer(3) by (simp_all add: life_inv_def disp_inv_def)
  show ?case
  proof (cases action)
    case RetryConnect
    then have "serviceState ?s = DISCONNECTED" using timer(1,3) by (simp add: life_inv_def)
    then show ?thesis using life_inv_connect [OF assms(1) s, of t] RetryConnect timer(1,2) by (simp add: retryTimerExpired_def)
  next
    case RetryVerifyConnection
    then have "verifyConnection lib u ?s = Inr t" using timer(1,2) by (simp add: retryTimerExpired_def)
    then show ?thesis using verifyConnection_cases [OF assms(1) s(1), of n] s RetryVerifyConnection
      by (cases "usedForSentinel s") (auto simp: life_inv_def not_stuck_def)
  qed
qed

lemma life_inv_reachable:
  assumes "client_ok lib u" "hd_reachable lib u x"
  shows "life_inv x"
  using assms(2)
proof (induction rule: hd_reachable.induct)
  case (created addr net_port permanent sentinel s)
  then show ?case unfolding AsyncHiredisCommandDispatcher_def
    by (intro life_inv_connect [OF assms(1)]) (auto simp: disp_inv_def)
next
  case (step x ev y)
  then show ?case using life_inv_step [OF assms(1)] by blast
qed

text \<open>C9: the dispatcher never gets stuck on the way to a connection. In every state that any
  sequence of connection results, disconnects, replies, posted callbacks, timer expirations and
  client calls can lead to, a disconnected dispatcher has its retry timer armed or a connection
  attempt under way, and a dispatcher that is verifying its connection has the retry timer armed
  or the outcome of the verification still to come.\<close>

theorem dispatcher_never_stuck:
  assumes "client_ok lib u" "hd_reachable lib u (s, p, n)"
  shows "(serviceState s = DISCONNECTED \<longrightarrow> retryTimer s \<noteq> None \<or> p) \<and>
    (serviceState s = CONNECTION_VERIFICATION \<longrightarrow> retryTimer s \<noteq> None \<or>
       (\<exists>a. (a, VerifyConnectionReply) \<in> set (cbs s)) \<or>
       (\<exists>ec. PostCommandError VerifyConnectionReply ec \<in> set (drop n (posts (out s)))))"
  using life_inv_reachable [OF assms]
  by (auto simp: life_inv_def not_stuck_def verifying_def split: serviceState.splits)

definition sample_hd_lib :: "(nat, nat, nat, unit) hd_lib" where
  "sample_hd_lib = \<lparr>async_connect = \<lambda>_ _ _. ConnectErr, command_argv = \<lambda>_ _ _. None, have_vip = False\<rparr>"

definition sample_hd_client :: "(nat, nat, nat, unit) hd_client" where
  "sample_hd_client = \<lparr>on_reply = \<lambda>_ _ _. Inr, on_connect = \<lambda>_. Inr, on_disconnect = \<lambda>_. Inr\<rparr>"

lemma sample_hd_client_ok: "client_ok lib sample_hd_client"
  by (simp add: client_ok_def sample_hd_client_def client_uses.none)

theorem dispatcher_never_stuck_witness:
  "\<exists>s. hd_reachable sample_hd_lib sample_hd_client (s, False, 0) \<and> serviceState s = DISCONNECTED \<and> retryTimer s \<noteq> None"
proof -
  obtain s where s: "AsyncHiredisCommandDispatcher sample_hd_lib sample_hd_client ''db'' 0 False False = Inr s"
    "ac s = ConnectErr" "serviceState s = DISCONNECTED"
    by (simp add: AsyncHiredisCommandDispatcher_def connect_def setDisconnected_def sample_hd_lib_def
        armConnectionRetryTimer_def arm_retry_def)
  then have r: "hd_reachable sample_hd_lib sample_hd_client (s, False, 0)"
    using hd_reachable.created [of sample_hd_lib sample_hd_client] by fastforce
  from dispatcher_never_stuck [OF sample_hd_client_ok r] r s(3) show ?thesis by auto
qed

definition sample_hd_state :: "(nat, nat, nat, unit) hd_state" where
  "sample_hd_state = \<lparr>cbs = [(3, ClientCb 7)], next_cb = 4, connectAck = None, disconnectCallback = None,
     clientCallbacksEnabled = True, usePermanentCommandCallbacks = False, retryTimer = None, out = [],
     address = ''db'', ip_port = 6379, serviceState = CONNECTED, ac = ConnectOk, usedForSentinel = False\<rparr>"

theorem reply_callback_called_once_witness:
  "\<exists>t. handleReply sample_hd_client 3 no_error (Some (RedisReply REDIS_REPLY_NIL 0 None [])) sample_hd_state = Inr t \<and>
     handleReply sample_hd_client 3 no_error None t = Inl (Abort ''Invalid callback function.'')"
proof -
  obtain t where t: "handleReply sample_hd_client 3 no_error (Some (RedisReply REDIS_REPLY_NIL 0 None [])) sample_hd_state = Inr t"
    by (simp add: handleReply_def isValidCb_def sample_hd_state_def call_commandCb_def sample_hd_client_def)
  have "disp_inv sample_hd_state" "\<not> usePermanentCommandCallbacks sample_hd_state"
    by (simp_all add: disp_inv_def sample_hd_state_def)
  from reply_callback_called_once [OF sample_hd_client_ok this t] t show ?thesis by blast
qed

text \<open>Which events connect a dispatcher that is not a sentinel's.\<close>

lemma reply_connects:
  assumes "client_ok lib u" "disp_inv s" "serviceState s \<noteq> CONNECTED" "serviceState t = CONNECTED"
    "handleReply u a error rr s = Inr t"
  shows "\<exists>r cmds. (a, VerifyConnectionReply) \<in> set (cbs s) \<and> rr = Some r \<and> \<not> ec_bool error \<and>
    parseCommandListReply (AsyncRedisReply r) = Inr cmds \<and> checkRedisModuleCommands cmds"
proof -
  obtain f r t' where t': "(a, f) \<in> set (cbs s)" "call_commandCb u f error r s = Inr t'"
    "\<not> ec_bool error \<longrightarrow> (\<exists>x. rr = Some x \<and> r = AsyncRedisReply x)"
    "t = (if usePermanentCommandCallbacks s then t' else removeCb a t')"
    using handleReply_parts [OF assms(1,2,5)] by (metis (lifting))
  have c: "serviceState t' = CONNECTED" using t'(4) assms(4) by (simp split: if_splits)
  show ?thesis
  proof (cases f)
    case (ClientCb g)
    then have "grows s t'" using client_grows(1) [OF assms(1), of g error r s] t'(2) by (simp add: call_commandCb_def)
    then show ?thesis using c assms(3) by (simp add: grows_def)
  next
    case VerifyConnectionReply
    then have "verifyConnectionReply u error r s = Inr t'" using t'(2) by (simp add: call_commandCb_def)
    from verifyConnectionReply_cases [OF assms(1,2) this] show ?thesis
      using t' c assms(3) VerifyConnectionReply by (auto split: if_splits)
  qed
qed

lemma posted_error_keeps_state:
  assumes "client_ok lib u" "disp_inv s" "callCommandCbWithError u f ec s = Inr t"
  shows "serviceState t = serviceState s"
proof (cases f)
  case VerifyConnectionReply
  then have "verifyConnectionReply u ec AsyncRedisReply_default s = Inr t"
    using assms(3) by (simp add: callCommandCbWithError_def call_commandCb_def)
  then show ?thesis using verifyConnectionReply_cases [OF assms(1,2)] posted_verification_is_error by metis
next
  case (ClientCb g)
  then show ?thesis using client_grows(1) [OF assms(1), of g ec AsyncRedisReply_default s] assms(3)
    by (auto simp: callCommandCbWithError_def call_commandCb_def grows_def)
qed

lemma timer_does_not_connect:
  assumes "client_ok lib u" "disp_inv s" "\<not> usedForSentinel s" "serviceState s \<noteq> CONNECTED"
    "retryTimer s = Some (d, action)" "retryTimerExpired lib u s = Inr t"
  shows "serviceState t \<noteq> CONNECTED"
proof -
  let ?s = "s\<lparr>retryTimer := None\<rparr>"
  have d: "disp_inv ?s" using assms(2) by (simp add: disp_inv_def)
  show ?thesis
  proof (cases action)
    case RetryConnect
    then have "connect lib u ?s = Inr t" using assms(5,6) by (simp add: retryTimerExpired_def)
    then consider "serviceState t = serviceState ?s" | s1 where "setDisconnected u s1 = Inr t" "cbs s1 = cbs ?s" "next_cb s1 = next_cb ?s"
      using connect_cases by blast
    then show ?thesis
    proof cases
      case 2
      then show ?thesis using setDisconnected_cases [OF assms(1), of s1] d by (auto simp: disp_inv_def)
    qed (use assms(4) in simp)
  next
    case RetryVerifyConnection
    then have "verifyConnection lib u ?s = Inr t" using assms(5,6) by (simp add: retryTimerExpired_def)
    then show ?thesis using verifyConnection_cases [OF assms(1) d] assms(3) by auto
  qed
qed

text \<open>C15: a dispatcher of the storage (not of a sentinel) becomes connected by one event only: the
  reply to its own verification query, and only if that reply lists every command of the Redis
  module. No connection result, disconnect, other reply, posted callback, timer or client call
  makes it connected.\<close>

theorem connected_only_after_verification:
  assumes "client_ok lib u" "disp_inv s" "\<not> usedForSentinel s" "serviceState s \<noteq> CONNECTED"
    "hd_step lib u ev (s, p, n) (t, p', n')" "serviceState t = CONNECTED"
  shows "\<exists>err en r a cmds. ev = ReplyEvent err en (Some r) a \<and> (a, VerifyConnectionReply) \<in> set (cbs s) \<and>
    \<not> ec_bool (getRedisError (have_vip lib) en err (Some r)) \<and>
    parseCommandListReply (AsyncRedisReply r) = Inr cmds \<and> checkRedisModuleCommands cmds"
  using assms(5)
proof cases
  case (reply rr err en a)
  then show ?thesis
    using reply_connects [OF assms(1,2,4,6), of a "getRedisError (have_vip lib) en err rr" rr] assms(4,6)
    by (auto simp: hiredis_cb_def split: if_splits)
next
  case client
  then show ?thesis using client_uses_grows assms(4,6) by (fastforce simp: grows_def)
next
  case (connect_result ok)
  then show ?thesis
    using verifyConnection_cases [OF assms(1,2)] setDisconnected_cases [OF assms(1,2)] assms(3,6)
    by (auto simp: connectCb_def split: if_splits)
next
  case disconnected
  then show ?thesis using setDisconnected_cases [OF assms(1,2)] assms(6) by (auto simp: disconnectCb_def)
next
  case (posted_error f ec rest)
  then show ?thesis using posted_error_keeps_state [OF assms(1,2)] assms(4,6) by simp
next
  case (posted_ack ack rest)
  then show ?thesis using client_grows(2) [OF assms(1), of ack s] assms(4,6) by (auto simp: grows_def)
next
  case (timer d action)
  then show ?thesis using timer_does_not_connect [OF assms(1-4)] assms(6) by blast
qed

definition sample_command_list :: redisReply where
  "sample_command_list = RedisReply REDIS_REPLY_ARRAY 0 None
     (map (\<lambda>c. RedisReply REDIS_REPLY_ARRAY 0 None [RedisReply REDIS_REPLY_STRING 0 (Some c) []])
       [''msetpub'', ''setie'', ''setiepub'', ''setnxpub'', ''delpub'', ''delie'', ''deliepub''])"

lemma sample_command_list_ok:
  "\<exists>cmds. parseCommandListReply (AsyncRedisReply sample_command_list) = Inr cmds \<and> checkRedisModuleCommands cmds"
proof -
  let ?r = "AsyncRedisReply sample_command_list"
  have "\<forall>j\<in>set (getArray ?r). getArray j \<noteq> []"
    by (simp add: sample_command_list_def getArray_def parseReply_def parseArray_def)
  then obtain cs where cs: "parseCommandListReply ?r = Inr cs"
    "set cs = (\<lambda>j. di_str (getString (hd (getArray j)))) ` set (getArray ?r)"
    using parseCommandListReply_set [of ?r] by blast
  have "set getRequiredRedisModuleCommands \<subseteq> set cs"
    unfolding cs(2) set_required
    by (simp add: sample_command_list_def getArray_def getString_def parseReply_def parseArray_def)
  then show ?thesis using cs(1) by (simp add: checkRedisModuleCommands_def Let_def missing_fold_empty)
qed

definition sample_verifying :: "(nat, nat, nat, unit) hd_state" where
  "sample_verifying = sample_hd_state\<lparr>cbs := [(3, VerifyConnectionReply)], serviceState := CONNECTION_VERIFICATION\<rparr>"

theorem connected_only_after_verification_witness:
  "\<exists>t. hd_step sample_hd_lib sample_hd_client (ReplyEvent (REDIS_ERR_VALUE 0) (Errno 0) (Some sample_command_list) 3)
       (sample_verifying, False, 0) (t, False, 0) \<and> serviceState t = CONNECTED \<and>
     (\<exists>cmds. parseCommandListReply (AsyncRedisReply sample_command_list) = Inr cmds \<and> checkRedisModuleCommands cmds)"
proof -
  have "\<exists>t. hiredis_cb sample_hd_lib sample_hd_client (REDIS_ERR_VALUE 0) (Errno 0) (Some sample_command_list) 3 sample_verifying = Inr t \<and>
     serviceState t = CONNECTED"
    using sample_command_list_ok
    by (auto simp: hiredis_cb_def isClientCallbacksEnabled_def sample_verifying_def sample_hd_state_def handleReply_def
        isValidCb_def call_commandCb_def verifyConnectionReply_def setConnected_def getRedisError_def
        sample_command_list_def [THEN arg_cong [where f = rr_type]])
  then obtain t where t: "hiredis_cb sample_hd_lib sample_hd_client (REDIS_ERR_VALUE 0) (Errno 0) (Some sample_command_list) 3 sample_verifying = Inr t"
    "serviceState t = CONNECTED" by blast
  have step: "hd_step sample_hd_lib sample_hd_client (ReplyEvent (REDIS_ERR_VALUE 0) (Errno 0) (Some sample_command_list) 3)
      (sample_verifying, False, 0) (t, False, 0)"
    by (rule hd_step.reply [OF _ t(1)]) (simp add: sample_verifying_def)
  have "disp_inv sample_verifying" "\<not> usedForSentinel sample_verifying" "serviceState sample_verifying \<noteq> CONNECTED"
    by (simp_all add: sample_verifying_def sample_hd_state_def disp_inv_def)
  from connected_only_after_verification [OF sample_hd_client_ok this step t(2)] step t(2) show ?thesis by auto
qed

end
