(* ===== verification/Connected_Storage.thy ===== *)
theory Connected_Storage
  imports Recorded_Dispatcher Command_Dispatcher
begin

text \<open>
  \<open>AsyncRedisStorage\<close> on top of \<open>AsyncHiredisCommandDispatcher\<close>: the storage gives its commands to a
  connected dispatcher, hiredis calls the dispatcher with the replies of the database in the order
  of the commands, and the dispatcher calls the storage, which may give it further commands.

  The queue of commands by which \<open>Storage_Semantics\<close> describes a dispatcher is shown to be what a
  connected dispatcher does, so the storage keeps its specification with the real one.
\<close>

section \<open>The composition\<close>

type_synonym 'u storage_dispatcher = "('u storageCb, 'u connectCb, unit) hiredisDispatcher"

text \<open>While the dispatcher calls the storage, the environment and the storage are the part of the
  state that the dispatcher does not know.\<close>

record ('u, 'x) hosting = "('u storageCb, 'u connectCb, unit) hiredisDispatcher" +
  host :: "'u env \<times> ('u, unit, 'x) redisStorage"

definition enter :: "'u storage_dispatcher \<Rightarrow> ('u, 'u storage_dispatcher, 'x) storage_state \<Rightarrow> ('u, 'x) hosting" where
  "enter d = (\<lambda>(e, s). hiredisDispatcher.extend d \<lparr>host = (e, without_dispatcher s)\<rparr>)"

definition leave :: "('u, 'x) hosting \<Rightarrow> ('u, 'u storage_dispatcher, 'x) storage_state" where
  "leave h = (fst (host h), (without_dispatcher (snd (host h)))\<lparr>rs_dispatcher := Some (hiredisDispatcher.truncate h)\<rparr>)"

text \<open>hiredis accepts every command; \<open>vip\<close> is the build with hiredis-vip. The dispatcher exists and no
  other is created.\<close>

definition working_hiredis :: "bool \<Rightarrow> 's hiredis" where
  "working_hiredis vip = \<lparr>async_connect = \<lambda>_ _ _. ConnectOk, command_argv = \<lambda>_ _ _. None, have_vip = vip\<rparr>"

definition storage_ops_on :: "bool \<Rightarrow> ('u, 'u storage_dispatcher) storage_disp" where
  "storage_ops_on vip = \<lparr>create_op = \<lambda>_ _ _. Inl Undefined,
     dispatch_op = \<lambda>cb n c d. dispatchAsync (working_hiredis vip) (ClientCb cb) n c d,
     wait_op = waitConnectedAsync, register_op = registerDisconnectCb, disable_op = disableCommandCallbacks\<rparr>"

fun reenter :: "('u, 'u storage_dispatcher, 'x) storage_state \<Rightarrow> ('u, 'x) hosting result" where
  "reenter (e, s) = (case rs_dispatcher s of None \<Rightarrow> Inl Undefined | Some d \<Rightarrow> Inr (enter d (e, s)))"

definition storage_client :: "bool \<Rightarrow> ('u storageCb, 'u connectCb, unit, ('u, 'x) hosting) client_code" where
  "storage_client vip = \<lparr>on_reply = \<lambda>cb ec r h. rbind (storage_reply (storage_ops_on vip) cb ec r (leave h)) reenter,
     on_connect = \<lambda>cb h. rbind (connected_callback cb (leave h)) reenter, on_disconnect = \<lambda>_ h. Inr h\<rparr>"

text \<open>The commands handed to hiredis, in order; the first \<open>n\<close> of them have been answered.\<close>

definition hi_commands :: "('cb, 'a) effect list \<Rightarrow> (nat \<times> string list) list" where
  "hi_commands es = concat (map (\<lambda>e. case e of HiCommand a args \<Rightarrow> [(a, args)] | _ \<Rightarrow> []) es)"

type_synonym ('u, 'x) connected_world = "(('u, 'u storage_dispatcher, 'x) storage_state \<times> nat) \<times> store"

definition reply1 :: "bool \<Rightarrow> redis \<Rightarrow> ('u, 'x) connected_world \<Rightarrow> ('u, 'x) connected_world result" where
  "reply1 vip redis = (\<lambda>(((e, s), n), db).
     case rs_dispatcher s of
       None \<Rightarrow> Inr (((e, s), n), db)
     | Some d \<Rightarrow>
         (case drop n (hi_commands (out d)) of
            [] \<Rightarrow> Inr (((e, s), n), db)
          | (a, args) # _ \<Rightarrow>
              (let (rr, db') = redis args db
               in rbind (hiredis_cb (working_hiredis vip) (storage_client vip) (REDIS_ERR_VALUE 0) (Errno 0) (Some rr) a (enter d (e, s)))
                    (\<lambda>h. Inr ((leave h, n + 1), db')))))"

definition connected_run1 :: "bool \<Rightarrow> redis \<Rightarrow> 'u request \<Rightarrow> ('u, 'x) connected_world \<Rightarrow> ('u, 'x) connected_world result" where
  "connected_run1 vip redis r = (\<lambda>((es, n), db).
     rbind (perform (storage_ops_on vip) r es) (\<lambda>es'. rbind (reply1 vip redis ((es', n), db)) (reply1 vip redis)))"

definition connected_run :: "bool \<Rightarrow> redis \<Rightarrow> 'u request list \<Rightarrow> ('u, 'x) connected_world \<Rightarrow> ('u, 'x) connected_world result" where
  "connected_run vip redis rs = for_each (connected_run1 vip redis) rs"

section \<open>The queue and the dispatcher\<close>

text \<open>An entry of the queue, with the address of its callback.\<close>

definition entry_ok :: "'u queued \<Rightarrow> nat \<times> 'u storageCb \<times> string list \<Rightarrow> bool" where
  "entry_ok x i \<longleftrightarrow> (\<exists>n c. x = Command (fst (snd i)) n c \<and> sized c \<and> stack c = snd (snd i))"

definition simulates ::
  "(nat \<times> 'u storageCb commandCb) list \<Rightarrow> nat \<Rightarrow> 'u cmds \<Rightarrow> ('u storageCb, 'u connectCb, unit, 'z) hd_state \<Rightarrow> bool" where
  "simulates pre n q d \<longleftrightarrow> serviceState d = CONNECTED \<and> disp_inv d \<and> clientCallbacksEnabled d \<and> \<not> usePermanentCommandCallbacks d \<and>
     n \<le> length (hi_commands (out d)) \<and>
     (\<exists>items. list_all2 entry_ok q items \<and> cbs d = pre @ map (\<lambda>(a, cb, _). (a, ClientCb cb)) items \<and>
        drop n (hi_commands (out d)) = map (\<lambda>(a, _, args). (a, args)) items)"

lemma hi_commands_append [simp]: "hi_commands (xs @ ys) = hi_commands xs @ hi_commands ys"
  by (simp add: hi_commands_def)

lemma hi_commands_single [simp]: "hi_commands [HiCommand a args] = [(a, args)]"
  by (simp add: hi_commands_def)

lemma simulates_dispatch:
  assumes "simulates pre n q d" "sized c"
  shows "\<exists>d'. dispatchAsync (working_hiredis vip) (ClientCb cb) ns c d = Inr d' \<and> simulates pre n (q @ [Command cb ns c]) d'"
proof -
  let ?d = "emit (HiCommand (next_cb d) (stack c)) (push_cb (ClientCb cb) d)" and ?i = "(next_cb d, cb, stack c)"
  have d: "serviceState d = CONNECTED" using assms(1) by (simp add: simulates_def)
  obtain items where items: "list_all2 entry_ok q items" "cbs d = pre @ map (\<lambda>(a, cb, _). (a, ClientCb cb)) items"
    "drop n (hi_commands (out d)) = map (\<lambda>(a, _, args). (a, args)) items" using assms(1) by (auto simp: simulates_def)
  have "list_all2 entry_ok (q @ [Command cb ns c]) (items @ [?i])"
    using items(1) assms(2) by (auto simp: entry_ok_def intro: list_all2_appendI)
  then have "simulates pre n (q @ [Command cb ns c]) ?d"
    unfolding simulates_def using assms(1) items(2,3)
    by (intro conjI exI [of _ "items @ [?i]"]) (simp_all add: simulates_def)
  then show ?thesis using dispatch_checked_cases [of True d c "working_hiredis vip" "ClientCb cb"] d assms(2)
    by (simp add: dispatchAsync_def working_hiredis_def)
qed

interpretation hiredis_recorded: recorded_dispatcher "storage_ops_on vip" "simulates pre n" for vip pre n
  by unfold_locales (auto simp: storage_ops_on_def intro: simulates_dispatch)

abbreviation same_connected ::
  "nat \<Rightarrow> ('u, 'u cmds, 'x) storage_state \<Rightarrow> ('u, 'u storage_dispatcher, 'x) storage_state \<Rightarrow> bool" where
  "same_connected n \<equiv> same_storage (simulates [] n)"

section \<open>Replies\<close>

lemma enter_parts [simp]:
  "cbs (enter d es) = cbs d" "clientCallbacksEnabled (enter d es) = clientCallbacksEnabled d"
  "usePermanentCommandCallbacks (enter d es) = usePermanentCommandCallbacks d"
  by (simp_all add: enter_def hiredisDispatcher.defs split: prod.split)

lemma leave_enter: "leave (enter d (e, s)) = (e, (without_dispatcher s)\<lparr>rs_dispatcher := Some d\<rparr>)"
  by (simp add: leave_def enter_def hiredisDispatcher.defs without_dispatcher_def)

lemma leave_removed: "leave (removeCb a (enter d (e, s))) = (e, (without_dispatcher s)\<lparr>rs_dispatcher := Some (removeCb a d)\<rparr>)"
  by (simp add: leave_def enter_def hiredisDispatcher.defs without_dispatcher_def removeCb_def)

lemma simulates_first:
  assumes "simulates [] n (Command cb ns c # q) d"
  obtains a rest where "drop n (hi_commands (out d)) = (a, stack c) # rest" "isValidCb a d" "map_of (cbs d) a = Some (ClientCb cb)" "sized c"
    "simulates [(a, ClientCb cb)] (n + 1) q d"
proof -
  obtain items where items: "list_all2 entry_ok (Command cb ns c # q) items" "cbs d = map (\<lambda>(a, cb, _). (a, ClientCb cb)) items"
    "drop n (hi_commands (out d)) = map (\<lambda>(a, _, args). (a, args)) items" using assms by (auto simp: simulates_def)
  then obtain a items' where i: "items = (a, cb, stack c) # items'" "sized c" "list_all2 entry_ok q items'"
    by (auto simp: list_all2_Cons1 entry_ok_def)
  have less: "n < length (hi_commands (out d))" using items(3) i(1) by (metis drop_eq_Nil leI list.discI list.map_disc_iff)
  have "drop (n + 1) (hi_commands (out d)) = tl (drop n (hi_commands (out d)))" by (simp add: drop_Suc flip: drop_tl)
  then have "drop (n + 1) (hi_commands (out d)) = map (\<lambda>(a, _, args). (a, args)) items'" using items(3) i(1) by simp
  moreover have "n + 1 \<le> length (hi_commands (out d))" using less by simp
  ultimately have "simulates [(a, ClientCb cb)] (n + 1) q d"
    unfolding simulates_def using assms i(1,3) items(2)
    by (intro conjI exI [of _ items']) (simp_all add: simulates_def)
  then show thesis using that [of a] items i by (simp add: isValidCb_def)
qed

lemma simulates_removed:
  assumes "simulates [(a, cb)] n q d"
  shows "simulates [] n q (removeCb a d)"
  using assms by (auto simp: simulates_def)

lemma reply1_same:
  assumes same: "same_connected n (e, s) (e', s')" and served: "serve1 redis ((e, s), db) = Inr ((e1, s1), db1)"
  shows "\<exists>x n'. reply1 vip redis (((e', s'), n), db) = Inr ((x, n'), db1) \<and> same_connected n' (e1, s1) x"
proof -
  obtain q d where q: "rs_dispatcher s = Some q" "rs_dispatcher s' = Some d" "simulates [] n q d"
    and e': "e' = e" and rest: "without_dispatcher s' = (without_dispatcher s :: ('a, unit, 'b) redisStorage)"
    using same by (auto simp: same_storage_def)
  show ?thesis
  proof (cases q)
    case Nil
    then have "drop n (hi_commands (out d)) = []" using q(3) by (auto simp: simulates_def)
    then show ?thesis using served same q Nil by (simp add: reply1_def serve1_def)
  next
    case (Cons item q')
    then obtain cb ns c where item: "item = Command cb ns c" using q(3) by (auto simp: simulates_def list_all2_Cons1 entry_ok_def)
    obtain a cmds where a: "drop n (hi_commands (out d)) = (a, stack c) # cmds" "isValidCb a d" "map_of (cbs d) a = Some (ClientCb cb)"
      "sized c" "simulates [(a, ClientCb cb)] (n + 1) q' d" using simulates_first q(3) unfolding Cons item by metis
    obtain rr db' where rr: "redis (stack c) db = (rr, db')" by fastforce
    let ?ec = "getRedisError False (Errno 0) (REDIS_ERR_VALUE 0) (Some rr)"
    let ?rep = "delivered_reply ?ec rr"
    have abs: "storage_reply recorder cb ?ec ?rep (e, s\<lparr>rs_dispatcher := Some q'\<rparr>) = Inr (e1, s1)" "db1 = db'"
      using served q(1) Cons item a(4) rr by (auto simp: serve1_def argv_sized rbind_Inr_iff Let_def)
    have "same_storage (simulates [(a, ClientCb cb)] (n + 1)) (e, s\<lparr>rs_dispatcher := Some q'\<rparr>) (leave (enter d (e, s')))"
      using a(5) rest by (simp add: same_storage_def leave_enter)
    then obtain s2 where s2: "storage_reply (storage_ops_on vip) cb ?ec ?rep (leave (enter d (e, s'))) = Inr (e1, s2)"
      "same_storage (simulates [(a, ClientCb cb)] (n + 1)) (e1, s1) (e1, s2)"
      using hiredis_recorded.reply_succeeds [OF _ abs(1)] by (metis prod.exhaust)
    obtain q1 d1 where d1: "rs_dispatcher s1 = Some q1" "rs_dispatcher s2 = Some d1" "simulates [(a, ClientCb cb)] (n + 1) q1 d1"
      "without_dispatcher s2 = (without_dispatcher s1 :: ('a, unit, 'b) redisStorage)"
      using s2(2) by (auto simp: same_storage_def)
    have client: "on_reply (storage_client vip) cb ?ec ?rep (enter d (e, s')) = Inr (enter d1 (e1, s2))"
      using s2(1) d1(2) by (simp add: storage_client_def)
    have "hiredis_cb (working_hiredis vip) (storage_client vip) (REDIS_ERR_VALUE 0) (Errno 0) (Some rr) a (enter d (e, s')) =
      Inr (removeCb a (enter d1 (e1, s2)))"
    proof -
      have flags: "clientCallbacksEnabled d" "\<not> usePermanentCommandCallbacks d1" using q(3) d1(3) by (simp_all add: simulates_def)
      have "getRedisError vip (Errno 0) (REDIS_ERR_VALUE 0) (Some rr) = ?ec" by (rule getRedisError_reply)
      then show ?thesis using flags a(2,3) client
        by (cases "ec_bool ?ec") (simp_all add: delivered_reply_def hiredis_cb_def isClientCallbacksEnabled_def handleReply_def isValidCb_def call_commandCb_def Let_def working_hiredis_def)
    qed
    then have "reply1 vip redis (((e', s'), n), db) = Inr ((leave (removeCb a (enter d1 (e1, s2))), n + 1), db1)"
      using q(2) a(1) rr abs(2) by (simp add: reply1_def e')
    moreover have "same_connected (n + 1) (e1, s1) (leave (removeCb a (enter d1 (e1, s2))))"
      using d1 simulates_removed [OF d1(3)] by (simp add: same_storage_def leave_removed)
    ultimately show ?thesis by blast
  qed
qed

lemma connected_run1_same:
  assumes "same_connected n (e, s) (e', s')" "run1 redis r ((e, s), db) = Inr ((e1, s1), db1)"
  shows "\<exists>x n'. connected_run1 vip redis r (((e', s'), n), db) = Inr ((x, n'), db1) \<and> same_connected n' (e1, s1) x"
proof -
  obtain e2 s2 e3 s3 db3 where steps: "perform recorder r (e, s) = Inr (e2, s2)" "serve1 redis ((e2, s2), db) = Inr ((e3, s3), db3)"
    "serve1 redis ((e3, s3), db3) = Inr ((e1, s1), db1)"
    using assms(2) by (auto simp: run1_def rbind_Inr_iff)
  obtain s2' where 2: "perform (storage_ops_on vip) r (e', s') = Inr (e2, s2')" "same_connected n (e2, s2) (e2, s2')"
    using hiredis_recorded.perform_succeeds [OF assms(1) steps(1)] .
  obtain e3' s3' n3 where 3: "reply1 vip redis (((e2, s2'), n), db) = Inr (((e3', s3'), n3), db3)" "same_connected n3 (e3, s3) (e3', s3')"
    using reply1_same [OF 2(2) steps(2)] by fast
  obtain x n' where "reply1 vip redis (((e3', s3'), n3), db3) = Inr ((x, n'), db1)" "same_connected n' (e1, s1) x"
    using reply1_same [OF 3(2) steps(3)] by fast
  then show ?thesis using 2(1) 3(1) by (simp add: connected_run1_def)
qed

text \<open>A dispatcher that is connected and has nothing to do.\<close>

definition connected_idle :: "('u storageCb, 'u connectCb, unit) hiredisDispatcher \<Rightarrow> bool" where
  "connected_idle d \<longleftrightarrow> serviceState d = CONNECTED \<and> clientCallbacksEnabled d \<and> \<not> usePermanentCommandCallbacks d \<and> cbs d = []"

lemma idle_simulates: "connected_idle d \<longleftrightarrow> simulates [] (length (hi_commands (out d))) [] d"
  by (auto simp: connected_idle_def simulates_def disp_inv_def)

text \<open>The storage with the dispatcher. Any sequence of valid operations of \<open>AsyncRedisStorage\<close> with
  a connected \<open>AsyncHiredisCommandDispatcher\<close>, hiredis delivering the replies of the database in the
  order of the commands, calls exactly the acknowledgements of the specification, in order, and
  leaves in every namespace the data the specification says; afterwards the dispatcher is
  connected, and keeps no callback.\<close>

theorem connected_storage_refines_spec:
  assumes "glob_ok glob" "redis_ok glob redis" "nc_inv (ns_confs e)" "finite (dom db)" "\<forall>r\<in>set rs. request_ok r"
    "rs_dispatcher s = Some d" "connected_idle d" "n = length (hi_commands (out d))"
  shows "\<exists>e' s' d' db'. connected_run vip redis rs (((e, s), n), db) = Inr (((e', s'), length (hi_commands (out d'))), db') \<and>
    rs_dispatcher s' = Some d' \<and> connected_idle d' \<and> posted e' = posted e \<and>
    called e' = called e @ fst (spec glob rs (sdl_view db)) \<and> sdl_view db' = snd (spec glob rs (sdl_view db))"
proof -
  have run: "\<exists>e1 s1 db1 x n'. connected_run vip redis rs (((e', s'), n), db) = Inr ((x, n'), db1) \<and> same_connected n' (e1, s1) x \<and>
      world_ok ((e1, s1), db1) \<and> posted e1 = posted e \<and> called e1 = called e @ fst (spec glob rs (sdl_view db)) \<and>
      sdl_view db1 = snd (spec glob rs (sdl_view db))"
    if "same_connected n (e, s) (e', s')" "world_ok ((e, s), db)" "\<forall>r\<in>set rs. request_ok r" for e s e' s' n db rs
    using that
  proof (induction rs arbitrary: e s e' s' n db)
    case (Cons r rs)
    obtain e1 s1 db1 where 1: "run1 redis r ((e, s), db) = Inr ((e1, s1), db1)" "world_ok ((e1, s1), db1)"
      "posted e1 = posted e" "called e1 = called e @ [fst (spec1 glob r (sdl_view db))]"
      "sdl_view db1 = snd (spec1 glob r (sdl_view db))"
      using request_refines [OF assms(1,2) Cons.prems(2), of r] Cons.prems(3) unfolding refines1_def by auto
    obtain e1' s1' n1 where 2: "connected_run1 vip redis r (((e', s'), n), db) = Inr (((e1', s1'), n1), db1)"
      "same_connected n1 (e1, s1) (e1', s1')" using connected_run1_same [OF Cons.prems(1) 1(1)] by fast
    from Cons.IH [OF 2(2) 1(2)] Cons.prems(3) 1 2(1) show ?case by (simp add: connected_run_def split_beta Let_def)
  next
    case Nil
    then show ?case by (auto simp: connected_run_def)
  qed
  let ?s = "(without_dispatcher s)\<lparr>rs_dispatcher := Some []\<rparr>"
  have "same_connected n (e, ?s) (e, s)" using assms(6-8) by (simp add: same_storage_def idle_simulates)
  moreover have "world_ok ((e, ?s), db)" using assms(3,4) by (simp add: world_ok_def)
  ultimately obtain e1 s1 db1 e' s' n' where end_state: "connected_run vip redis rs (((e, s), n), db) = Inr (((e', s'), n'), db1)"
    "same_connected n' (e1, s1) (e', s')" "world_ok ((e1, s1), db1)" "posted e1 = posted e"
    "called e1 = called e @ fst (spec glob rs (sdl_view db))" "sdl_view db1 = snd (spec glob rs (sdl_view db))"
    using run [of n e ?s e s db rs] assms(5) by fast
  obtain d' where d': "e' = e1" "rs_dispatcher s' = Some d'" "simulates [] n' [] d'"
    using end_state(2,3) by (auto simp: same_storage_def world_ok_def)
  then have "n' = length (hi_commands (out d'))" by (auto simp: simulates_def)
  with end_state d' show ?thesis by (auto simp: idle_simulates)
qed

text \<open>How such a dispatcher comes about: it is created, hiredis connects, and the database answers
  the verification query.\<close>

lemma verification_sent:
  "dispatch_checked (working_hiredis vip) cb (build1 ''COMMAND'') False s = Inr (emit (HiCommand (next_cb s) [''COMMAND'']) (push_cb cb s))"
  by (subst dispatch_checked_cases) (simp_all add: working_hiredis_def stack_build)

lemma verified_dispatcher_idle:
  assumes "AsyncHiredisCommandDispatcher (working_hiredis vip) u addr net_port False False = Inr d0"
    "connectCb (working_hiredis vip) u True d0 = Inr d1" "rr_type r \<noteq> REDIS_REPLY_ERROR"
    "parseCommandListReply (AsyncRedisReply r) = Inr cmds" "checkRedisModuleCommands cmds"
  shows "\<exists>d. hiredis_cb (working_hiredis vip) u (REDIS_ERR_VALUE 0) (Errno 0) (Some r) 0 d1 = Inr d \<and> connected_idle d"
proof -
  have d1: "cbs d1 = [(0, VerifyConnectionReply)]" "clientCallbacksEnabled d1" "\<not> usePermanentCommandCallbacks d1" "connectAck d1 = None"
    using assms(1,2)
    by (auto simp: AsyncHiredisCommandDispatcher_def connect_def working_hiredis_def [THEN arg_cong [where f = async_connect]] connectCb_def
        verifyConnection_def verification_sent Let_def emit_def push_cb_def disarm_retry_def)
  then show ?thesis using assms(3-5)
    by (simp add: hiredis_cb_def isClientCallbacksEnabled_def handleReply_def isValidCb_def getRedisError_def call_commandCb_def
        verifyConnectionReply_def setConnected_def connected_idle_def removeCb_def no_error_def ec_bool_def)
qed

definition sample_connected :: "nat storage_dispatcher" where
  "sample_connected = \<lparr>cbs = [], next_cb = 1, connectAck = None, disconnectCallback = None, clientCallbacksEnabled = True,
     usePermanentCommandCallbacks = False, retryTimer = None, out = [HiAttach, HiCommand 0 [''COMMAND'']], address = ''db'', ip_port = 6379,
     serviceState = CONNECTED, ac = ConnectOk, usedForSentinel = False\<rparr>"

lemma sample_connected_idle: "connected_idle sample_connected" "1 = length (hi_commands (out sample_connected))"
  by (simp_all add: connected_idle_def sample_connected_def hi_commands_def)

theorem connected_storage_refines_spec_witness:
  "\<exists>e' s' n' db'. connected_run False sample_redis
       [Set ''abc'' [(''k'', [1, 2])] 0, SetIf ''abc'' ''k'' [3] [4] 1, Get ''abc'' [''j'', ''k''] 2, RemoveAll ''abc'' 3, FindKeys ''abc'' ''k'' 4]
       (((sample_env, \<lparr>rs_dispatcher = Some sample_connected, rs_discovery = (None :: unit option), publisherId = None, readyAck = None,
          dbInfo = None\<rparr>), 1), Map.empty) = Inr (((e', s'), n'), db') \<and>
     called e' = [CallModify 0 no_error, CallModifyIf 1 no_error False, CallGet 2 no_error [(''k'', [1, 2])],
       CallModify 3 no_error, CallFindKeys 4 no_error []]"
proof -
  let ?rs = "[Set ''abc'' [(''k'', [1, 2])] 0, SetIf ''abc'' ''k'' [3] [4] 1, Get ''abc'' [''j'', ''k''] 2, RemoveAll ''abc'' 3, FindKeys ''abc'' ''k'' (4::nat)]"
  let ?s = "\<lparr>rs_dispatcher = Some sample_connected, rs_discovery = (None :: unit option), publisherId = None, readyAck = None, dbInfo = None\<rparr>"
  have rs: "\<forall>r\<in>set ?rs. request_ok r" by (simp add: isValidNamespace_iff plain_def redisSearchPatternCharacters_def)
  have "rs_dispatcher ?s = Some sample_connected" by simp
  from connected_storage_refines_spec [OF sample_glob_ok sample_redis_ok sample_env_inv _ rs this sample_connected_idle, of Map.empty False]
  show ?thesis by (auto simp: sample_env_def sdl_view_def)
qed

end
