(* ===== verification/Pipelining.thy ===== *)
theory Pipelining
  imports Connected_Storage Event_Queue
begin

text \<open>
  Clients that do not wait, of a storage that is connected to one server: the events of
  \<open>Event_Queue\<close> with \<open>AsyncHiredisCommandDispatcher\<close>. hiredis delivers the replies in the order of the
  commands, so the answer is always that of the oldest command.
\<close>

section \<open>Runs\<close>

fun in_order :: "'u event \<Rightarrow> bool" where
  "in_order (Answer i) = (i = 0)"
| "in_order _ = True"

fun connected_pipelined1 :: "bool \<Rightarrow> redis \<Rightarrow> 'u event \<Rightarrow> ('u, 'x) connected_world \<Rightarrow> ('u, 'x) connected_world result" where
  "connected_pipelined1 vip redis (Issue r) ((es, n), db) = rbind (perform (storage_ops_on vip) r es) (\<lambda>es'. Inr ((es', n), db))"
| "connected_pipelined1 vip redis (Answer i) ((es, n), db) = reply1 vip redis ((es, n), db)"
| "connected_pipelined1 vip redis (Others db') ((es, n), db) = Inr ((es, n), db')"

definition connected_pipelined :: "bool \<Rightarrow> redis \<Rightarrow> 'u event list \<Rightarrow> ('u, 'x) connected_world \<Rightarrow> ('u, 'x) connected_world result" where
  "connected_pipelined vip redis evs = for_each (connected_pipelined1 vip redis) evs"

section \<open>The dispatcher\<close>

lemma connected_pipelined1_same:
  assumes "same_connected n (e, s) (e', s')" "pipelined1 (\<lambda>_. redis) ev ((e, s), db) = Inr ((e1, s1), db1)" "in_order ev"
  shows "\<exists>x n'. connected_pipelined1 vip redis ev (((e', s'), n), db) = Inr ((x, n'), db1) \<and> same_connected n' (e1, s1) x"
proof (cases ev)
  case (Issue r)
  then have "perform recorder r (e, s) = Inr (e1, s1)" and db1: "db1 = db" using assms(2) by (auto simp: rbind_Inr_iff)
  then obtain s2 where "perform (storage_ops_on vip) r (e', s') = Inr (e1, s2)" "same_connected n (e1, s1) (e1, s2)"
    using hiredis_recorded.perform_succeeds [OF assms(1)] by blast
  then show ?thesis by (simp add: Issue db1)
next
  case (Answer i)
  obtain q where q: "rs_dispatcher s = Some q" using assms(1) by (auto simp: same_storage_def)
  have "serve1 redis ((e, s), db) = Inr ((e1, s1), db1)"
  proof (cases q)
    case Nil
    then show ?thesis using assms(2,3) q by (simp add: Answer serve_at_def serve1_idle)
  next
    case (Cons x q')
    then show ?thesis using assms(2,3) serve_at_first [of s x q' redis e db] q by (simp add: Answer)
  qed
  then show ?thesis using reply1_same [OF assms(1)] by (simp add: Answer)
qed (use assms in auto)

interpretation hiredis_pipelined: pipelined_dispatcher "\<lambda>_. redis" "connected_pipelined1 vip redis" same_connected in_order for vip redis
proof unfold_locales
  show "\<exists>x' k'. connected_pipelined1 vip redis ev ((x, k), db) = Inr ((x', k'), db1) \<and> same_connected k' (e1, s1) x'"
    if "same_connected k (e, s) x" "pipelined1 (\<lambda>_. redis) ev ((e, s), db) = Inr ((e1, s1), db1)" "in_order ev"
    for k e s x ev db e1 s1 db1
    using connected_pipelined1_same [of k e s "fst x" "snd x"] that by simp
qed

text \<open>How many commands of a connected dispatcher wait for an answer.\<close>

definition unanswered :: "nat \<Rightarrow> ('u storageCb, 'u connectCb, unit) hiredisDispatcher \<Rightarrow> nat" where
  "unanswered n d = length (hi_commands (out d)) - n"

lemma unanswered_pipe:
  assumes "same_connected n (e, s) (e', s')" "pipe_ok glob (\<lambda>_. redis) rs ((e, s), db)"
  obtains d where "rs_dispatcher s' = Some d" "serviceState d = CONNECTED" "unanswered n d = length rs" "length (cbs d) = length rs"
proof -
  obtain q d where d: "rs_dispatcher s = Some q" "rs_dispatcher s' = Some d" "simulates [] n q d"
    using assms(1) by (auto simp: same_storage_def)
  obtain items where items: "list_all2 entry_ok q items" "cbs d = map (\<lambda>(a, cb, _). (a, ClientCb cb)) items"
    "drop n (hi_commands (out d)) = map (\<lambda>(a, _, args). (a, args)) items" using d(3) by (auto simp: simulates_def)
  have "length q = length rs" using assms(2) d(1) by (auto simp: pipe_ok_def dest: list_all2_lengthD)
  moreover have "length items = length q" using items(1) by (simp add: list_all2_lengthD)
  moreover have "unanswered n d = length items" using arg_cong [OF items(3), of length] by (simp add: unanswered_def)
  ultimately show thesis using that d(2,3) items(2) by (simp add: simulates_def)
qed

lemma idle_start:
  assumes "nc_inv (ns_confs e)" "finite (dom db)" "rs_dispatcher s = Some d" "connected_idle d" "n = length (hi_commands (out d))"
  shows "same_connected n (e, (without_dispatcher s)\<lparr>rs_dispatcher := Some []\<rparr>) (e, s)"
    "pipe_ok glob (\<lambda>_. redis) [] ((e, (without_dispatcher s)\<lparr>rs_dispatcher := Some []\<rparr>), db)"
  using assms by (simp_all add: same_storage_def idle_simulates pipe_ok_def)

text \<open>C6: clients need not wait, and need not be alone. Whatever operations are started before earlier
  ones are acknowledged, and whatever other clients do to the database in between, every operation
  of \<open>AsyncRedisStorage\<close> with a connected \<open>AsyncHiredisCommandDispatcher\<close> takes effect at one moment
  between its start and its acknowledgement, on the data of that moment, and is acknowledged with
  what it did; the operations take effect and are acknowledged in the order they were started.
  Only \<open>removeAllAsync\<close> takes two turns: it removes the keys it found in the first. The commands that
  wait for an answer are exactly those of the operations not yet acknowledged.\<close>

theorem pipelined_operations_linearizable:
  assumes "glob_ok glob" "redis_ok glob redis" "nc_inv (ns_confs e)" "finite (dom db)" "\<forall>ev\<in>set evs. event_ok ev \<and> in_order ev"
    "rs_dispatcher s = Some d" "connected_idle d" "n = length (hi_commands (out d))"
    "pipe_spec glob evs ([], sdl_view db, []) = (pending, A, acks)"
  shows "\<exists>e' s' n' db' d'. connected_pipelined vip redis evs (((e, s), n), db) = Inr (((e', s'), n'), db') \<and>
    posted e' = posted e \<and> called e' = called e @ acks \<and> sdl_view db' = A \<and>
    rs_dispatcher s' = Some d' \<and> serviceState d' = CONNECTED \<and> unanswered n' d' = length pending \<and> length (cbs d') = length pending"
proof -
  obtain e1 s1 e' s' n' db1 rs1 cs where run: "connected_pipelined vip redis evs (((e, s), n), db) = Inr (((e', s'), n'), db1)"
    "same_connected n' (e1, s1) (e', s')" "pipe_ok glob (\<lambda>_. redis) rs1 ((e1, s1), db1)" "posted e1 = posted e" "called e1 = called e @ cs"
    "pipe_spec glob evs ([], sdl_view db, []) = (rs1, sdl_view db1, [] @ cs)"
    using hiredis_pipelined.runs [OF assms(1) redis_ok_serves_all [OF assms(2)] idle_start [OF assms(3,4,6-8)] assms(5), of vip] by (fastforce simp: connected_pipelined_def)
  moreover have "e' = e1" using same_storageD(1) [OF run(2)] .
  moreover obtain d' where "rs_dispatcher s' = Some d'" "serviceState d' = CONNECTED" "unanswered n' d' = length rs1" "length (cbs d') = length rs1"
    using unanswered_pipe [OF run(2,3)] .
  ultimately show ?thesis using assms(9) by auto
qed

text \<open>A run in which \<open>removeAllAsync\<close> is overtaken by an operation that was started after it.\<close>

abbreviation sample_events :: "nat event list" where
  "sample_events \<equiv> [Issue (Set ''abc'' [(''k'', [1])] 0), Issue (SetIfNotExists ''abc'' ''k'' [2] 1), Answer 0, Answer 0,
     Issue (RemoveAll ''abc'' 2), Issue (Set ''abc'' [(''j'', [3])] 3), Answer 0, Answer 0, Issue (FindKeys ''abc'' [] 4), Answer 0, Answer 0]"

abbreviation sample_acks :: "nat ack_call list" where
  "sample_acks \<equiv> [CallModify 0 no_error, CallModifyIf 1 no_error False, CallModify 3 no_error, CallModify 2 no_error,
     CallFindKeys 4 no_error [''j'']]"

lemma sample_events_ok: "\<forall>ev\<in>set sample_events. event_ok ev \<and> in_order ev"
  by (simp add: isValidNamespace_iff plain_def redisSearchPatternCharacters_def)

lemma sample_run: "\<exists>A. pipe_spec sample_glob sample_events ([], sdl_view Map.empty, []) = ([], A, sample_acks)"
proof -
  have "sdl_view Map.empty = (\<lambda>_. Map.empty)" by (simp add: sdl_view_def fun_eq_iff)
  then show ?thesis by (simp add: pipe_spec_def)
qed

theorem pipelined_operations_linearizable_witness:
  "\<exists>e' s' n' db'. connected_pipelined False sample_redis sample_events
       (((sample_env, \<lparr>rs_dispatcher = Some sample_connected, rs_discovery = (None :: unit option), publisherId = None, readyAck = None,
          dbInfo = None\<rparr>), 1), Map.empty) = Inr (((e', s'), n'), db') \<and> called e' = sample_acks"
proof -
  let ?s = "\<lparr>rs_dispatcher = Some sample_connected, rs_discovery = (None :: unit option), publisherId = None, readyAck = None, dbInfo = None\<rparr>"
  obtain A where A: "pipe_spec sample_glob sample_events ([], sdl_view Map.empty, []) = ([], A, sample_acks)"
    using sample_run by blast
  have "rs_dispatcher ?s = Some sample_connected" by simp
  from pipelined_operations_linearizable [OF sample_glob_ok sample_redis_ok sample_env_inv _ sample_events_ok this sample_connected_idle A, of False]
  show ?thesis by (auto simp: sample_env_def)
qed

end
