(* ===== verification/Dispatchers.thy ===== *)
theory Dispatchers
  imports Command_Dispatcher Cluster_Dispatcher
begin

text \<open>
  \<open>AsyncCommandDispatcher::create\<close> (\<open>src/redis/asynccommanddispatcher.cpp\<close>) and the virtual calls of
  the interface class: a dispatcher is one of the two classes, and every operation of the
  interface is the operation of its class. Which classes exist depends on the build.
\<close>

datatype build = HaveHiredisVip | HaveHiredis | HaveNone

datatype ('cb, 'a, 'd) commandDispatcher =
    HiredisDispatcher "('cb, 'a, 'd) hiredisDispatcher"
  | HiredisClusterDispatcher "('cb, 'a, 'd) clusterDispatcher"

record ('cb, 'a, 'd) disp_libs =
  hi_lib :: "('cb, 'a, 'd, unit) hd_lib"
  hi_client :: "('cb, 'a, 'd, unit) hd_client"
  cl_lib :: "('cb, 'a, 'd, unit) cd_lib"

text \<open>With hiredis-vip the branch for a single instance names a constructor that the class does
  not have; that branch has no meaning.\<close>

definition create ::
  "build \<Rightarrow> ('cb, 'a, 'd) disp_libs \<Rightarrow> databaseInfo \<Rightarrow> bool \<Rightarrow> bool \<Rightarrow> ('cb, 'a, 'd) commandDispatcher result" where
  "create b libs info permanent sentinel =
     (case b of
        HaveHiredisVip \<Rightarrow>
          if db_info_type info = CLUSTER
          then rbind (AsyncHiredisClusterCommandDispatcher (cl_lib libs) (db_ns info) (hosts info) permanent)
                 (\<lambda>d. Inr (HiredisClusterDispatcher d))
          else Inl Undefined
      | HaveHiredis \<Rightarrow>
          if db_info_type info = CLUSTER then Inl (Abort ''Not implemented.'')
          else rbind (vec_at (hosts info) 0) (\<lambda>a.
               rbind (AsyncHiredisCommandDispatcher (hi_lib libs) (hi_client libs) (getHost a) (getPort a) permanent sentinel)
                 (\<lambda>d. Inr (HiredisDispatcher d)))
      | HaveNone \<Rightarrow> Inl (Abort ''Not implemented.''))"

fun dispatchAsync ::
  "('cb, 'a, 'd) disp_libs \<Rightarrow> 'cb \<Rightarrow> namespace \<Rightarrow> contents \<Rightarrow> ('cb, 'a, 'd) commandDispatcher \<Rightarrow>
   ('cb, 'a, 'd) commandDispatcher result" where
  "dispatchAsync libs cb n c (HiredisDispatcher d) =
     rbind (Command_Dispatcher.dispatchAsync (hi_lib libs) (ClientCb cb) n c d) (\<lambda>d'. Inr (HiredisDispatcher d'))"
| "dispatchAsync libs cb n c (HiredisClusterDispatcher d) =
     rbind (Cluster_Dispatcher.dispatchAsync (cl_lib libs) (ClientCb cb) n c d) (\<lambda>d'. Inr (HiredisClusterDispatcher d'))"

fun waitConnectedAsync :: "'a \<Rightarrow> ('cb, 'a, 'd) commandDispatcher \<Rightarrow> ('cb, 'a, 'd) commandDispatcher" where
  "waitConnectedAsync ack (HiredisDispatcher d) = HiredisDispatcher (Command_Dispatcher.waitConnectedAsync ack d)"
| "waitConnectedAsync ack (HiredisClusterDispatcher d) = HiredisClusterDispatcher (Cluster_Dispatcher.waitConnectedAsync ack d)"

fun registerDisconnectCb :: "'d \<Rightarrow> ('cb, 'a, 'd) commandDispatcher \<Rightarrow> ('cb, 'a, 'd) commandDispatcher" where
  "registerDisconnectCb cb (HiredisDispatcher d) = HiredisDispatcher (Command_Dispatcher.registerDisconnectCb cb d)"
| "registerDisconnectCb cb (HiredisClusterDispatcher d) = HiredisClusterDispatcher (Cluster_Dispatcher.registerDisconnectCb cb d)"

fun disableCommandCallbacks :: "('cb, 'a, 'd) commandDispatcher \<Rightarrow> ('cb, 'a, 'd) commandDispatcher" where
  "disableCommandCallbacks (HiredisDispatcher d) = HiredisDispatcher (Command_Dispatcher.disableCommandCallbacks d)"
| "disableCommandCallbacks (HiredisClusterDispatcher d) = HiredisClusterDispatcher (Cluster_Dispatcher.disableCommandCallbacks d)"

definition dispatcher_ops ::
  "build \<Rightarrow> ('cb, 'a, 'd) disp_libs \<Rightarrow> ('cb, 'a, 'd, ('cb, 'a, 'd) commandDispatcher) disp_ops" where
  "dispatcher_ops b libs = \<lparr>create_op = create b libs, dispatch_op = dispatchAsync libs, wait_op = waitConnectedAsync,
     register_op = registerDisconnectCb, disable_op = disableCommandCallbacks\<rparr>"

section \<open>What both classes promise\<close>

fun connected :: "('cb, 'a, 'd) commandDispatcher \<Rightarrow> bool" where
  "connected (HiredisDispatcher d) = (Command_Dispatcher.serviceState d = Command_Dispatcher.CONNECTED)"
| "connected (HiredisClusterDispatcher d) = (Cluster_Dispatcher.serviceState d = Cluster_Dispatcher.CONNECTED)"

fun effects :: "('cb, 'a, 'd) commandDispatcher \<Rightarrow> ('cb, 'a) effect list" where
  "effects (HiredisDispatcher d) = out d"
| "effects (HiredisClusterDispatcher d) = out d"

lemma for_each_lift:
  assumes "\<And>x s. f x (C s) = rbind (g x s) (\<lambda>t. Inr (C t))"
  shows "for_each f xs (C s) = rbind (for_each g xs s) (\<lambda>t. Inr (C t))"
proof (induction xs arbitrary: s)
  case (Cons x xs)
  then show ?case using assms by (cases "g x s") simp_all
qed simp

text \<open>C31: commands fail fast. Whatever commands are given to a dispatcher of either class while it
  is not connected, none of them is handed to the client library: each callback is posted once,
  in order, with \<open>NOT_CONNECTED\<close>, which clients see as \<open>Error::NOT_CONNECTED\<close>.\<close>

theorem disconnected_commands_fail_fast:
  assumes "\<not> connected d"
  shows "\<exists>d'. for_each (\<lambda>(cb, n, c). dispatchAsync libs cb n c) cmds d = Inr d' \<and> \<not> connected d' \<and>
    effects d' = effects d @ map (\<lambda>(cb, n, c). Post (PostCommandError (ClientCb cb) (make_error_code_dispatcher DEC_NOT_CONNECTED))) cmds \<and>
    ec_eq_error (make_error_code_dispatcher DEC_NOT_CONNECTED) Error_NOT_CONNECTED"
proof -
  let ?cmds = "map (\<lambda>(cb, n, c). (ClientCb cb, n, c)) cmds"
  have ec: "ec_eq_error (make_error_code_dispatcher DEC_NOT_CONNECTED) Error_NOT_CONNECTED"
    by (simp add: ec_eq_error_dispatcher dispatcher_internal_code)
  show ?thesis
  proof (cases d)
    case (HiredisDispatcher h)
    have "for_each (\<lambda>(cb, n, c). dispatchAsync libs cb n c) cmds (HiredisDispatcher h) =
      rbind (for_each (\<lambda>(cb, n, c). Command_Dispatcher.dispatchAsync (hi_lib libs) cb n c) ?cmds h) (\<lambda>t. Inr (HiredisDispatcher t))"
      unfolding for_each_map by (rule for_each_lift) (auto split: prod.split)
    then show ?thesis
      using hiredis_dispatcher.nothing_sent_while_disconnected [of h "hi_lib libs" ?cmds] assms ec
      by (auto simp: HiredisDispatcher o_def split_beta)
  next
    case (HiredisClusterDispatcher h)
    have "for_each (\<lambda>(cb, n, c). dispatchAsync libs cb n c) cmds (HiredisClusterDispatcher h) =
      rbind (for_each (\<lambda>(cb, n, c). Cluster_Dispatcher.dispatchAsync (cl_lib libs) cb n c) ?cmds h) (\<lambda>t. Inr (HiredisClusterDispatcher t))"
      unfolding for_each_map by (rule for_each_lift) (auto split: prod.split)
    then show ?thesis
      using cluster_dispatcher.nothing_sent_while_disconnected [of h "cl_lib libs" ?cmds] assms ec
      by (auto simp: HiredisClusterDispatcher o_def split_beta)
  qed
qed

definition sample_libs :: "(nat, nat, nat) disp_libs" where
  "sample_libs = \<lparr>hi_lib = sample_hd_lib, hi_client = sample_hd_client, cl_lib = sample_cd_lib\<rparr>"

theorem disconnected_commands_fail_fast_witness:
  "\<exists>d'. for_each (\<lambda>(cb, n, c). dispatchAsync sample_libs cb n c) [(3, ''ab'', build1 ''PING''), (4, ''ab'', build1 ''PING'')]
      (HiredisClusterDispatcher sample_cd_state) = Inr d' \<and>
     effects d' = [Post (PostCommandError (ClientCb 3) (make_error_code_dispatcher DEC_NOT_CONNECTED)),
       Post (PostCommandError (ClientCb 4) (make_error_code_dispatcher DEC_NOT_CONNECTED))]"
  using disconnected_commands_fail_fast [of "HiredisClusterDispatcher sample_cd_state"
      sample_libs "[(3, ''ab'', build1 ''PING''), (4, ''ab'', build1 ''PING'')]"]
  by (auto simp: sample_cd_state_def)

text \<open>A dispatcher that was just created is not connected: its connection is established and
  verified later.\<close>

lemma connect_not_connected:
  assumes "Command_Dispatcher.connect lib u s = Inr t" "hiredisDispatcher.serviceState s = serviceState.DISCONNECTED"
    "disconnectCallback s = None"
  shows "hiredisDispatcher.serviceState t = serviceState.DISCONNECTED"
  using assms
  by (auto simp: Command_Dispatcher.connect_def Let_def setDisconnected_def Command_Dispatcher.armConnectionRetryTimer_def
      arm_retry_def split: if_splits)

lemma cluster_connect_not_connected:
  assumes "Cluster_Dispatcher.connect lib s = Inr t"
  shows "clusterDispatcher.serviceState t = clusterServiceState.DISCONNECTED"
  using assms
  by (auto simp: Cluster_Dispatcher.connect_def Let_def disconnectHiredisCluster_def Cluster_Dispatcher.armConnectionRetryTimer_def
      arm_retry_def Cluster_Dispatcher.verifyConnection_def Cluster_Dispatcher.dispatch_checked_def rbind_Inr_iff
      Cluster_Dispatcher.removeCb_def push_cb_def emit_def split: if_splits option.splits)

lemma created_not_connected: "create b libs info permanent sentinel = Inr d \<Longrightarrow> \<not> connected d"
  by (auto simp: create_def rbind_Inr_iff AsyncHiredisCommandDispatcher_def AsyncHiredisClusterCommandDispatcher_def
      split: build.splits if_splits dest!: connect_not_connected cluster_connect_not_connected)

end
