(* ===== verification/Failover.thy ===== *)
theory Failover
  imports Pipelining Dispatchers
begin

text \<open>
  The database of a connected storage is replaced: the discovery reports another address, and
  \<open>serviceStateChanged\<close> puts a new dispatcher in place of the connected one. The old dispatcher is
  destroyed by the assignment; its destructor frees the context of hiredis.

  \<open>redisAsyncFree\<close> of hiredis calls the callbacks of all commands that wait for a reply, in order,
  with a null reply, and then the disconnect callback. The callbacks belong to the storage, which
  already has the new dispatcher. They use neither \<open>readyAck\<close> nor \<open>dbInfo\<close>, the only members that
  \<open>serviceStateChanged\<close> reads or writes after the assignment, so the old dispatcher is destroyed after
  it here.
\<close>

section \<open>A dispatcher that is destroyed\<close>

record ('u, 'x) retired = "('u storageCb, 'u connectCb, unit) hiredisDispatcher" +
  owner :: "('u, 'u storage_dispatcher, 'x) storage_state"

definition retire :: "'u storage_dispatcher \<Rightarrow> ('u, 'u storage_dispatcher, 'x) storage_state \<Rightarrow> ('u, 'x) retired" where
  "retire d es = hiredisDispatcher.extend d \<lparr>owner = es\<rparr>"

definition retired_client :: "bool \<Rightarrow> ('u storageCb, 'u connectCb, unit, ('u, 'x) retired) client_code" where
  "retired_client vip = \<lparr>on_reply = \<lambda>cb ec r h. rbind (storage_reply (storage_ops_on vip) cb ec r (owner h)) (\<lambda>es. Inr (h\<lparr>owner := es\<rparr>)),
     on_connect = \<lambda>cb h. rbind (connected_callback cb (owner h)) (\<lambda>es. Inr (h\<lparr>owner := es\<rparr>)), on_disconnect = \<lambda>_ h. Inr h\<rparr>"

text \<open>Whether the destructor frees the context.\<close>

definition frees_context :: "('cb, 'a, 'd) hiredisDispatcher \<Rightarrow> bool" where
  "frees_context d \<longleftrightarrow> HiFree \<in> set (drop (length (out d)) (out (AsyncHiredisCommandDispatcher_destroy d)))"

text \<open>\<open>err\<close> and \<open>en\<close> are the error of the context and \<open>errno\<close> while it is freed.\<close>

definition destroyed ::
  "bool \<Rightarrow> redis_context_err \<Rightarrow> errno \<Rightarrow> nat \<Rightarrow> 'u storage_dispatcher \<Rightarrow> ('u, 'u storage_dispatcher, 'x) storage_state \<Rightarrow>
   ('u, 'u storage_dispatcher, 'x) storage_state result" where
  "destroyed vip err en n d es =
     (if frees_context d
      then rbind (for_each (\<lambda>(a, _). Command_Dispatcher.hiredis_cb (working_hiredis vip) (retired_client vip) err en None a)
             (drop n (hi_commands (out d))) (retire d es)) (\<lambda>h.
           rbind (Command_Dispatcher.disconnectCb (retired_client vip) h) (\<lambda>h'. Inr (owner h')))
      else Inr es)"

section \<open>The new dispatcher\<close>

definition switching_ops :: "bool \<Rightarrow> ('u storageCb, 'u connectCb, unit) disp_libs \<Rightarrow> ('u, 'u storage_dispatcher) storage_disp" where
  "switching_ops vip libs = (storage_ops_on vip)\<lparr>create_op := \<lambda>info permanent sentinel.
     rbind (create HaveHiredis libs info permanent sentinel) (\<lambda>d.
       case d of HiredisDispatcher d' \<Rightarrow> Inr d' | HiredisClusterDispatcher _ \<Rightarrow> Inl Undefined)\<rparr>"

definition switched ::
  "bool \<Rightarrow> ('u storageCb, 'u connectCb, unit) disp_libs \<Rightarrow> redis_context_err \<Rightarrow> errno \<Rightarrow> databaseInfo \<Rightarrow>
   ('u, 'u storage_dispatcher, 'x) storage_state \<times> nat \<Rightarrow> ('u, 'u storage_dispatcher, 'x) storage_state result" where
  "switched vip libs err en info = (\<lambda>((e, s), n).
     rbind (serviceStateChanged (switching_ops vip libs) info (e, s)) (\<lambda>es.
       case rs_dispatcher s of None \<Rightarrow> Inr es | Some old \<Rightarrow> destroyed vip err en n old es))"

text \<open>A dispatcher that connects to the first address.\<close>

definition connecting_to :: "databaseInfo \<Rightarrow> 'u storage_dispatcher \<Rightarrow> bool" where
  "connecting_to info d \<longleftrightarrow> hiredisDispatcher.serviceState d = serviceState.DISCONNECTED \<and> cbs d = [] \<and> clientCallbacksEnabled d \<and> \<not> usePermanentCommandCallbacks d \<and>
     \<not> usedForSentinel d \<and>
     (\<exists>h hs es. hosts info = h # hs \<and> address d = getHost h \<and> ip_port d = unat (ntohs (getPort h)) \<and>
        out d = HiConnect (c_str (getHost h)) (unat (ntohs (getPort h))) # es \<and> hi_commands es = [])"

lemma waitConnectedAsync_connecting: "connecting_to info d \<Longrightarrow> connecting_to info (Command_Dispatcher.waitConnectedAsync ack d)"
  by (auto simp: connecting_to_def Command_Dispatcher.waitConnectedAsync_def)

lemma created_connecting:
  assumes "hosts info \<noteq> []" "db_info_type info \<noteq> CLUSTER"
  shows "\<exists>d. create HaveHiredis libs info False False = Inr (HiredisDispatcher d) \<and> connecting_to info d"
proof -
  obtain h hs where h: "hosts info = h # hs" using assms(1) by (cases "hosts info") auto
  have "\<exists>d. AsyncHiredisCommandDispatcher (hi_lib libs) (hi_client libs) (getHost h) (getPort h) False False = Inr d \<and> connecting_to info d"
    by (auto simp: AsyncHiredisCommandDispatcher_def Command_Dispatcher.connect_def setDisconnected_def connecting_to_def h Let_def emit_def
        Command_Dispatcher.armConnectionRetryTimer_def arm_retry_def hi_commands_def)
  then show ?thesis using assms(2) by (auto simp: create_def h vec_at_def)
qed

lemma serviceStateChanged_connecting:
  assumes "hosts info \<noteq> []" "db_info_type info \<noteq> CLUSTER"
  shows "\<exists>d s'. serviceStateChanged (switching_ops vip libs) info (e, s) = Inr (e, s') \<and> rs_dispatcher s' = Some d \<and>
    connecting_to info d \<and> dbInfo s' = Some info"
proof -
  obtain d where "create HaveHiredis libs info False False = Inr (HiredisDispatcher d)" "connecting_to info d"
    using created_connecting [OF assms] by blast
  then show ?thesis
    by (simp add: serviceStateChanged_def switching_ops_def storage_ops_on_def waitConnectedAsync_connecting)
qed

section \<open>What waits is refused\<close>

lemma refused_reply:
  assumes "ec_bool ec"
  shows "storage_reply ops (request_cb r) ec AsyncRedisReply_default (e, s) = Inr (call_ack (refused r ec) e, s)"
  using assms by (cases r) (simp_all add: type_is_def getType_def AsyncRedisReply_default_def modificationCommandCallback_def conditionalCommandCallback_def getCallback_def
      findKeysCallback_def removeAllCallback_def)

definition refuse_all :: "'u request list \<Rightarrow> error_code \<Rightarrow> 'u env \<Rightarrow> 'u env" where
  "refuse_all rs ec e = e\<lparr>called := called e @ map (\<lambda>r. refused r ec) rs\<rparr>"

lemma pending_refused:
  assumes "list_all2 (\<lambda>r i. fst (snd i) = request_cb r) rs items" "cbs h = map (\<lambda>(a, cb, _). (a, ClientCb cb)) items"
    "distinct (map fst items)" "clientCallbacksEnabled h" "\<not> usePermanentCommandCallbacks h" "owner h = (e, s)"
  shows "for_each (\<lambda>(a, _). Command_Dispatcher.hiredis_cb (working_hiredis vip) (retired_client vip) err en None a) (map (\<lambda>(a, _, args). (a, args)) items) h =
    Inr (h\<lparr>cbs := [], owner := (refuse_all rs (getRedisError vip en err None) e, s)\<rparr>)"
  using assms
proof (induction rs items arbitrary: h e rule: list_all2_induct)
  case Nil
  then show ?case by (simp add: refuse_all_def)
next
  case (Cons r rs i items)
  let ?ec = "getRedisError vip en err None"
  obtain a args where i: "i = (a, request_cb r, args)" using Cons.hyps(1) by (cases i) auto
  let ?h = "h\<lparr>cbs := map (\<lambda>(a, cb, _). (a, ClientCb cb)) items, owner := (call_ack (refused r ?ec) e, s)\<rparr>"
  have reply: "storage_reply (storage_ops_on vip) (request_cb r) ?ec AsyncRedisReply_default (e, s) = Inr (call_ack (refused r ?ec) e, s)"
    by (rule refused_reply) simp
  have "Command_Dispatcher.hiredis_cb (working_hiredis vip) (retired_client vip) err en None a h = Inr ?h"
    using Cons.prems reply
    by (simp add: Command_Dispatcher.hiredis_cb_def Command_Dispatcher.isClientCallbacksEnabled_def Command_Dispatcher.handleReply_def Command_Dispatcher.isValidCb_def
        Command_Dispatcher.call_commandCb_def retired_client_def working_hiredis_def Command_Dispatcher.removeCb_def i)
  moreover have "for_each (\<lambda>(a, _). Command_Dispatcher.hiredis_cb (working_hiredis vip) (retired_client vip) err en None a) (map (\<lambda>(a, _, args). (a, args)) items) ?h =
    Inr (?h\<lparr>cbs := [], owner := (refuse_all rs ?ec (call_ack (refused r ?ec) e), s)\<rparr>)"
    by (rule Cons.IH) (use Cons.prems i in auto)
  ultimately show ?case by (simp add: i refuse_all_def call_ack_def)
qed

lemma disconnect_keeps_owner: "\<exists>h'. Command_Dispatcher.disconnectCb (retired_client vip) h = Inr h' \<and> owner h' = owner h"
  by (cases "disconnectCallback h")
    (auto simp: Command_Dispatcher.disconnectCb_def setDisconnected_def retired_client_def Command_Dispatcher.armConnectionRetryTimer_def
      arm_retry_def emit_def)

lemma destroyed_refuses:
  assumes "same_connected n (e0, s0) (e1, s1)" "pipe_ok glob (\<lambda>_. redis) rs ((e0, s0), db)" "rs_dispatcher s1 = Some d"
  shows "destroyed vip err en n d (e, s) = Inr (refuse_all rs (getRedisError vip en err None) e, s)"
proof -
  obtain q where q: "rs_dispatcher s0 = Some q" "simulates [] n q d" using assms(1,3) by (auto simp: same_storage_def)
  obtain items where items: "list_all2 entry_ok q items" "cbs d = map (\<lambda>(a, cb, _). (a, ClientCb cb)) items"
    "drop n (hi_commands (out d)) = map (\<lambda>(a, _, args). (a, args)) items" using q(2) by (auto simp: simulates_def)
  have flags: "hiredisDispatcher.serviceState d = serviceState.CONNECTED" "clientCallbacksEnabled d" "\<not> usePermanentCommandCallbacks d" "disp_inv d"
    using q(2) by (simp_all add: simulates_def)
  have "list_all2 (waits_for glob (\<lambda>_. redis) s0) rs q" using assms(2) q(1) by (auto simp: pipe_ok_def)
  then have "list_all2 (\<lambda>r i. fst (snd i) = request_cb r) rs items"
    by (rule list_all2_trans [OF _ _ items(1), rotated]) (auto simp: waits_for_def entry_ok_def)
  moreover have "distinct (map fst items)" using flags(4) items(2) by (simp add: disp_inv_def o_def split_beta)
  moreover have "cbs (retire d (e, s)) = cbs d" "clientCallbacksEnabled (retire d (e, s)) = clientCallbacksEnabled d"
    "usePermanentCommandCallbacks (retire d (e, s)) = usePermanentCommandCallbacks d" "owner (retire d (e, s)) = (e, s)"
    by (simp_all add: retire_def hiredisDispatcher.defs)
  ultimately have freed: "for_each (\<lambda>(a, _). Command_Dispatcher.hiredis_cb (working_hiredis vip) (retired_client vip) err en None a) (drop n (hi_commands (out d)))
      (retire d (e, s)) = Inr ((retire d (e, s))\<lparr>cbs := [], owner := (refuse_all rs (getRedisError vip en err None) e, s)\<rparr>)"
    unfolding items(3) using flags(2,3) items(2) by (intro pending_refused) auto
  obtain h' where "Command_Dispatcher.disconnectCb (retired_client vip)
      ((retire d (e, s))\<lparr>cbs := [], owner := (refuse_all rs (getRedisError vip en err None) e, s)\<rparr>) = Inr h'"
    "owner h' = (refuse_all rs (getRedisError vip en err None) e, s)"
    using disconnect_keeps_owner [of vip "(retire d (e, s))\<lparr>cbs := [], owner := (refuse_all rs (getRedisError vip en err None) e, s)\<rparr>"]
    by auto
  moreover have "frees_context d"
    using flags(1) by (simp add: frees_context_def AsyncHiredisCommandDispatcher_destroy_def disarm_retry_def disconnectHiredis_def)
  ultimately show ?thesis using freed by (simp add: destroyed_def)
qed

lemma refused_user [simp]: "ack_user (refused r ec) = request_user r"
  by (cases r) simp_all

text \<open>C7: a change of the database loses no operation. When the discovery reports another address to a
  storage that is connected and has started any operations, the operations that the old database
  has not answered yet are acknowledged with an error, in order; together with the earlier
  acknowledgements every operation that was started is acknowledged exactly once. The storage then
  has a new dispatcher, which connects to the first of the new addresses and has nothing to send.\<close>

theorem switch_refuses_pending:
  assumes "glob_ok glob" "redis_ok glob redis" "nc_inv (ns_confs e)" "finite (dom db)" "\<forall>ev\<in>set evs. event_ok ev \<and> in_order ev"
    "rs_dispatcher s = Some d" "connected_idle d" "n = length (hi_commands (out d))"
    "pipe_spec glob evs ([], sdl_view db, []) = (pending, A, acks)"
    "hosts info \<noteq> []" "db_info_type info \<noteq> CLUSTER" "ec = getRedisError vip en err None"
  shows "\<exists>e1 s1 n1 db1 e2 s2 d2. connected_pipelined vip redis evs (((e, s), n), db) = Inr (((e1, s1), n1), db1) \<and>
    switched vip libs err en info ((e1, s1), n1) = Inr (e2, s2) \<and> posted e2 = posted e \<and>
    called e2 = called e @ acks @ map (\<lambda>r. refused r ec) pending \<and> ec_bool ec \<and>
    mset (map ack_user (acks @ map (\<lambda>r. refused r ec) pending)) = mset (map request_user (started evs)) \<and>
    rs_dispatcher s2 = Some d2 \<and> connecting_to info d2 \<and> dbInfo s2 = Some info"
proof -
  obtain e0 s0 e1 s1 n1 db1 rs1 cs where run: "connected_pipelined vip redis evs (((e, s), n), db) = Inr (((e1, s1), n1), db1)"
    "same_connected n1 (e0, s0) (e1, s1)" "pipe_ok glob (\<lambda>_. redis) rs1 ((e0, s0), db1)" "posted e0 = posted e" "called e0 = called e @ cs"
    "pipe_spec glob evs ([], sdl_view db, []) = (rs1, sdl_view db1, [] @ cs)"
    using hiredis_pipelined.runs [OF assms(1) redis_ok_serves_all [OF assms(2)] idle_start [OF assms(3,4,6-8)] assms(5), of vip] by (fastforce simp: connected_pipelined_def)
  have rs1: "rs1 = pending" "cs = acks" using run(6) assms(9) by simp_all
  have e1: "e1 = e0" using same_storageD(1) [OF run(2)] .
  obtain old where old: "rs_dispatcher s1 = Some old" using same_storageD(4) [OF run(2)] by blast
  obtain d2 s2 where s2: "serviceStateChanged (switching_ops vip libs) info (e1, s1) = Inr (e1, s2)" "rs_dispatcher s2 = Some d2"
    "connecting_to info d2" "dbInfo s2 = Some info" using serviceStateChanged_connecting [OF assms(10,11)] by blast
  have "switched vip libs err en info ((e1, s1), n1) = Inr (refuse_all pending ec e1, s2)"
    using s2(1) old destroyed_refuses [OF run(2,3) old, of vip err en e1 s2] rs1(1) by (simp add: switched_def assms(12))
  moreover have "posted (refuse_all pending ec e1) = posted e" "called (refuse_all pending ec e1) = called e @ acks @ map (\<lambda>r. refused r ec) pending"
    using run(4,5) rs1(2) by (simp_all add: refuse_all_def e1)
  moreover have "mset (map ack_user (acks @ map (\<lambda>r. refused r ec) pending)) = mset (map request_user (started evs))"
    using pipe_spec_users [OF assms(9)] by (simp add: o_def)
  moreover have "ec_bool ec" using assms(12) by simp
  ultimately show ?thesis using run(1) s2(2-4) by blast
qed

definition storage_libs :: "(nat storageCb, nat connectCb, unit) disp_libs" where
  "storage_libs = \<lparr>hi_lib = working_hiredis False,
     hi_client = \<lparr>on_reply = \<lambda>_ _ _ s. Inr s, on_connect = \<lambda>_ s. Inr s, on_disconnect = \<lambda>_ s. Inr s\<rparr>,
     cl_lib = \<lparr>cluster_async_connect = \<lambda>_ _. ConnectOk, cluster_command_argv = \<lambda>_ _ _ _. None\<rparr>\<rparr>"

abbreviation switch_info :: databaseInfo where
  "switch_info \<equiv> \<lparr>hosts = [hostAndPort.make ''db2'' (htons 6379) False], db_info_type = REDUNDANT, db_ns = None, discovery = SENTINEL\<rparr>"

theorem switch_refuses_pending_witness:
  "\<exists>e1 s1 n1 db1 e2 s2. connected_pipelined False sample_redis
       [Issue (Set ''abc'' [(''k'', [1])] 0), Issue (Get ''abc'' [''k''] 1), Issue (RemoveAll ''abc'' 2), Answer 0]
       (((sample_env, \<lparr>rs_dispatcher = Some sample_connected, rs_discovery = (None :: unit option), publisherId = None, readyAck = None,
          dbInfo = None\<rparr>), 1), Map.empty) = Inr (((e1, s1), n1), db1) \<and>
     switched False storage_libs (REDIS_ERR_VALUE 0) (Errno 0) switch_info ((e1, s1), n1) = Inr (e2, s2) \<and>
     called e2 = [CallModify 0 no_error, CallGet 1 (getRedisError False (Errno 0) (REDIS_ERR_VALUE 0) None) [],
       CallModify 2 (getRedisError False (Errno 0) (REDIS_ERR_VALUE 0) None)]"
proof -
  let ?s = "\<lparr>rs_dispatcher = Some sample_connected, rs_discovery = (None :: unit option), publisherId = None, readyAck = None, dbInfo = None\<rparr>"
  let ?evs = "[Issue (Set ''abc'' [(''k'', [1])] 0), Issue (Get ''abc'' [''k''] 1), Issue (RemoveAll ''abc'' (2::nat)), Answer 0]"
  have ok: "\<forall>ev\<in>set ?evs. event_ok ev \<and> in_order ev" by (simp add: isValidNamespace_iff plain_def redisSearchPatternCharacters_def)
  have d: "rs_dispatcher ?s = Some sample_connected" by simp
  obtain A where A: "pipe_spec sample_glob ?evs ([], sdl_view Map.empty, []) =
      ([Get ''abc'' [''k''] 1, RemoveAll ''abc'' 2], A, [CallModify 0 no_error])" by (simp add: pipe_spec_def)
  have "hosts switch_info \<noteq> []" "db_info_type switch_info \<noteq> CLUSTER" by simp_all
  from switch_refuses_pending [OF sample_glob_ok sample_redis_ok sample_env_inv _ ok d sample_connected_idle A this refl,
      where err = "REDIS_ERR_VALUE 0" and en = "Errno 0" and libs = storage_libs and vip = False]
  show ?thesis by (auto simp: sample_env_def)
qed

end
