(* ===== verification/Logging.thy ===== *)
theory Logging
  imports Prelude
begin

text \<open>
  The loggers (\<open>src/createlogger.cpp\<close>, \<open>src/stdstreamlogger.cpp\<close>, \<open>src/systemlogger.cpp\<close>) and
  \<open>logAndAbort\<close> (\<open>src/abort.cpp\<close>). A logger opens a stream per level when it is first used; the
  stream of \<open>boost::iostreams\<close> buffers what is written and hands it to the sink in pieces. How it
  cuts the text is an argument \<open>pieces\<close>; \<open>std::endl\<close> flushes, so all of it is handed over.
\<close>

datatype log_level = LOG_EMERG | LOG_ALERT | LOG_CRIT | LOG_ERR | LOG_WARNING | LOG_NOTICE | LOG_INFO | LOG_DEBUG

fun level_number :: "log_level \<Rightarrow> nat" where
  "level_number LOG_EMERG = 0"
| "level_number LOG_ALERT = 1"
| "level_number LOG_CRIT = 2"
| "level_number LOG_ERR = 3"
| "level_number LOG_WARNING = 4"
| "level_number LOG_NOTICE = 5"
| "level_number LOG_INFO = 6"
| "level_number LOG_DEBUG = 7"

record log_output =
  std_cout :: string
  std_cerr :: string
  syslog_calls :: "(log_level \<times> string) list"

record sink =
  sink_prefix :: string
  sink_level :: log_level

section \<open>Sinks\<close>

definition stdstream_write :: "sink \<Rightarrow> string \<Rightarrow> log_output \<Rightarrow> log_output" where
  "stdstream_write k s io =
     (if level_number (sink_level k) < level_number LOG_ERR
      then io\<lparr>std_cout := std_cout io @ sink_prefix k @ '': '' @ s\<rparr>
      else io\<lparr>std_cerr := std_cerr io @ sink_prefix k @ '': '' @ s\<rparr>)"

text \<open>The conversion \<open>%.ns\<close> writes at most \<open>n\<close> characters and stops at a null character.\<close>

definition system_write :: "sink \<Rightarrow> string \<Rightarrow> log_output \<Rightarrow> log_output" where
  "system_write k s io =
     io\<lparr>syslog_calls := syslog_calls io @ [(sink_level k, c_str (sink_prefix k) @ '': '' @ c_str (take (length s) s))]\<rparr>"

section \<open>Loggers\<close>

text \<open>The stream of a level, opened or not.\<close>

record logger =
  log_prefix :: string
  log_streams :: "log_level \<Rightarrow> sink option"
  is_system :: bool

definition StdStreamLogger :: "string \<Rightarrow> logger" where
  "StdStreamLogger prefix = \<lparr>log_prefix = prefix, log_streams = \<lambda>_. None, is_system = False\<rparr>"

definition SystemLogger :: "string \<Rightarrow> logger" where
  "SystemLogger prefix = \<lparr>log_prefix = prefix, log_streams = \<lambda>_. None, is_system = True\<rparr>"

text \<open>\<open>emerg()\<close>, \<open>alert()\<close> and so on, which differ in the level only.\<close>

definition stdstream_stream :: "log_level \<Rightarrow> logger \<Rightarrow> sink \<times> logger" where
  "stdstream_stream lv l =
     (case log_streams l lv of
        Some k \<Rightarrow> (k, l)
      | None \<Rightarrow> (let k = \<lparr>sink_prefix = log_prefix l, sink_level = lv\<rparr> in (k, l\<lparr>log_streams := (log_streams l)(lv \<mapsto> k)\<rparr>)))"

definition system_stream :: "log_level \<Rightarrow> logger \<Rightarrow> sink \<times> logger" where
  "system_stream lv l =
     (case log_streams l lv of
        Some k \<Rightarrow> (k, l)
      | None \<Rightarrow> (let k = \<lparr>sink_prefix = log_prefix l, sink_level = lv\<rparr> in (k, l\<lparr>log_streams := (log_streams l)(lv \<mapsto> k)\<rparr>)))"

definition createLogger :: "bool \<Rightarrow> string \<Rightarrow> logger" where
  "createLogger HAVE_SYSTEMLOGGER prefix = (if HAVE_SYSTEMLOGGER then SystemLogger prefix else StdStreamLogger prefix)"

text \<open>A line written to the stream of a level.\<close>

definition log_line :: "(string \<Rightarrow> string list) \<Rightarrow> log_level \<Rightarrow> string \<Rightarrow> logger \<times> log_output \<Rightarrow> logger \<times> log_output" where
  "log_line pieces lv msg = (\<lambda>(l, io).
     let (k, l') = (if is_system l then system_stream lv l else stdstream_stream lv l)
     in (l', fold (if is_system l then system_write k else stdstream_write k) (pieces (msg @ [CHR 0x0A])) io))"

definition SDL_LOG_PREFIX :: string where "SDL_LOG_PREFIX = ''shareddatalayer''"

definition logDebugOnce :: "bool \<Rightarrow> (string \<Rightarrow> string list) \<Rightarrow> string \<Rightarrow> log_output \<Rightarrow> log_output" where
  "logDebugOnce sys pieces msg io = snd (log_line pieces LOG_DEBUG msg (createLogger sys SDL_LOG_PREFIX, io))"

definition logErrorOnce :: "bool \<Rightarrow> (string \<Rightarrow> string list) \<Rightarrow> string \<Rightarrow> log_output \<Rightarrow> log_output" where
  "logErrorOnce sys pieces msg io = snd (log_line pieces LOG_ERR msg (createLogger sys SDL_LOG_PREFIX, io))"

definition logInfoOnce :: "bool \<Rightarrow> (string \<Rightarrow> string list) \<Rightarrow> string \<Rightarrow> log_output \<Rightarrow> log_output" where
  "logInfoOnce sys pieces msg io = snd (log_line pieces LOG_INFO msg (createLogger sys SDL_LOG_PREFIX, io))"

definition logAndAbort ::
  "bool \<Rightarrow> (string \<Rightarrow> string list) \<Rightarrow> string \<Rightarrow> int \<Rightarrow> string \<Rightarrow> log_output \<Rightarrow> failure \<times> log_output" where
  "logAndAbort sys pieces file line message io =
     (Abort message, logErrorOnce sys pieces (''SHAREDDATALAYER_ABORT, file '' @ file @ '', line '' @ show_int line @ '': '' @ message) io)"

section \<open>Where lines go\<close>

definition severe :: "log_level \<Rightarrow> bool" where
  "severe lv \<longleftrightarrow> lv \<in> {LOG_EMERG, LOG_ALERT, LOG_CRIT}"

definition logged_text :: "(string \<Rightarrow> string list) \<Rightarrow> string \<Rightarrow> string \<Rightarrow> string" where
  "logged_text pieces prefix msg = concat (map (\<lambda>s. prefix @ '': '' @ s) (pieces (msg @ [CHR 0x0A])))"

definition logger_inv :: "string \<Rightarrow> logger \<Rightarrow> bool" where
  "logger_inv prefix l \<longleftrightarrow> log_prefix l = prefix \<and> (\<forall>lv k. log_streams l lv = Some k \<longrightarrow> k = \<lparr>sink_prefix = prefix, sink_level = lv\<rparr>)"

lemma stream_of_logger:
  assumes "logger_inv prefix l"
  shows "\<exists>l'. stdstream_stream lv l = (\<lparr>sink_prefix = prefix, sink_level = lv\<rparr>, l') \<and> logger_inv prefix l' \<and> is_system l' = is_system l"
  using assms by (auto simp: stdstream_stream_def logger_inv_def Let_def split: option.split)

lemma severe_iff: "level_number lv < level_number LOG_ERR \<longleftrightarrow> severe lv"
  by (cases lv) (simp_all add: severe_def)

lemma stdstream_writes:
  "fold (stdstream_write \<lparr>sink_prefix = prefix, sink_level = lv\<rparr>) ss io =
     (if severe lv then io\<lparr>std_cout := std_cout io @ concat (map (\<lambda>s. prefix @ '': '' @ s) ss)\<rparr>
      else io\<lparr>std_cerr := std_cerr io @ concat (map (\<lambda>s. prefix @ '': '' @ s) ss)\<rparr>)"
  using severe_iff [of lv] by (induction ss arbitrary: io) (simp_all add: stdstream_write_def)

text \<open>A logger of the standard streams writes the messages more severe than an error to the standard
  output, and errors and all less severe messages to the error stream, each in order.\<close>

theorem stdstream_lines_by_severity:
  "\<exists>l io'. fold (\<lambda>(lv, msg). log_line pieces lv msg) ms (createLogger False prefix, io) = (l, io') \<and>
     std_cout io' = std_cout io @ concat (map (\<lambda>(lv, msg). logged_text pieces prefix msg) (filter (\<lambda>(lv, _). severe lv) ms)) \<and>
     std_cerr io' = std_cerr io @ concat (map (\<lambda>(lv, msg). logged_text pieces prefix msg) (filter (\<lambda>(lv, _). \<not> severe lv) ms))"
proof -
  let ?out = "\<lambda>P ms. concat (map (\<lambda>(lv, msg). logged_text pieces prefix msg) (filter (\<lambda>(lv :: log_level, _). P lv) ms))"
  have "\<exists>l' io'. fold (\<lambda>(lv, msg). log_line pieces lv msg) ms (l, io) = (l', io') \<and>
     std_cout io' = std_cout io @ ?out severe ms \<and> std_cerr io' = std_cerr io @ ?out (\<lambda>lv. \<not> severe lv) ms"
    if "logger_inv prefix l" "\<not> is_system l" for l io
    using that
  proof (induction ms arbitrary: l io)
    case (Cons m ms)
    obtain lv msg where m: "m = (lv, msg)" by (cases m)
    obtain l' where l': "stdstream_stream lv l = (\<lparr>sink_prefix = prefix, sink_level = lv\<rparr>, l')" "logger_inv prefix l'" "\<not> is_system l'"
      using stream_of_logger [OF Cons.prems(1), of lv] Cons.prems(2) by auto
    let ?t = "logged_text pieces prefix msg"
    let ?io = "if severe lv then io\<lparr>std_cout := std_cout io @ ?t\<rparr> else io\<lparr>std_cerr := std_cerr io @ ?t\<rparr>"
    have step: "log_line pieces lv msg (l, io) = (l', ?io)"
      using Cons.prems(2) l'(1) by (simp add: log_line_def stdstream_writes logged_text_def)
    obtain l2 io2 where "fold (\<lambda>(lv, msg). log_line pieces lv msg) ms (l', ?io) = (l2, io2)"
      "std_cout io2 = std_cout ?io @ ?out severe ms" "std_cerr io2 = std_cerr ?io @ ?out (\<lambda>lv. \<not> severe lv) ms"
      using Cons.IH [OF l'(2,3), of ?io] by blast
    then show ?case unfolding m by (simp add: step split: if_splits)
  qed simp
  from this [of "createLogger False prefix" io] show ?thesis by (simp add: createLogger_def StdStreamLogger_def logger_inv_def)
qed

end
