(* ===== verification/System_Calls.thy ===== *)
theory System_Calls
  imports Sync_Storage Event_FD
begin

text \<open>
  The wrappers of the system calls (\<open>src/system.cpp\<close>). A system call of the kernel is an argument: it
  returns its result and \<open>errno\<close>, and changes the world. Every wrapper throws \<open>std::system_error\<close>
  with its own name when the call fails, except for the errors it lets through; \<open>write\<close> tries again
  when it is interrupted. \<open>poll\<close> is in \<open>Sync_Storage\<close>, \<open>epoll_ctl\<close> and \<open>close\<close> are in \<open>Engine_Core\<close>.
\<close>

type_synonym 'w call = "'w \<Rightarrow> (int \<times> int) \<times> 'w"

record 'w syscalls =
  raw_epoll_create1 :: "int \<Rightarrow> 'w call"
  raw_epoll_wait :: "int \<Rightarrow> int \<Rightarrow> int \<Rightarrow> 'w call"
  raw_timerfd_create :: "int \<Rightarrow> int \<Rightarrow> 'w call"
  raw_timerfd_settime :: "int \<Rightarrow> int \<Rightarrow> int \<Rightarrow> 'w call"
  raw_read :: "int \<Rightarrow> nat \<Rightarrow> 'w call"
  raw_eventfd :: "nat \<Rightarrow> int \<Rightarrow> 'w call"
  raw_write :: "int \<Rightarrow> nat \<Rightarrow> 'w call"
  steady_now :: "'w \<Rightarrow> int \<times> 'w"
  raw_getenv :: "string \<Rightarrow> 'w \<Rightarrow> string option"

definition checked :: "string \<Rightarrow> int list \<Rightarrow> (int \<times> int) \<times> 'w \<Rightarrow> (int \<times> 'w) result" where
  "checked name ignored = (\<lambda>((ret, err), w).
     if ret = -1 \<and> err \<notin> set ignored then Inl (Throw (StdSystemError name err)) else Inr (ret, w))"

definition System_epoll_create1 :: "'w syscalls \<Rightarrow> int \<Rightarrow> 'w \<Rightarrow> (int \<times> 'w) result" where
  "System_epoll_create1 k flags w = checked ''epoll_create1'' [] (raw_epoll_create1 k flags w)"

definition System_epoll_wait :: "'w syscalls \<Rightarrow> int \<Rightarrow> int \<Rightarrow> int \<Rightarrow> 'w \<Rightarrow> (int \<times> 'w) result" where
  "System_epoll_wait k epfd maxevents timeout w = checked ''epoll_wait'' [EINTR] (raw_epoll_wait k epfd maxevents timeout w)"

definition System_timerfd_create :: "'w syscalls \<Rightarrow> int \<Rightarrow> int \<Rightarrow> 'w \<Rightarrow> (int \<times> 'w) result" where
  "System_timerfd_create k clockid flags w = checked ''timerfd_create'' [] (raw_timerfd_create k clockid flags w)"

definition System_timerfd_settime :: "'w syscalls \<Rightarrow> int \<Rightarrow> int \<Rightarrow> int \<Rightarrow> 'w \<Rightarrow> 'w result" where
  "System_timerfd_settime k fd flags new_value w =
     rbind (checked ''timerfd_settime'' [] (raw_timerfd_settime k fd flags new_value w)) (\<lambda>(_, w'). Inr w')"

definition System_read :: "'w syscalls \<Rightarrow> int \<Rightarrow> nat \<Rightarrow> 'w \<Rightarrow> (int \<times> 'w) result" where
  "System_read k fd len w = checked ''read'' [EINTR, EAGAIN] (raw_read k fd len w)"

definition System_eventfd :: "'w syscalls \<Rightarrow> nat \<Rightarrow> int \<Rightarrow> 'w \<Rightarrow> (int \<times> 'w) result" where
  "System_eventfd k initval flags w = checked ''eventfd'' [] (raw_eventfd k initval flags w)"

partial_function (option) System_write :: "'w syscalls \<Rightarrow> int \<Rightarrow> nat \<Rightarrow> 'w \<Rightarrow> (int \<times> 'w) result option" where
  "System_write k fd len w =
     (case raw_write k fd len w of ((ret, err), w') \<Rightarrow>
        if ret = -1 \<and> err = EINTR then System_write k fd len w'
        else Some (checked ''write'' [] ((ret, err), w')))"

definition System_time_since_epoch :: "'w syscalls \<Rightarrow> 'w \<Rightarrow> int \<times> 'w" where
  "System_time_since_epoch k w = steady_now k w"

definition System_getenv :: "'w syscalls \<Rightarrow> string \<Rightarrow> 'w \<Rightarrow> string option" where
  "System_getenv k name w = raw_getenv k (c_str name) w"

section \<open>Interrupted calls\<close>

lemma checked_ignores: "err \<in> set ignored \<Longrightarrow> checked name ignored ((ret, err), w) = Inr (ret, w)"
  by (simp add: checked_def)

text \<open>A call that is interrupted throws nothing, and \<open>write\<close> acts as if the interruptions had not
  happened: when the kernel interrupts it some number of times and then does not, it returns or
  throws what the last call did.\<close>

inductive interrupted :: "'w syscalls \<Rightarrow> int \<Rightarrow> nat \<Rightarrow> 'w \<Rightarrow> 'w \<Rightarrow> bool" for k fd len where
  start: "interrupted k fd len w w"
| again: "raw_write k fd len w = ((-1, EINTR), w1) \<Longrightarrow> interrupted k fd len w1 w2 \<Longrightarrow> interrupted k fd len w w2"

theorem write_survives_interrupts:
  assumes "interrupted k fd len w w1" "raw_write k fd len w1 = ((ret, err), w2)" "\<not> (ret = -1 \<and> err = EINTR)"
  shows "System_write k fd len w = Some (if ret = -1 then Inl (Throw (StdSystemError ''write'' err)) else Inr (ret, w2))"
  using assms
proof (induction rule: interrupted.induct)
  case (start w)
  then show ?case by (subst System_write.simps) (auto simp: checked_def)
next
  case (again w w1 w2)
  then show ?case by (subst System_write.simps) simp
qed

section \<open>The event descriptor\<close>

text \<open>The kernel's side of a non-blocking \<open>eventfd\<close>, whose counter is all the world. A write that adds
  1 or a read may be interrupted first, as \<open>signals\<close> says.\<close>

type_synonym 'c eventfd_world = "nat \<times> 'c eventFD"

definition eventfd_write :: "'c eventfd_world call" where
  "eventfd_write = (\<lambda>(signals, s).
     if signals > 0 then ((-1, EINTR), (signals - 1, s))
     else if event_counter s < EVENTFD_MAX then ((8, 0), (0, s\<lparr>event_counter := event_counter s + 1\<rparr>))
     else ((-1, EAGAIN), (0, s)))"

definition eventfd_read :: "'c eventfd_world call" where
  "eventfd_read = (\<lambda>(signals, s).
     if event_counter s = 0 then ((-1, EAGAIN), (signals, s)) else ((8, 0), (signals, s\<lparr>event_counter := 0\<rparr>)))"

lemma eventfd_write_interrupted:
  assumes "raw_write k fd 8 = eventfd_write"
  shows "interrupted k fd 8 (signals, s) (0, s)"
proof (induction signals)
  case (Suc signals)
  have "raw_write k fd 8 (Suc signals, s) = ((-1, EINTR), (signals, s))" by (simp add: assms eventfd_write_def)
  then show ?case using Suc by (rule interrupted.again)
qed (rule interrupted.start)

text \<open>The operations of \<open>EventFD\<close> on its descriptor are the wrappers on it: however often it is
  interrupted, \<open>write\<close> returns, and adds 1 or throws; \<open>read\<close> never throws and leaves the counter 0.\<close>

theorem eventfd_wrappers:
  "raw_write k fd 8 = eventfd_write \<Longrightarrow>
     System_write k fd 8 (signals, s) = Some (rbind (sys_write s) (\<lambda>s'. Inr (8, (0, s'))))"
  "raw_read k fd 8 = eventfd_read \<Longrightarrow> \<exists>ret. System_read k fd 8 (signals, s) = Inr (ret, (signals, sys_read s))"
proof -
  assume w: "raw_write k fd 8 = eventfd_write"
  show "System_write k fd 8 (signals, s) = Some (rbind (sys_write s) (\<lambda>s'. Inr (8, (0, s'))))"
  proof (cases "event_counter s < EVENTFD_MAX")
    case True
    then have "raw_write k fd 8 (0, s) = ((8, 0), (0, s\<lparr>event_counter := event_counter s + 1\<rparr>))" by (simp add: w eventfd_write_def)
    from write_survives_interrupts [OF eventfd_write_interrupted [OF w] this] True show ?thesis by (simp add: sys_write_def)
  next
    case False
    then have "raw_write k fd 8 (0, s) = ((-1, EAGAIN), (0, s))" by (simp add: w eventfd_write_def)
    from write_survives_interrupts [OF eventfd_write_interrupted [OF w] this] False show ?thesis
      by (simp add: sys_write_def EAGAIN_def EINTR_def)
  qed
next
  assume "raw_read k fd 8 = eventfd_read"
  then show "\<exists>ret. System_read k fd 8 (signals, s) = Inr (ret, (signals, sys_read s))"
    by (cases s) (auto simp: System_read_def eventfd_read_def sys_read_def checked_def)
qed

end
