(* ===== verification/Tool_Timeout.thy ===== *)
theory Tool_Timeout
  imports Command_Line
begin

text \<open>
  The timeouts of \<open>test-get-set\<close> and \<open>test-connectivity\<close>: \<open>setTimeout\<close> and \<open>timeoutThread\<close> of
  \<open>src/cli/testgetsetcommand.cpp\<close> and \<open>src/cli/testconnectivitycommand.cpp\<close>. The command starts a
  detached thread, which sleeps and then ends the process, whatever the main thread is doing.

  A process of the tool is a step relation: the main thread executes the command as often as
  \<open>--repeat\<close> says, time passes, and a thread that has slept long enough ends the process. What the
  command itself does is in \<open>Command_Line\<close>; here it takes any time and returns any status.
\<close>

section \<open>The threads\<close>

text \<open>What the thread writes to \<open>std::cerr\<close> after it has slept, and the status of \<open>std::exit\<close>. An exception
  of the configuration that leaves the thread terminates the process.\<close>

definition timeoutThread :: "int \<Rightarrow> string \<times> int" where
  "timeoutThread timeout = (''SyncStorage create timeout, aborting after '' @ show_int timeout @ '' seconds'' @ endl, EXIT_FAILURE)"

definition conn_timeoutThread :: "'w conn_lib \<Rightarrow> int \<Rightarrow> (string \<times> int) result" where
  "conn_timeoutThread lib timeout =
     rbind (PrintStaticConfiguration lib) (\<lambda>static.
       Inr (''Storage create timeout, aborting after '' @ show_int timeout @ '' seconds'' @ endl @ static, EXIT_FAILURE))"

text \<open>Times in nanoseconds. The detached threads are the times until which they sleep; \<open>sleep_for\<close>
  returns at once for a negative duration.\<close>

definition seconds :: "int \<Rightarrow> int" where
  "seconds n = n * 1000000000"

definition setTimeout :: "int \<Rightarrow> int \<Rightarrow> int list \<Rightarrow> int list" where
  "setTimeout timeout now sleeping = (if timeout \<noteq> 0 then sleeping @ [now + max 0 (seconds timeout)] else sleeping)"

section \<open>The process\<close>

datatype ending = Returned int | Exited int

record tool_process =
  clock :: int
  sleeping :: "int list"
  repetitions :: nat
  working :: bool
  ending :: "ending option"

inductive tool_step :: "int \<Rightarrow> tool_process \<Rightarrow> tool_process \<Rightarrow> bool" for timeout :: int where
  command_begins: "ending p = None \<Longrightarrow> \<not> working p \<Longrightarrow> repetitions p = Suc n \<Longrightarrow>
    tool_step timeout p (p\<lparr>working := True, repetitions := n, sleeping := setTimeout timeout (clock p) (sleeping p)\<rparr>)"
| command_succeeds: "ending p = None \<Longrightarrow> working p \<Longrightarrow> tool_step timeout p (p\<lparr>working := False\<rparr>)"
| command_fails: "ending p = None \<Longrightarrow> working p \<Longrightarrow> ret \<noteq> EXIT_SUCCESS \<Longrightarrow> tool_step timeout p (p\<lparr>ending := Some (Returned ret)\<rparr>)"
| main_returns: "ending p = None \<Longrightarrow> \<not> working p \<Longrightarrow> repetitions p = 0 \<Longrightarrow> tool_step timeout p (p\<lparr>ending := Some (Returned EXIT_SUCCESS)\<rparr>)"
| time_passes: "ending p = None \<Longrightarrow> 0 < t \<Longrightarrow> tool_step timeout p (p\<lparr>clock := clock p + t\<rparr>)"
| thread_wakes: "ending p = None \<Longrightarrow> t \<in> set (sleeping p) \<Longrightarrow> t \<le> clock p \<Longrightarrow>
    tool_step timeout p (p\<lparr>ending := Some (Exited (snd (timeoutThread timeout)))\<rparr>)"

inductive_cases tool_stepE: "tool_step timeout p p'"

definition tool_start :: "int \<Rightarrow> nat \<Rightarrow> tool_process" where
  "tool_start now n = \<lparr>clock = now, sleeping = [], repetitions = n, working = False, ending = None\<rparr>"

section \<open>When the process is ended\<close>

lemma sleeping_grows: "tool_step timeout p p' \<Longrightarrow> \<exists>ts. sleeping p' = sleeping p @ ts"
  by (auto elim!: tool_stepE simp: setTimeout_def)

lemma tool_run_sleeping: "(tool_step timeout)\<^sup>*\<^sup>* p p' \<Longrightarrow> \<exists>ts. sleeping p' = sleeping p @ ts"
proof (induction rule: rtranclp_induct)
  case (step p1 p2)
  then show ?case using sleeping_grows [of timeout p1 p2] by auto
qed simp

text \<open>Every thread sleeps at least as long as the timeout after the start, and only a thread that has
  slept ends the process before the main thread.\<close>

definition tool_inv :: "int \<Rightarrow> int \<Rightarrow> tool_process \<Rightarrow> bool" where
  "tool_inv timeout start p \<longleftrightarrow> start \<le> clock p \<and> (timeout = 0 \<longrightarrow> sleeping p = []) \<and>
     (\<forall>t\<in>set (sleeping p). start + max 0 (seconds timeout) \<le> t) \<and>
     (\<forall>ret. ending p = Some (Exited ret) \<longrightarrow> (\<exists>t\<in>set (sleeping p). t \<le> clock p))"

lemma tool_inv_start: "tool_inv timeout now (tool_start now n)"
  by (simp add: tool_inv_def tool_start_def)

lemma tool_inv_step: "tool_step timeout p p' \<Longrightarrow> tool_inv timeout start p \<Longrightarrow> tool_inv timeout start p'"
  by (induction rule: tool_step.induct) (auto simp: tool_inv_def setTimeout_def)

lemma tool_inv_run: "(tool_step timeout)\<^sup>*\<^sup>* p p' \<Longrightarrow> tool_inv timeout start p \<Longrightarrow> tool_inv timeout start p'"
  by (induction rule: rtranclp_induct) (auto intro: tool_inv_step)

text \<open>The tool is not ended without a timeout, and not before the timeout.\<close>

lemma not_ended_early:
  assumes "(tool_step timeout)\<^sup>*\<^sup>* (tool_start now n) p" "ending p = Some (Exited ret)"
  shows "timeout \<noteq> 0" "now + seconds timeout \<le> clock p"
proof -
  have "tool_inv timeout now p" using tool_inv_run [OF assms(1) tool_inv_start] .
  then obtain t where t: "t \<in> set (sleeping p)" "t \<le> clock p" "now + max 0 (seconds timeout) \<le> t" "timeout = 0 \<longrightarrow> sleeping p = []"
    using assms(2) by (auto simp: tool_inv_def)
  then show "timeout \<noteq> 0" by auto
  from t(2,3) show "now + seconds timeout \<le> clock p" by simp
qed

text \<open>Nothing cancels the thread. Once the command has begun with a timeout, the process can be ended
  at any later moment from the timeout on, also when the storage was created in time, and also in
  a later repetition of the command, whose own timeout is not over. A process that runs longer
  than the timeout therefore does not run forever: a step that ends it is always possible.\<close>

lemma timeout_not_cancelled:
  assumes "ending p0 = None" "\<not> working p0" "repetitions p0 = Suc n" "timeout \<noteq> 0" "tool_step timeout p0 p1" "working p1"
    "(tool_step timeout)\<^sup>*\<^sup>* p1 p" "ending p = None" "clock p0 + max 0 (seconds timeout) \<le> clock p"
  shows "tool_step timeout p (p\<lparr>ending := Some (Exited EXIT_FAILURE)\<rparr>)"
proof -
  let ?t = "clock p0 + max 0 (seconds timeout)"
  have "?t \<in> set (sleeping p1)" using assms(2,4-6) by (auto elim!: tool_stepE simp: setTimeout_def)
  then have "?t \<in> set (sleeping p)" using tool_run_sleeping [OF assms(7)] by auto
  from thread_wakes [OF assms(8) this assms(9), of timeout] show ?thesis by (simp add: timeoutThread_def)
qed

text \<open>A negative timeout, which the options accept, lets the process end as soon as the command begins.\<close>

lemma negative_timeout:
  assumes "timeout < 0"
  shows "\<exists>p. (tool_step timeout)\<^sup>*\<^sup>* (tool_start now 1) p \<and> clock p = now \<and> ending p = Some (Exited EXIT_FAILURE)"
proof -
  let ?p = "\<lparr>clock = now, sleeping = [now], repetitions = 0, working = True, ending = None\<rparr>"
  have "tool_step timeout (tool_start now 1) ?p"
    using command_begins [of "tool_start now 1" 0 timeout] assms by (simp add: tool_start_def setTimeout_def seconds_def)
  moreover have "tool_step timeout ?p (?p\<lparr>ending := Some (Exited EXIT_FAILURE)\<rparr>)"
    using thread_wakes [of ?p now timeout] by (simp add: timeoutThread_def)
  ultimately have "(tool_step timeout)\<^sup>*\<^sup>* (tool_start now 1) (?p\<lparr>ending := Some (Exited EXIT_FAILURE)\<rparr>)" by (meson converse_rtranclp_into_rtranclp rtranclp.rtrancl_refl)
  then show ?thesis by fastforce
qed

end
