(* ===== verification/Spec2Isabelle.thy ===== *)
theory Spec2Isabelle
  imports Cluster_Storage Command_Line Epoll_Adapter Failover Logging System_Calls Tool_Timeout
begin

text \<open>
  A model of the C++ client library of the shared data layer (SDL): \<open>src/src\<close>, with its headers in
  \<open>src/include\<close>. The library stores the data of applications in Redis. A client calls the blocking
  \<open>SyncStorage\<close> or the asynchronous \<open>AsyncStorage\<close>; the data of a namespace is a key-value map.

  \<^bold>\<open>How a call runs.\<close> \<open>SyncStorageImpl\<close> starts an operation of the asynchronous storage and polls.
  \<open>AsyncStorageImpl\<close> looks up whether the namespace uses the database and, in the cluster types,
  which server the hash of the namespace selects. \<open>AsyncRedisStorage\<close> checks the operation and builds
  a Redis command, which a command dispatcher sends over hiredis; the dispatcher connects, verifies
  that the Redis module is loaded, retries and gives replies and errors to callbacks. A discovery
  tells the storage which server to use. Everything runs in the event loop of the engine, over
  \<open>epoll\<close>, an \<open>eventfd\<close> and a \<open>timerfd\<close>.

  \<^bold>\<open>Theories.\<close>

  \<^item> \<open>Prelude\<close>: failures and results of calls, \<open>std::string\<close>, \<open>std::set\<close> and \<open>std::map\<close>, byte order.
  \<^item> \<open>Namespaces\<close>: \<open>namespacevalidator.cpp\<close>, the texts of the exceptions.
  \<^item> \<open>Host_And_Port\<close>: \<open>hostandport.cpp\<close>, \<open>databaseinfo.hpp\<close>: parsing and printing of addresses (which of
    them are read back as they were), their order and equality.
  \<^item> \<open>Database_Configuration\<close>, \<open>Namespace_Configurations\<close>, \<open>Configuration_Reader\<close>: the configuration and its
    sources, the environment and JSON files. The configuration of a namespace is that of the
    longest prefix, and the lookup table is a transparent cache (locale \<open>namespace_policy\<close>).
  \<^item> \<open>Sdl_Errors\<close>: \<open>error.cpp\<close>, \<open>errorqueries.cpp\<close>, the error categories and the exceptions they become
    (locale \<open>implementation_errors\<close>, interpreted for both categories).
  \<^item> \<open>Contents_Builder\<close>: \<open>contentsbuilder.cpp\<close>. Database keys determine namespace and key (locales
    \<open>key_space\<close> and \<open>key_codec\<close>).
  \<^item> \<open>Redis_Reply\<close>: \<open>asyncredisreply.cpp\<close>, \<open>redisgeneral.cpp\<close>.
  \<^item> \<open>Event_FD\<close>, \<open>Timer_FD\<close>, \<open>Engine_Core\<close>: \<open>eventfd.cpp\<close>, \<open>timerfd.cpp\<close>, \<open>timer.cpp\<close>, \<open>filedescriptor.cpp\<close>,
    \<open>engineimpl.cpp\<close>: no wake-up is lost, callbacks run in order, the callbacks of due timers are called,
    and every reported event is handled unless its descriptor was deleted.
  \<^item> \<open>Epoll_Adapter\<close>: \<open>hiredisepolladapter.cpp\<close>, \<open>hiredisclusterepolladapter.cpp\<close> over the engine (locale
    \<open>fd_monitor\<close>).
  \<^item> \<open>Dispatcher_Base\<close>, \<open>Command_Dispatcher\<close>, \<open>Cluster_Dispatcher\<close>, \<open>Dispatchers\<close>: the two dispatchers as
    state machines, and \<open>asynccommanddispatcher.cpp\<close>, which chooses one (locale
    \<open>command_dispatcher\<close>, interpreted for both). A dispatcher never gets stuck, and a callback is
    called once.
  \<^item> \<open>Redis_Storage\<close>: \<open>asyncredisstorage.cpp\<close>. \<open>Storage_Semantics\<close>: what it does to the data, as a
    refinement of one key-value map per namespace, over any database that does what Redis
    documents.
  \<^item> \<open>Recorded_Dispatcher\<close>: what the storage needs of a connected dispatcher, as the locale
    \<open>recorded_dispatcher\<close>, a relation between its state and a queue of commands. \<open>Event_Queue\<close>: operations
    that are started before earlier ones are acknowledged, and other clients of the database, as
    sequences of events with a specification (locale \<open>pipelined_dispatcher\<close>). Both locales are
    interpreted for both dispatchers.
  \<^item> \<open>Connected_Storage\<close>, \<open>Pipelining\<close>: the storage on \<open>AsyncHiredisCommandDispatcher\<close>; each operation
    takes effect at one moment, in order. \<open>Cluster_Storage\<close>: the storage on
    \<open>AsyncHiredisClusterCommandDispatcher\<close> and a Redis Cluster whose nodes answer in any order; each
    operation takes effect at one moment, since the keys of a namespace are on one node. \<open>Failover\<close>:
    the discovery reports another database while operations wait; each of them is acknowledged
    exactly once.
  \<^item> \<open>Discovery\<close>: the three files of the database discovery.
  \<^item> \<open>Async_Storage\<close>: \<open>asyncstorageimpl.cpp\<close>, \<open>asyncdummystorage.cpp\<close>; the refinement for any number of
    servers.
  \<^item> \<open>Sync_Storage\<close>: \<open>syncstorageimpl.cpp\<close>; the refinement for blocking calls (locale
    \<open>storage_service\<close>, interpreted on the asynchronous storage), timeouts.
  \<^item> \<open>Startup\<close>: \<open>asyncstorage.cpp\<close>, \<open>syncstorage.cpp\<close>: the factories, and the refinement for a storage that
    was just created, with its configuration, its static discovery and the wait for readiness (the
    locale \<open>storage_service\<close> again).
  \<^item> \<open>Command_Line\<close>: \<open>src/src/cli\<close>: the command map, the parsing of the command line, \<open>main\<close> and the
    commands. What \<open>set\<close> stores \<open>get\<close> prints, and a failed operation does not make the tool fail.
    \<open>Tool_Timeout\<close>: the threads that end the tool after a timeout.
  \<^item> \<open>Logging\<close>: the loggers, \<open>createlogger.cpp\<close> and \<open>abort.cpp\<close>. \<open>System_Calls\<close>: \<open>system.cpp\<close>; interrupted
    calls do not throw.

  \<^bold>\<open>State and failures.\<close> Objects are records with the members of the class; operations take and
  return them. An exception, an abort and undefined behaviour are values of \<open>failure\<close>. Callbacks
  that the code binds are constructors of datatypes (\<open>storageCb\<close>, \<open>sentinelCb\<close>), or values of a type
  parameter where they are the client's. A thrown exception ends a run of the model, with the
  exception of the blocking calls, whose exceptions are values.

  \<^bold>\<open>Loops.\<close> Loops that may run forever are partial functions, where \<open>None\<close> means no return: \<open>run\<close> of the
  engine, which is meant to; the polling loops of \<open>SyncStorageImpl\<close>, which return for storages that
  answer and for timeouts, whatever events arrive; the expiry of timers, which returns if callbacks arm timers in the future;
  the retry of an interrupted \<open>write\<close>, which returns after finitely many interruptions; and the event
  loop of \<open>test-connectivity\<close>, for which nothing is shown. All other loops are total functions. There
  is no fuel and no bound on sizes; ports are 16-bit words, event masks and counters have
  their widths, and so has the time of a trigger, which is a 64-bit number of nanoseconds
  (\<open>Timer_FD.toAbsolute\<close>, where an overflow is undefined behaviour). The clock itself is an unbounded
  number: it starts near zero and takes 292 years to overflow.

  \<^bold>\<open>Parameters.\<close> Code outside the repository is an argument: hiredis, \<open>boost\<close> (\<open>lexical_cast\<close>, \<open>split\<close>,
  property trees, CRC), name and address functions of the C library, the kernel, the clock, and
  Redis. What the theorems use of them is stated as hypotheses: \<open>redis_ok\<close> and \<open>glob_ok\<close> for the
  database, \<open>tags_ok\<close> for the choice of the node in a cluster, \<open>clocked\<close> for the clock and
  for the time that \<open>poll\<close> takes.

  \<^bold>\<open>Not modelled.\<close> What the library writes to its loggers from other components; the one-line
  wrappers of hiredis; the tests. Work of several threads is modelled for \<open>EventFD\<close> and for the
  timeouts of the command line tool, the rest of the library runs in one thread. The storage refinements assume connected dispatchers; what happens to commands while
  there is no connection is shown for the dispatchers. The refinement for a storage that was just
  created is for static configurations, not for Sentinel, whose discovery is treated in \<open>Discovery\<close>
  on its own.
\<close>

end
